theory Spec2Isabelle
  imports Complex_Main
begin

section \<open>Render-loop scheduler (src/main.js)\<close>

text \<open>
  The module-level variables of src/main.js that decide whether the rendering
  library's per-frame callback stays installed. \<open>mixers\<close> is the length of the
  \<open>mixers\<close> array, \<open>clockRunning\<close> follows \<open>clock.start()\<close> / \<open>clock.stop()\<close>,
  \<open>animationLoopSet\<close> follows \<open>renderer.setAnimationLoop(renderFrame)\<close> /
  \<open>renderer.setAnimationLoop(null)\<close>, and \<open>framesDrawn\<close> counts the calls of
  \<open>renderer.render\<close>.
\<close>

record render_state =
  hasAnimatedModels :: bool
  renderLoopActive :: bool
  frameRequested :: bool
  mixers :: nat
  clockRunning :: bool
  animationLoopSet :: bool
  framesDrawn :: nat

definition initial_render_state :: render_state where
  "initial_render_state =
     \<lparr>hasAnimatedModels = False, renderLoopActive = False, frameRequested = True,
      mixers = 0, clockRunning = False, animationLoopSet = False, framesDrawn = 0\<rparr>"

definition ensureRenderLoopState :: "render_state \<Rightarrow> render_state" where
  "ensureRenderLoopState s =
     (let shouldRun = (hasAnimatedModels s \<or> frameRequested s) in
      if shouldRun \<and> \<not> renderLoopActive s
      then s\<lparr>clockRunning := True, animationLoopSet := True, renderLoopActive := True\<rparr>
      else if \<not> shouldRun \<and> renderLoopActive s
      then s\<lparr>animationLoopSet := False, clockRunning := False, renderLoopActive := False\<rparr>
      else s)"

definition requestRender :: "render_state \<Rightarrow> render_state" where
  "requestRender s = ensureRenderLoopState (s\<lparr>frameRequested := True\<rparr>)"

text \<open>\<open>registerModelAnimations\<close>: the argument is \<open>clips.length\<close> (0 also stands for
  a missing \<open>clips\<close>).\<close>

definition registerModelAnimations :: "nat \<Rightarrow> render_state \<Rightarrow> render_state" where
  "registerModelAnimations clips s =
     (if clips = 0 then s
      else let s1 = s\<lparr>mixers := mixers s + 1\<rparr> in
           if \<not> hasAnimatedModels s1
           then ensureRenderLoopState (s1\<lparr>hasAnimatedModels := True\<rparr>)
           else s1)"

text \<open>\<open>renderFrame\<close>: the argument is the result of \<open>resizeRendererToDisplaySize\<close>.\<close>

definition renderFrame :: "bool \<Rightarrow> render_state \<Rightarrow> render_state" where
  "renderFrame needResize s =
     (let s1 = (if needResize then s\<lparr>frameRequested := True\<rparr> else s);
          s2 = (if hasAnimatedModels s1 then s1\<lparr>frameRequested := True\<rparr> else s1)
      in if \<not> frameRequested s2
         then (if \<not> hasAnimatedModels s2 then ensureRenderLoopState s2 else s2)
         else let s3 = s2\<lparr>frameRequested := False, framesDrawn := framesDrawn s2 + 1\<rparr>
              in if \<not> hasAnimatedModels s3 then ensureRenderLoopState s3 else s3)"

text \<open>The operations that touch the render-loop state, and a run of them.\<close>

datatype render_op = RequestRender | RegisterModelAnimations nat | RenderFrame bool

fun apply_render_op :: "render_state \<Rightarrow> render_op \<Rightarrow> render_state" where
  "apply_render_op s RequestRender = requestRender s"
| "apply_render_op s (RegisterModelAnimations clips) = registerModelAnimations clips s"
| "apply_render_op s (RenderFrame needResize) = renderFrame needResize s"

definition run_render_ops :: "render_state \<Rightarrow> render_op list \<Rightarrow> render_state" where
  "run_render_ops s ops = foldl apply_render_op s ops"

definition loop_matches_need :: "render_state \<Rightarrow> bool" where
  "loop_matches_need s =
     (renderLoopActive s = (hasAnimatedModels s \<or> frameRequested s))"


section \<open>JSON values and the transform applier (src/main.js)\<close>

text \<open>
  Manifest data is what \<open>response.json()\<close> returns. \<open>JInf\<close> is a number literal too
  large for a double (\<open>JSON.parse("1e999")\<close> is \<open>Infinity\<close>, \<open>JInf True\<close>, and
  \<open>JSON.parse("-1e999")\<close> is \<open>-Infinity\<close>, \<open>JInf False\<close>); an object is the list of its
  members, keys distinct. JavaScript's \<open>undefined\<close> is \<open>None\<close> of \<open>json option\<close>.
\<close>

datatype json =
    JNull
  | JBool bool
  | JNum real
  | JInf bool
  | JStr string
  | JArr "json list"
  | JObj "(string \<times> json) list"

datatype vec3 = Vec3 (vx: real) (vy: real) (vz: real)

datatype quat = Quat (qx: real) (qy: real) (qz: real) (qw: real)

text \<open>
  The two \<open>TypeError\<close>s that the engine throws in this code: on reading a member of
  \<open>null\<close>, and on converting to a number or to a string an object that has no
  primitive value.
\<close>

datatype type_error = ReadOfNull | NoPrimitive

text \<open>
  What the code takes from outside itself: the engine's conversion of a string, an array
  or an object to a number (\<open>None\<close> when the result is \<open>NaN\<close> or infinite), its
  conversion of a value to a string, the message it gives to a \<open>TypeError\<close>, and the two
  quaternion methods of the rendering library that the code calls. A conversion returns
  only for a value that has one; for the others, which \<open>conversion_throws\<close> tells, the
  code throws, and the pipeline below does not use what \<open>toNumber\<close> and \<open>toText\<close> give
  there.
\<close>

record platform =
  toNumber :: "json \<Rightarrow> real option"
  toText :: "json \<Rightarrow> string"
  error_text :: "type_error \<Rightarrow> string"
  quat_normalize :: "quat \<Rightarrow> quat"
  quat_setFromEuler :: "vec3 \<Rightarrow> quat"

text \<open>
  \<open>Number(v)\<close>, \<open>String(v)\<close> and a template string with \<open>v\<close> throw a \<open>TypeError\<close> for these
  values of a parsed JSON text. An object is converted by its methods \<open>valueOf\<close> and
  \<open>toString\<close>; the inherited \<open>valueOf\<close> returns the object itself, which is not a
  primitive value, and a member \<open>toString\<close> of the JSON text hides the inherited method
  and cannot be called, so that an object with such a member has no primitive value. An
  array is converted by joining the strings of its elements, of which \<open>null\<close> gives the
  empty string. The limits of the engine's resources (the depth of its stack, its
  memory) are not modelled.
\<close>

fun conversion_throws :: "json \<Rightarrow> bool" where
  "conversion_throws (JObj kvs) = (map_of kvs ''toString'' \<noteq> None)"
| "conversion_throws (JArr vs) = (\<exists>v \<in> set vs. conversion_throws v)"
| "conversion_throws v = False"

text \<open>The same for a value that may be \<open>undefined\<close>.\<close>

fun number_throws :: "json option \<Rightarrow> bool" where
  "number_throws None = False"
| "number_throws (Some v) = conversion_throws v"

text \<open>\<open>Number(value)\<close> followed by \<open>Number.isFinite\<close>, where \<open>Number(value)\<close> returns:
  \<open>None\<close> is a non-finite result.\<close>

fun finiteNumber :: "platform \<Rightarrow> json option \<Rightarrow> real option" where
  "finiteNumber pf None = None"
| "finiteNumber pf (Some JNull) = Some 0"
| "finiteNumber pf (Some (JBool b)) = Some (if b then 1 else 0)"
| "finiteNumber pf (Some (JNum r)) = Some r"
| "finiteNumber pf (Some (JInf b)) = None"
| "finiteNumber pf (Some v) = toNumber pf v"

text \<open>\<open>asNumber(value, fallback)\<close>: what it returns. It throws instead where
  \<open>number_throws value\<close>.\<close>

definition asNumber :: "platform \<Rightarrow> json option \<Rightarrow> real \<Rightarrow> real" where
  "asNumber pf v fallback = (case finiteNumber pf v of Some n \<Rightarrow> n | None \<Rightarrow> fallback)"

text \<open>Reading a member \<open>v.k\<close> for the keys this code uses: only an object has them.\<close>

fun get_member :: "json \<Rightarrow> string \<Rightarrow> json option" where
  "get_member (JObj kvs) k = map_of kvs k"
| "get_member v k = None"

fun truthy :: "json \<Rightarrow> bool" where
  "truthy JNull = False"
| "truthy (JBool b) = b"
| "truthy (JNum r) = (r \<noteq> 0)"
| "truthy (JInf b) = True"
| "truthy (JStr s) = (s \<noteq> [])"
| "truthy (JArr vs) = True"
| "truthy (JObj kvs) = True"

text \<open>\<open>source || {}\<close>\<close>

fun or_empty_object :: "json option \<Rightarrow> json" where
  "or_empty_object None = JObj []"
| "or_empty_object (Some v) = (if truthy v then v else JObj [])"

definition getVector3 :: "platform \<Rightarrow> json option \<Rightarrow> vec3 \<Rightarrow> vec3" where
  "getVector3 pf source fallback =
     (let ref = or_empty_object source in
      Vec3 (asNumber pf (get_member ref ''x'') (vx fallback))
           (asNumber pf (get_member ref ''y'') (vy fallback))
           (asNumber pf (get_member ref ''z'') (vz fallback)))"

definition quat_identity :: quat where
  "quat_identity = Quat 0 0 0 1"

text \<open>\<open>"x" in r && "y" in r && "z" in r && "w" in r\<close> for an object \<open>r\<close>.\<close>

definition has_xyzw :: "(string \<times> json) list \<Rightarrow> bool" where
  "has_xyzw kvs =
     (map_of kvs ''x'' \<noteq> None \<and> map_of kvs ''y'' \<noteq> None \<and>
      map_of kvs ''z'' \<noteq> None \<and> map_of kvs ''w'' \<noteq> None)"

text \<open>
  \<open>getQuaternion\<close>, the branches in the source's order: an array of length 4; an object
  with the four keys; any other object (an array of another length is one, and has none
  of the members \<open>x\<close>, \<open>y\<close>, \<open>z\<close>); anything else.
\<close>

fun getQuaternion :: "platform \<Rightarrow> json option \<Rightarrow> quat" where
  "getQuaternion pf (Some (JArr [a, b, c, d])) =
     quat_normalize pf
       (Quat (asNumber pf (Some a) 0) (asNumber pf (Some b) 0)
             (asNumber pf (Some c) 0) (asNumber pf (Some d) 1))"
| "getQuaternion pf (Some (JObj kvs)) =
     (if has_xyzw kvs
      then quat_normalize pf
             (Quat (asNumber pf (map_of kvs ''x'') 0) (asNumber pf (map_of kvs ''y'') 0)
                   (asNumber pf (map_of kvs ''z'') 0) (asNumber pf (map_of kvs ''w'') 1))
      else quat_setFromEuler pf
             (Vec3 (asNumber pf (map_of kvs ''x'') 0) (asNumber pf (map_of kvs ''y'') 0)
                   (asNumber pf (map_of kvs ''z'') 0)))"
| "getQuaternion pf (Some (JArr vs)) =
     quat_setFromEuler pf
       (Vec3 (asNumber pf None 0) (asNumber pf None 0) (asNumber pf None 0))"
| "getQuaternion pf r = quat_identity"

record viewer_config =
  mirrorXAxisOnImport :: bool
  enableShadows :: bool
  shadowCasterLimit :: nat

definition VIEWER_CONFIG :: viewer_config where
  "VIEWER_CONFIG =
     \<lparr>mirrorXAxisOnImport = True, enableShadows = True, shadowCasterLimit = 80\<rparr>"

text \<open>The position, quaternion and scale of a scene node.\<close>

record object3D =
  position :: vec3
  quaternion :: quat
  scale :: vec3

definition applyTransform ::
  "platform \<Rightarrow> viewer_config \<Rightarrow> 'a object3D_scheme \<Rightarrow> json option \<Rightarrow> 'a object3D_scheme"
where
  "applyTransform pf cfg object transform =
     (let t = or_empty_object transform;
          p = getVector3 pf (get_member t ''position'') (Vec3 0 0 0);
          s = getVector3 pf (get_member t ''scale'') (Vec3 1 1 1);
          tmpQuat = getQuaternion pf (get_member t ''rotation'')
      in if mirrorXAxisOnImport cfg
         then object\<lparr>position := Vec3 (- vx p) (vy p) (vz p),
                      quaternion := quat_normalize pf
                         (Quat (qx tmpQuat) (- qy tmpQuat) (- qz tmpQuat) (qw tmpQuat)),
                      scale := s\<rparr>
         else object\<lparr>position := p, quaternion := tmpQuat, scale := s\<rparr>)"

text \<open>
  \<open>getVector3\<close>, \<open>getQuaternion\<close> and \<open>applyTransform\<close> return what the definitions above
  say unless one of their calls of \<open>asNumber\<close> throws, and then they throw; nothing has
  been written to the object at that point. These are the arguments for which a call of
  \<open>asNumber\<close> throws, following the members that each function reads.
\<close>

definition getVector3_throws :: "json option \<Rightarrow> bool" where
  "getVector3_throws source =
     (let ref = or_empty_object source in
      number_throws (get_member ref ''x'') \<or> number_throws (get_member ref ''y'') \<or>
      number_throws (get_member ref ''z''))"

fun getQuaternion_throws :: "json option \<Rightarrow> bool" where
  "getQuaternion_throws (Some (JArr [a, b, c, d])) =
     (number_throws (Some a) \<or> number_throws (Some b) \<or>
      number_throws (Some c) \<or> number_throws (Some d))"
| "getQuaternion_throws (Some (JObj kvs)) =
     (if has_xyzw kvs
      then number_throws (map_of kvs ''x'') \<or> number_throws (map_of kvs ''y'') \<or>
           number_throws (map_of kvs ''z'') \<or> number_throws (map_of kvs ''w'')
      else number_throws (map_of kvs ''x'') \<or> number_throws (map_of kvs ''y'') \<or>
           number_throws (map_of kvs ''z''))"
| "getQuaternion_throws r = False"

definition applyTransform_throws :: "json option \<Rightarrow> bool" where
  "applyTransform_throws transform =
     (let t = or_empty_object transform in
      getVector3_throws (get_member t ''position'') \<or>
      getVector3_throws (get_member t ''scale'') \<or>
      getQuaternion_throws (get_member t ''rotation''))"

text \<open>
  The rendering library's \<open>Quaternion.normalize\<close> and \<open>Quaternion.setFromEuler\<close> (Euler
  order XYZ, the default of \<open>new THREE.Euler(x, y, z)\<close>), and a platform built from them
  whose engine converts no string, array or object to a finite number, gives the text
  of a string only, and words its errors as one widespread engine does.
\<close>

definition three_normalize :: "quat \<Rightarrow> quat" where
  "three_normalize q =
     (let l = sqrt (qx q * qx q + qy q * qy q + qz q * qz q + qw q * qw q) in
      if l = 0 then Quat 0 0 0 1
      else Quat (qx q * (1 / l)) (qy q * (1 / l)) (qz q * (1 / l)) (qw q * (1 / l)))"

definition three_setFromEuler :: "vec3 \<Rightarrow> quat" where
  "three_setFromEuler e =
     (let c1 = cos (vx e / 2); c2 = cos (vy e / 2); c3 = cos (vz e / 2);
          s1 = sin (vx e / 2); s2 = sin (vy e / 2); s3 = sin (vz e / 2)
      in Quat (s1 * c2 * c3 + c1 * s2 * s3) (c1 * s2 * c3 - s1 * c2 * s3)
              (c1 * c2 * s3 + s1 * s2 * c3) (c1 * c2 * c3 - s1 * s2 * s3))"

definition engine_error_text :: "type_error \<Rightarrow> string" where
  "engine_error_text e =
     (case e of ReadOfNull \<Rightarrow> ''Cannot read properties of null (reading 'assetType')''
      | NoPrimitive \<Rightarrow> ''Cannot convert object to primitive value'')"

definition three_platform :: platform where
  "three_platform =
     \<lparr>toNumber = (\<lambda>v. None), toText = (\<lambda>v. case v of JStr s \<Rightarrow> s | _ \<Rightarrow> []),
      error_text = engine_error_text,
      quat_normalize = three_normalize,
      quat_setFromEuler = three_setFromEuler\<rparr>"

definition blank_object3D :: object3D where
  "blank_object3D = \<lparr>position = Vec3 0 0 0, quaternion = quat_identity, scale = Vec3 1 1 1\<rparr>"


text \<open>A value that is \<open>undefined\<close> (a missing member) or \<open>null\<close>.\<close>

definition absent :: "json option \<Rightarrow> bool" where
  "absent v = (v = None \<or> v = Some JNull)"


section \<open>Camera fitting (src/main.js and src/sculptures/main.js)\<close>

text \<open>
  A JavaScript number is a finite value, an infinity or \<open>NaN\<close>. Of the rounding of a
  result to a double only the overflow is modelled: a result whose magnitude reaches
  \<open>2^1024 - 2^970\<close>, half a step above the largest double, is an infinity. The two zeros
  are one, taken as the positive one; the code divides by a value that can be zero only
  under \<open>Math.abs\<close>.
\<close>

datatype jsnum = Fin real | PosInf | NegInf | NaN

definition overflow_bound :: real where
  "overflow_bound = 2 ^ 1024 - 2 ^ 970"

definition js_fin :: "real \<Rightarrow> jsnum" where
  "js_fin r =
     (if overflow_bound \<le> r then PosInf else if r \<le> - overflow_bound then NegInf else Fin r)"

fun is_finite :: "jsnum \<Rightarrow> bool" where
  "is_finite (Fin r) = True"
| "is_finite v = False"

fun js_less :: "jsnum \<Rightarrow> jsnum \<Rightarrow> bool" where
  "js_less NaN b = False"
| "js_less a NaN = False"
| "js_less (Fin a) (Fin b) = (a < b)"
| "js_less a PosInf = (a \<noteq> PosInf)"
| "js_less NegInf b = (b \<noteq> NegInf)"
| "js_less a b = False"

text \<open>\<open>Math.max\<close> and \<open>Math.min\<close> of two numbers: \<open>NaN\<close> if either is.\<close>

fun js_max :: "jsnum \<Rightarrow> jsnum \<Rightarrow> jsnum" where
  "js_max NaN b = NaN"
| "js_max a NaN = NaN"
| "js_max a b = (if js_less a b then b else a)"

fun js_min :: "jsnum \<Rightarrow> jsnum \<Rightarrow> jsnum" where
  "js_min NaN b = NaN"
| "js_min a NaN = NaN"
| "js_min a b = (if js_less b a then b else a)"

fun js_abs :: "jsnum \<Rightarrow> jsnum" where
  "js_abs (Fin a) = Fin \<bar>a\<bar>"
| "js_abs PosInf = PosInf"
| "js_abs NegInf = PosInf"
| "js_abs NaN = NaN"

fun js_neg :: "jsnum \<Rightarrow> jsnum" where
  "js_neg (Fin a) = Fin (- a)"
| "js_neg PosInf = NegInf"
| "js_neg NegInf = PosInf"
| "js_neg NaN = NaN"

fun js_mul :: "jsnum \<Rightarrow> jsnum \<Rightarrow> jsnum" where
  "js_mul NaN b = NaN"
| "js_mul a NaN = NaN"
| "js_mul (Fin a) (Fin b) = js_fin (a * b)"
| "js_mul (Fin a) PosInf = (if a = 0 then NaN else if 0 < a then PosInf else NegInf)"
| "js_mul (Fin a) NegInf = (if a = 0 then NaN else if 0 < a then NegInf else PosInf)"
| "js_mul PosInf (Fin b) = (if b = 0 then NaN else if 0 < b then PosInf else NegInf)"
| "js_mul NegInf (Fin b) = (if b = 0 then NaN else if 0 < b then NegInf else PosInf)"
| "js_mul PosInf PosInf = PosInf"
| "js_mul PosInf NegInf = NegInf"
| "js_mul NegInf PosInf = NegInf"
| "js_mul NegInf NegInf = PosInf"

fun js_add :: "jsnum \<Rightarrow> jsnum \<Rightarrow> jsnum" where
  "js_add NaN b = NaN"
| "js_add a NaN = NaN"
| "js_add (Fin a) (Fin b) = js_fin (a + b)"
| "js_add PosInf NegInf = NaN"
| "js_add NegInf PosInf = NaN"
| "js_add (Fin a) b = b"
| "js_add a b = a"

definition js_sub :: "jsnum \<Rightarrow> jsnum \<Rightarrow> jsnum" where
  "js_sub a b = js_add a (js_neg b)"

fun js_div :: "jsnum \<Rightarrow> jsnum \<Rightarrow> jsnum" where
  "js_div NaN b = NaN"
| "js_div a NaN = NaN"
| "js_div (Fin a) (Fin b) =
     (if b \<noteq> 0 then js_fin (a / b)
      else if a = 0 then NaN else if 0 < a then PosInf else NegInf)"
| "js_div (Fin a) b = Fin 0"
| "js_div PosInf (Fin b) = (if 0 \<le> b then PosInf else NegInf)"
| "js_div NegInf (Fin b) = (if 0 \<le> b then NegInf else PosInf)"
| "js_div a b = NaN"

text \<open>\<open>clamp(value, min, max)\<close> is \<open>Math.min(max, Math.max(min, value))\<close>.\<close>

definition clamp :: "jsnum \<Rightarrow> real \<Rightarrow> real \<Rightarrow> jsnum" where
  "clamp v lo hi = js_min (Fin hi) (js_max (Fin lo) v)"

datatype jvec3 = JVec3 (jx: jsnum) (jy: jsnum) (jz: jsnum)

definition isFiniteVec3 :: "jvec3 \<Rightarrow> bool" where
  "isFiniteVec3 v = (is_finite (jx v) \<and> is_finite (jy v) \<and> is_finite (jz v))"

text \<open>The library's bounding box with its methods \<open>isEmpty\<close>, \<open>getSize\<close> (\<open>max - min\<close>, or
  zero for an empty box) and \<open>getCenter\<close> (\<open>(min + max) * 0.5\<close>, or zero for an empty
  box).\<close>

record box3 =
  box_min :: jvec3
  box_max :: jvec3

definition isFiniteBox :: "box3 \<Rightarrow> bool" where
  "isFiniteBox box = (isFiniteVec3 (box_min box) \<and> isFiniteVec3 (box_max box))"

definition box_isEmpty :: "box3 \<Rightarrow> bool" where
  "box_isEmpty box =
     (js_less (jx (box_max box)) (jx (box_min box)) \<or>
      js_less (jy (box_max box)) (jy (box_min box)) \<or>
      js_less (jz (box_max box)) (jz (box_min box)))"

definition box_getSize :: "box3 \<Rightarrow> jvec3" where
  "box_getSize box =
     (if box_isEmpty box then JVec3 (Fin 0) (Fin 0) (Fin 0)
      else JVec3 (js_sub (jx (box_max box)) (jx (box_min box)))
                 (js_sub (jy (box_max box)) (jy (box_min box)))
                 (js_sub (jz (box_max box)) (jz (box_min box))))"

definition box_getCenter :: "box3 \<Rightarrow> jvec3" where
  "box_getCenter box =
     (if box_isEmpty box then JVec3 (Fin 0) (Fin 0) (Fin 0)
      else JVec3 (js_mul (js_add (jx (box_min box)) (jx (box_max box))) (Fin 0.5))
                 (js_mul (js_add (jy (box_min box)) (jy (box_max box))) (Fin 0.5))
                 (js_mul (js_add (jz (box_min box)) (jz (box_max box))) (Fin 0.5)))"

text \<open>What a camera fit writes: the camera distance, the camera's position, near and
  far planes, the fog density and the target of the controls.\<close>

record camera_fit =
  cameraZ :: jsnum
  camera_position :: jvec3
  camera_near :: jsnum
  camera_far :: jsnum
  fog_density :: jsnum
  controls_target :: jvec3

text \<open>How a call of \<open>fitCameraToObject\<close> ends: it returns early and leaves the camera as
  it was, it throws, or it sets the camera.\<close>

datatype 'a fit_result = FitSkipped | FitThrown type_error | FitDone 'a

text \<open>
  The engine's \<open>Math.PI\<close> and \<open>Math.tan\<close>, taken from outside; \<open>Math.tan\<close> of a finite
  number is a finite number.
\<close>

record engine_math =
  Math_PI :: real
  Math_tan :: "real \<Rightarrow> real"

text \<open>
  \<open>fitCameraToObject\<close> of src/main.js, for a camera with field of view \<open>fov_deg\<close> and the
  bounding box that \<open>tmpBox.setFromObject(object3D)\<close> gives.
\<close>

definition fitCameraToObject ::
  "platform \<Rightarrow> engine_math \<Rightarrow> real \<Rightarrow> box3 \<Rightarrow> json option \<Rightarrow> camera_fit fit_result"
where
  "fitCameraToObject pf em fov_deg box offset =
     (if box_isEmpty box \<or> \<not> isFiniteBox box then FitSkipped
      else
        let tmpSize = box_getSize box;
            tmpCenter = box_getCenter box
        in if \<not> isFiniteVec3 tmpSize \<or> \<not> isFiniteVec3 tmpCenter then FitSkipped
           else
             let maxDim = js_max (jx tmpSize) (js_max (jy tmpSize) (jz tmpSize));
                 safeMaxDim = js_max maxDim (Fin 1);
                 fov = fov_deg * (Math_PI em / 180);
                 z0 = js_abs (js_div (js_div safeMaxDim (Fin 2)) (Fin (Math_tan em (fov / 2))))
             in if number_throws offset then FitThrown NoPrimitive
                else
                  let z1 = js_mul z0 (Fin (asNumber pf offset 1.3));
                      z = clamp z1 10 280
                  in FitDone
                       \<lparr>cameraZ = z,
                        camera_position =
                          JVec3 (jx tmpCenter)
                                (js_add (jy tmpCenter) (js_mul safeMaxDim (Fin 0.08)))
                                (js_add (jz tmpCenter) z),
                        camera_near =
                          js_max (js_min (js_div safeMaxDim (Fin 1000)) (Fin 0.2)) (Fin 0.01),
                        camera_far =
                          js_max (js_mul safeMaxDim (Fin 20))
                                 (js_max (js_mul z (Fin 8)) (Fin 1200)),
                        fog_density = clamp (js_div (Fin 0.45) (js_max z (Fin 1))) 0.00018 0.0012,
                        controls_target = tmpCenter\<rparr>)"

text \<open>
  \<open>fitCameraToObject\<close> of src/sculptures/main.js, for the bounding box of the group and
  the offset, a number (\<open>None\<close> is the default 1.2 of a missing argument). It has no early
  return and no clamp, and it does not touch any fog.
\<close>

record sculpture_camera_fit =
  s_cameraZ :: jsnum
  s_camera_position :: jvec3
  s_camera_near :: jsnum
  s_camera_far :: jsnum
  s_controls_target :: jvec3

definition sculpture_fitCameraToObject ::
  "engine_math \<Rightarrow> real \<Rightarrow> box3 \<Rightarrow> jsnum option \<Rightarrow> sculpture_camera_fit"
where
  "sculpture_fitCameraToObject em fov_deg box offset =
     (let sz = box_getSize box;
          center = box_getCenter box;
          maxDim = js_max (jx sz) (js_max (jy sz) (jz sz));
          fov = fov_deg * (Math_PI em / 180);
          z0 = js_abs (js_div (js_div maxDim (Fin 2)) (Fin (Math_tan em (fov / 2))));
          z = js_mul z0 (case offset of None \<Rightarrow> Fin 1.2 | Some v \<Rightarrow> v)
      in \<lparr>s_cameraZ = z,
          s_camera_position = JVec3 (jx center) (jy center) (js_add (jz center) z),
          s_camera_near = js_div maxDim (Fin 100),
          s_camera_far = js_mul maxDim (Fin 100),
          s_controls_target = center\<rparr>)"

definition in_range :: "real \<Rightarrow> real \<Rightarrow> jsnum \<Rightarrow> bool" where
  "in_range lo hi v = (case v of Fin r \<Rightarrow> lo \<le> r \<and> r \<le> hi | _ \<Rightarrow> False)"

text \<open>A bounding box 1000 wide, 1 high and flat, the library's empty box, a finite box
  whose extent is beyond the largest double, and the constant and the tangent of the real
  numbers, which an engine's values approximate where the tangent has no pole.\<close>

definition exact_math :: engine_math where
  "exact_math = \<lparr>Math_PI = pi, Math_tan = tan\<rparr>"

definition wide_box :: box3 where
  "wide_box = \<lparr>box_min = JVec3 (Fin 0) (Fin 0) (Fin 0),
               box_max = JVec3 (Fin 1000) (Fin 1) (Fin 0)\<rparr>"

definition empty_box :: box3 where
  "empty_box = \<lparr>box_min = JVec3 PosInf PosInf PosInf, box_max = JVec3 NegInf NegInf NegInf\<rparr>"

definition huge_box :: box3 where
  "huge_box = \<lparr>box_min = JVec3 (Fin (- (2 ^ 1023))) (Fin 0) (Fin 0),
               box_max = JVec3 (Fin (2 ^ 1023)) (Fin 1) (Fin 0)\<rparr>"


section \<open>Bounded concurrent runner (src/main.js)\<close>

text \<open>
  An asynchronous function runs in uninterrupted stretches on the single thread. A call
  runs the function up to its first \<open>await\<close> or to its end; each later stretch starts when
  the awaited promise has settled and runs to the next \<open>await\<close> or to the end. \<open>'g\<close> is
  the state all stretches share, \<open>'c\<close> says where a suspended call continues.
\<close>

datatype 'c task = Suspended 'c | Returned | Rejected

record ('a, 'g, 'c) async_fn =
  begin_call :: "'a \<Rightarrow> 'g \<Rightarrow> 'c task \<times> 'g"
  continue_call :: "'c \<Rightarrow> 'g \<Rightarrow> 'c task \<times> 'g"

text \<open>
  A \<open>runner()\<close> of \<open>runWithConcurrency\<close> is suspended at \<open>await worker(items[current])\<close>
  while the worker's call is in flight (\<open>Awaiting\<close>), is due to continue once the worker's
  promise has been fulfilled or rejected (\<open>Settled\<close>), has left its loop (\<open>Finished\<close>), or has
  been ended by the worker's rejection (\<open>Crashed\<close>).
\<close>

datatype 'c runner = Awaiting 'c | Settled bool | Finished | Crashed

record ('a, 'g, 'c) pool =
  items :: "'a list"
  index :: nat
  runners :: "'c runner list"
  calls :: "nat list"
  shared :: 'g

fun after_call :: "'c task \<Rightarrow> 'c runner" where
  "after_call (Suspended c) = Awaiting c"
| "after_call Returned = Settled True"
| "after_call Rejected = Settled False"

text \<open>One pass of a runner through the head of its \<open>while\<close> loop, up to the \<open>await\<close>:
  \<open>calls\<close> records the \<open>current\<close> of every call of the worker, in order.\<close>

definition runner_turn ::
  "('a, 'g, 'c) async_fn \<Rightarrow> ('a, 'g, 'c) pool \<Rightarrow> 'c runner \<times> ('a, 'g, 'c) pool"
where
  "runner_turn worker p =
     (if index p < length (items p)
      then let current = index p;
               (t, g) = begin_call worker (items p ! current) (shared p)
           in (after_call t,
               p\<lparr>index := current + 1, calls := calls p @ [current], shared := g\<rparr>)
      else (Finished, p))"

definition spawn :: "('a, 'g, 'c) async_fn \<Rightarrow> ('a, 'g, 'c) pool \<Rightarrow> ('a, 'g, 'c) pool" where
  "spawn worker p = (let (r, p') = runner_turn worker p in p'\<lparr>runners := runners p' @ [r]\<rparr>)"

text \<open>\<open>Math.max(1, Math.min(concurrency, items.length || 1))\<close>\<close>

definition safeConcurrency :: "int \<Rightarrow> nat \<Rightarrow> nat" where
  "safeConcurrency concurrency n =
     nat (max 1 (min concurrency (int (if n = 0 then 1 else n))))"

text \<open>\<open>runWithConcurrency\<close> up to \<open>await Promise.all(runners)\<close>: every \<open>runner()\<close> call of
  the \<open>for\<close> loop has run to its first \<open>await\<close>.\<close>

definition runWithConcurrency ::
  "('a, 'g, 'c) async_fn \<Rightarrow> 'a list \<Rightarrow> int \<Rightarrow> 'g \<Rightarrow> ('a, 'g, 'c) pool"
where
  "runWithConcurrency worker its concurrency g =
     (spawn worker ^^ safeConcurrency concurrency (length its))
       \<lparr>items = its, index = 0, runners = [], calls = [], shared = g\<rparr>"

text \<open>The next stretch of runner \<open>r\<close>, if it has one.\<close>

definition step ::
  "('a, 'g, 'c) async_fn \<Rightarrow> nat \<Rightarrow> ('a, 'g, 'c) pool \<Rightarrow> ('a, 'g, 'c) pool option"
where
  "step worker r p =
     (if r < length (runners p) then
        (case runners p ! r of
           Awaiting c \<Rightarrow>
             (let (t, g) = continue_call worker c (shared p)
              in Some (p\<lparr>shared := g, runners := (runners p)[r := after_call t]\<rparr>))
         | Settled True \<Rightarrow>
             (let (r', p') = runner_turn worker p
              in Some (p'\<lparr>runners := (runners p')[r := r']\<rparr>))
         | Settled False \<Rightarrow> Some (p\<lparr>runners := (runners p)[r := Crashed]\<rparr>)
         | Finished \<Rightarrow> None
         | Crashed \<Rightarrow> None)
      else None)"

text \<open>A schedule names the runner that continues next; a runner that cannot continue is
  passed over.\<close>

fun run :: "('a, 'g, 'c) async_fn \<Rightarrow> nat list \<Rightarrow> ('a, 'g, 'c) pool \<Rightarrow> ('a, 'g, 'c) pool" where
  "run worker [] p = p"
| "run worker (r # rs) p =
     run worker rs (case step worker r p of Some p' \<Rightarrow> p' | None \<Rightarrow> p)"

text \<open>\<open>Promise.all(runners)\<close> is fulfilled when every runner has finished.\<close>

definition resolved :: "('a, 'g, 'c) pool \<Rightarrow> bool" where
  "resolved p = list_all (\<lambda>r. r = Finished) (runners p)"

fun is_awaiting :: "'c runner \<Rightarrow> bool" where
  "is_awaiting (Awaiting c) = True"
| "is_awaiting r = False"

definition in_flight :: "('a, 'g, 'c) pool \<Rightarrow> nat" where
  "in_flight p = length (filter is_awaiting (runners p))"

definition never_rejects :: "('a, 'g, 'c) async_fn \<Rightarrow> bool" where
  "never_rejects worker =
     ((\<forall>a g. fst (begin_call worker a g) \<noteq> Rejected) \<and>
      (\<forall>c g. fst (continue_call worker c g) \<noteq> Rejected))"

text \<open>A worker that rejects every call, and one that fulfils every call after one
  suspension.\<close>

definition rejecting_worker :: "(nat, unit, unit) async_fn" where
  "rejecting_worker =
     \<lparr>begin_call = (\<lambda>a g. (Rejected, g)), continue_call = (\<lambda>c g. (Returned, g))\<rparr>"

definition pausing_worker :: "(nat, nat list, nat) async_fn" where
  "pausing_worker =
     \<lparr>begin_call = (\<lambda>a g. (Suspended a, g)), continue_call = (\<lambda>c g. (Returned, g @ [c]))\<rparr>"


definition pool_inv :: "('a, 'g, 'c) pool \<Rightarrow> bool" where
  "pool_inv p =
     (calls p = [0..<index p] \<and> index p \<le> length (items p) \<and>
      (Finished \<in> set (runners p) \<longrightarrow> index p = length (items p)))"

definition quiescent :: "('a, 'g, 'c) pool \<Rightarrow> bool" where
  "quiescent p = list_all (\<lambda>r. r = Finished \<or> r = Crashed) (runners p)"

definition no_failure :: "('a, 'g, 'c) pool \<Rightarrow> bool" where
  "no_failure p = list_all (\<lambda>r. r \<noteq> Crashed \<and> r \<noteq> Settled False) (runners p)"


section \<open>Cached loaders (src/main.js)\<close>

text \<open>
  A key as a \<open>Map\<close> compares it: a primitive value by its value, an array or an object by
  its identity. The arrays and objects that reach the loaders are members \<open>mapped_file\<close>
  of assets of the manifest, each an object of its own, so that two of them are the same
  object only if they belong to the asset at the same place of \<open>inventory.assets\<close>;
  \<open>KeyObject\<close> carries that place and the value.
\<close>

datatype map_key =
    KeyNull
  | KeyBool bool
  | KeyNum real
  | KeyInf bool
  | KeyStr string
  | KeyObject nat json

text \<open>A file name as the loaders receive it: the place of the asset whose member
  \<open>mapped_file\<close> it is, and the value.\<close>

type_synonym file_name = "nat \<times> json"

fun key_of :: "file_name \<Rightarrow> map_key" where
  "key_of (i, JNull) = KeyNull"
| "key_of (i, JBool b) = KeyBool b"
| "key_of (i, JNum r) = KeyNum r"
| "key_of (i, JInf b) = KeyInf b"
| "key_of (i, JStr s) = KeyStr s"
| "key_of (i, JArr vs) = KeyObject i (JArr vs)"
| "key_of (i, JObj kvs) = KeyObject i (JObj kvs)"

text \<open>
  \<open>texturePromiseCache\<close> and \<open>modelTemplateCache\<close> map a key to the promise of its load.
  The address of a request is a template string with the file name, evaluated in the
  executor of the promise. Where that conversion throws, no request is made and the
  promise is rejected with the \<open>TypeError\<close>: this is the promise \<open>Unrequested\<close> of the key,
  the only one ever made for it. Every other promise is identified by the number of the
  loader request made for it; \<open>texture_requests\<close> and \<open>model_requests\<close> list the keys of
  the names passed to \<open>textureLoader.load\<close> and \<open>gltfLoader.load\<close>, in order.
\<close>

datatype promise = Requested nat | Unrequested map_key

record loaders =
  texturePromiseCache :: "map_key \<rightharpoonup> promise"
  modelTemplateCache :: "map_key \<rightharpoonup> promise"
  texture_requests :: "map_key list"
  model_requests :: "map_key list"

definition loadTextureByFile :: "file_name \<Rightarrow> loaders \<Rightarrow> promise \<times> loaders" where
  "loadTextureByFile fileName s =
     (case texturePromiseCache s (key_of fileName) of
        Some p \<Rightarrow> (p, s)
      | None \<Rightarrow>
          if conversion_throws (snd fileName)
          then (Unrequested (key_of fileName),
                s\<lparr>texturePromiseCache :=
                    (texturePromiseCache s)(key_of fileName \<mapsto> Unrequested (key_of fileName))\<rparr>)
          else
            (let p = Requested (length (texture_requests s))
             in (p, s\<lparr>texture_requests := texture_requests s @ [key_of fileName],
                      texturePromiseCache := (texturePromiseCache s)(key_of fileName \<mapsto> p)\<rparr>)))"

definition loadModelTemplate :: "file_name \<Rightarrow> loaders \<Rightarrow> promise \<times> loaders" where
  "loadModelTemplate fileName s =
     (case modelTemplateCache s (key_of fileName) of
        Some p \<Rightarrow> (p, s)
      | None \<Rightarrow>
          if conversion_throws (snd fileName)
          then (Unrequested (key_of fileName),
                s\<lparr>modelTemplateCache :=
                    (modelTemplateCache s)(key_of fileName \<mapsto> Unrequested (key_of fileName))\<rparr>)
          else
            (let p = Requested (length (model_requests s))
             in (p, s\<lparr>model_requests := model_requests s @ [key_of fileName],
                      modelTemplateCache := (modelTemplateCache s)(key_of fileName \<mapsto> p)\<rparr>)))"

definition no_loads :: loaders where
  "no_loads = \<lparr>texturePromiseCache = Map.empty, modelTemplateCache = Map.empty,
               texture_requests = [], model_requests = []\<rparr>"

text \<open>
  A thrown or rejected value with its \<open>message\<close>, if it has one. What the network does is
  given from outside: how the n-th request of each loader ends. The error callback may
  come without an error value; a loaded model file may lack a scene.
\<close>

datatype thrown = Thrown (message: "string option")

datatype 'r load_result = Loaded 'r | LoadError "thrown option"

record gltf =
  has_scene :: bool
  animation_clips :: nat

record network =
  texture_response :: "nat \<Rightarrow> unit load_result"
  model_response :: "nat \<Rightarrow> gltf load_result"

text \<open>The value that a \<open>TypeError\<close> of the engine is when caught.\<close>

definition type_error_thrown :: "platform \<Rightarrow> type_error \<Rightarrow> thrown" where
  "type_error_thrown pf e = Thrown (Some (error_text pf e))"

text \<open>How the promise made by \<open>loadTextureByFile\<close> and by \<open>loadModelTemplate\<close> settles;
  a fulfilled model promise carries the number of animation clips.\<close>

definition texture_promise :: "platform \<Rightarrow> network \<Rightarrow> promise \<Rightarrow> thrown + unit" where
  "texture_promise pf net p =
     (case p of
        Unrequested k \<Rightarrow> Inl (type_error_thrown pf NoPrimitive)
      | Requested n \<Rightarrow>
          (case texture_response net n of
             Loaded tex \<Rightarrow> Inr ()
           | LoadError None \<Rightarrow> Inl (Thrown (Some ''Texture load failed''))
           | LoadError (Some err) \<Rightarrow> Inl err))"

definition model_promise :: "platform \<Rightarrow> network \<Rightarrow> promise \<Rightarrow> thrown + nat" where
  "model_promise pf net p =
     (case p of
        Unrequested k \<Rightarrow> Inl (type_error_thrown pf NoPrimitive)
      | Requested n \<Rightarrow>
          (case model_response net n of
             Loaded g \<Rightarrow>
               (if \<not> has_scene g then Inl (Thrown (Some ''Empty GLTF scene''))
                else Inr (animation_clips g))
           | LoadError None \<Rightarrow> Inl (Thrown (Some ''Model load failed''))
           | LoadError (Some err) \<Rightarrow> Inl err))"


section \<open>Asset loading pipeline (src/main.js)\<close>

definition MODEL_CONCURRENCY :: int where "MODEL_CONCURRENCY = 1"
definition IMAGE_CONCURRENCY :: int where "IMAGE_CONCURRENCY = 8"
definition STATUS_UPDATE_EVERY :: nat where "STATUS_UPDATE_EVERY = 10"
definition YIELD_TO_UI_EVERY :: nat where "YIELD_TO_UI_EVERY = 12"

text \<open>A child of \<open>world\<close>: an image layer or a model instance, with the promise it was
  made from, or a fallback plane; \<open>userData.asset\<close> and \<open>userData.error\<close>.\<close>

datatype holder_kind = ImageLayer promise | ModelInstance promise | FallbackPlane

record holder = object3D +
  holder_kind :: holder_kind
  userData_asset :: json
  userData_error :: "string option"

datatype status =
    StatusInventory
  | StatusLoading nat
  | StatusProgress nat nat nat nat
  | StatusReady nat nat nat
  | StatusError

text \<open>The state that the stretches of the pipeline share: the counters of \<open>totals\<close>, the
  children of \<open>world\<close>, the loader caches, the render-loop state and the status line.\<close>

record viewer =
  totals_total :: nat
  totals_ok :: nat
  totals_fallback :: nat
  totals_loaded :: nat
  world :: "holder list"
  loaders :: loaders
  render :: render_state
  status :: status

definition new_holder :: "holder_kind \<Rightarrow> json \<Rightarrow> string option \<Rightarrow> holder" where
  "new_holder k a e =
     \<lparr>position = Vec3 0 0 0, quaternion = quat_identity, scale = Vec3 1 1 1,
      holder_kind = k, userData_asset = a, userData_error = e\<rparr>"

text \<open>A call \<open>applyTransform(object3D, transform)\<close> on a holder: it throws or it returns
  with the holder set.\<close>

definition applyTransform_call :: "platform \<Rightarrow> viewer_config \<Rightarrow> holder \<Rightarrow> json option \<Rightarrow> type_error + holder"
where
  "applyTransform_call pf cfg object transform =
     (if applyTransform_throws transform then Inl NoPrimitive
      else Inr (applyTransform pf cfg object transform))"

text \<open>\<open>asset && asset.transform ? asset.transform : null\<close>\<close>

definition transform_or_null :: "json \<Rightarrow> json option" where
  "transform_or_null asset =
     (if truthy asset \<and>
         (case get_member asset ''transform'' of Some v \<Rightarrow> truthy v | None \<Rightarrow> False)
      then get_member asset ''transform'' else Some JNull)"

text \<open>\<open>addFallbackPlane(asset, reason)\<close>: the holder it adds to \<open>world\<close>, and the function,
  which throws before it has changed anything where \<open>applyTransform\<close> throws.\<close>

definition fallback_holder :: "platform \<Rightarrow> viewer_config \<Rightarrow> json \<Rightarrow> string \<Rightarrow> holder" where
  "fallback_holder pf cfg asset reason =
     applyTransform pf cfg
       (new_holder FallbackPlane (if truthy asset then asset else JNull)
          (Some (if reason = [] then ''load_error'' else reason)))
       (transform_or_null asset)"

definition addFallbackPlane ::
  "platform \<Rightarrow> viewer_config \<Rightarrow> json \<Rightarrow> string \<Rightarrow> viewer \<Rightarrow> type_error + viewer"
where
  "addFallbackPlane pf cfg asset reason g =
     (case applyTransform_call pf cfg
             (new_holder FallbackPlane (if truthy asset then asset else JNull)
                (Some (if reason = [] then ''load_error'' else reason)))
             (transform_or_null asset) of
        Inl e \<Rightarrow> Inl e
      | Inr holder \<Rightarrow> Inr (g\<lparr>world := world g @ [holder]\<rparr>))"

text \<open>\<open>!fileName\<close> for \<open>asset.mapped_file\<close>\<close>

fun missing :: "json option \<Rightarrow> bool" where
  "missing None = True"
| "missing (Some v) = (\<not> truthy v)"

text \<open>
  Where a call of \<open>handleAsset\<close> is suspended: in \<open>addAsset\<close> on the promise of a texture or
  of a model template; at \<open>await addAsset(asset)\<close> with \<open>addAsset\<close> already rejected or
  already fulfilled; at \<open>await nextFrame()\<close> in the \<open>finally\<close> block, with or without an
  exception of the \<open>catch\<close> block that is thrown on after the block.
\<close>

datatype await =
    AwaitTexture json promise
  | AwaitModel json promise
  | AwaitRejection json thrown
  | AwaitFulfilment
  | AwaitNextFrame bool

text \<open>An asset of the manifest as a worker receives it: its place in
  \<open>inventory.assets\<close> and its value.\<close>

type_synonym asset_ref = "nat \<times> json"

text \<open>\<open>addAsset(asset)\<close> up to its first \<open>await\<close>, called from \<open>handleAsset\<close>, which then
  waits for it.\<close>

definition addAsset_begin :: "platform \<Rightarrow> asset_ref \<Rightarrow> viewer \<Rightarrow> await \<times> viewer" where
  "addAsset_begin pf item g =
     (let i = fst item; asset = snd item in
      if asset = JNull then (AwaitRejection asset (type_error_thrown pf ReadOfNull), g)
      else if get_member asset ''assetType'' = Some (JStr ''model'') then
        (case get_member asset ''mapped_file'' of
           None \<Rightarrow> (AwaitRejection asset (Thrown (Some ''missing mapped_file'')), g)
         | Some fileName \<Rightarrow>
             if \<not> truthy fileName
             then (AwaitRejection asset (Thrown (Some ''missing mapped_file'')), g)
             else let (p, l) = loadModelTemplate (i, fileName) (loaders g)
                  in (AwaitModel asset p, g\<lparr>loaders := l\<rparr>))
      else if get_member asset ''assetType'' = Some (JStr ''image'') then
        (case get_member asset ''mapped_file'' of
           None \<Rightarrow> (AwaitRejection asset (Thrown (Some ''missing mapped_file'')), g)
         | Some fileName \<Rightarrow>
             if \<not> truthy fileName
             then (AwaitRejection asset (Thrown (Some ''missing mapped_file'')), g)
             else let (p, l) = loadTextureByFile (i, fileName) (loaders g)
                  in (AwaitTexture asset p, g\<lparr>loaders := l\<rparr>))
      else
        (case get_member asset ''assetType'' of
           None \<Rightarrow> (AwaitRejection asset (Thrown (Some ''unsupported type: unknown'')), g)
         | Some ty \<Rightarrow>
             if \<not> truthy ty
             then (AwaitRejection asset (Thrown (Some ''unsupported type: unknown'')), g)
             else if conversion_throws ty
             then (AwaitRejection asset (type_error_thrown pf NoPrimitive), g)
             else (AwaitRejection asset
                     (Thrown (Some (''unsupported type: '' @ toText pf ty))), g)))"

text \<open>The \<open>finally\<close> block of \<open>handleAsset\<close>; \<open>failed\<close> says that the \<open>catch\<close> block has
  thrown, and then the call is rejected once the block is through.\<close>

definition handleAsset_finally :: "bool \<Rightarrow> viewer \<Rightarrow> await task \<times> viewer" where
  "handleAsset_finally failed g =
     (let g1 = g\<lparr>totals_loaded := totals_loaded g + 1\<rparr>;
          g2 = (if totals_loaded g1 mod STATUS_UPDATE_EVERY = 0 \<or>
                   totals_loaded g1 = totals_total g1
                then g1\<lparr>status := StatusProgress (totals_loaded g1) (totals_total g1)
                                     (totals_ok g1) (totals_fallback g1),
                        render := requestRender (render g1)\<rparr>
                else g1)
      in if totals_loaded g2 mod YIELD_TO_UI_EVERY = 0
         then (Suspended (AwaitNextFrame failed), g2)
         else (if failed then Rejected else Returned, g2))"

text \<open>\<open>err && err.message ? err.message : "load_error"\<close>\<close>

definition failure_reason :: "thrown \<Rightarrow> string" where
  "failure_reason err =
     (case message err of Some m \<Rightarrow> (if m = [] then ''load_error'' else m)
      | None \<Rightarrow> ''load_error'')"

text \<open>
  The stretches of a call \<open>handleAsset(asset)\<close>. With the texture or the model loaded,
  \<open>addImageAsset\<close> or \<open>addModelAsset\<close> places the holder in \<open>world\<close>, or is rejected where
  \<open>applyTransform\<close> throws; \<open>handleAsset\<close> itself continues after that, in the \<open>try\<close> or in
  the \<open>catch\<close> branch and then in \<open>finally\<close>. The calls into the rendering library (cloning
  a model, building meshes and groups) are taken to return normally; the shadow budget,
  which only they read, is left out.
\<close>

definition handleAsset_begin ::
  "platform \<Rightarrow> asset_ref \<Rightarrow> viewer \<Rightarrow> await task \<times> viewer"
where
  "handleAsset_begin pf item g = (let (a, g') = addAsset_begin pf item g in (Suspended a, g'))"

fun handleAsset_continue ::
  "platform \<Rightarrow> viewer_config \<Rightarrow> network \<Rightarrow> await \<Rightarrow> viewer \<Rightarrow> await task \<times> viewer"
where
  "handleAsset_continue pf cfg net (AwaitTexture asset p) g =
     (case texture_promise pf net p of
        Inl err \<Rightarrow> (Suspended (AwaitRejection asset err), g)
      | Inr tex \<Rightarrow>
          (case applyTransform_call pf cfg (new_holder (ImageLayer p) asset None)
                  (get_member asset ''transform'') of
             Inl e \<Rightarrow> (Suspended (AwaitRejection asset (type_error_thrown pf e)), g)
           | Inr layer \<Rightarrow> (Suspended AwaitFulfilment, g\<lparr>world := world g @ [layer]\<rparr>)))"
| "handleAsset_continue pf cfg net (AwaitModel asset p) g =
     (case model_promise pf net p of
        Inl err \<Rightarrow> (Suspended (AwaitRejection asset err), g)
      | Inr clips \<Rightarrow>
          (let g1 = g\<lparr>render := registerModelAnimations clips (render g)\<rparr>
           in case applyTransform_call pf cfg (new_holder (ModelInstance p) asset None)
                     (get_member asset ''transform'') of
                Inl e \<Rightarrow> (Suspended (AwaitRejection asset (type_error_thrown pf e)), g1)
              | Inr holder \<Rightarrow> (Suspended AwaitFulfilment, g1\<lparr>world := world g1 @ [holder]\<rparr>)))"
| "handleAsset_continue pf cfg net AwaitFulfilment g =
     handleAsset_finally False (g\<lparr>totals_ok := totals_ok g + 1\<rparr>)"
| "handleAsset_continue pf cfg net (AwaitRejection asset err) g =
     (let g1 = g\<lparr>totals_fallback := totals_fallback g + 1\<rparr>
      in case addFallbackPlane pf cfg asset (failure_reason err) g1 of
           Inl e \<Rightarrow> handleAsset_finally True g1
         | Inr g2 \<Rightarrow> handleAsset_finally False g2)"
| "handleAsset_continue pf cfg net (AwaitNextFrame failed) g =
     (if failed then Rejected else Returned, g)"

definition handleAsset ::
  "platform \<Rightarrow> viewer_config \<Rightarrow> network \<Rightarrow> (asset_ref, viewer, await) async_fn"
where
  "handleAsset pf cfg net =
     \<lparr>begin_call = handleAsset_begin pf, continue_call = handleAsset_continue pf cfg net\<rparr>"

text \<open>The three filters of \<open>main\<close> over \<open>inventory.assets\<close>; the models and the images
  go to the workers, each with its place in the list.\<close>

definition is_type :: "string \<Rightarrow> json \<Rightarrow> bool" where
  "is_type ty asset = (truthy asset \<and> get_member asset ''assetType'' = Some (JStr ty))"

definition modelAssets :: "json list \<Rightarrow> asset_ref list" where
  "modelAssets assets = filter (\<lambda>item. is_type ''model'' (snd item)) (enumerate 0 assets)"

definition imageAssets :: "json list \<Rightarrow> asset_ref list" where
  "imageAssets assets = filter (\<lambda>item. is_type ''image'' (snd item)) (enumerate 0 assets)"

definition otherAssets :: "json list \<Rightarrow> json list" where
  "otherAssets assets =
     filter (\<lambda>asset. \<not> truthy asset \<or>
                      (get_member asset ''assetType'' \<noteq> Some (JStr ''model'') \<and>
                       get_member asset ''assetType'' \<noteq> Some (JStr ''image''))) assets"

text \<open>The loop of \<open>main\<close> over \<open>otherAssets\<close>, with the error that ended it, if one
  did.\<close>

fun add_others ::
  "platform \<Rightarrow> viewer_config \<Rightarrow> json list \<Rightarrow> viewer \<Rightarrow> type_error option \<times> viewer"
where
  "add_others pf cfg [] g = (None, g)"
| "add_others pf cfg (a # as) g =
     (let g1 = g\<lparr>totals_fallback := totals_fallback g + 1,
                 totals_loaded := totals_loaded g + 1\<rparr>
      in case addFallbackPlane pf cfg a ''unsupported type'' g1 of
           Inl e \<Rightarrow> (Some e, g1)
         | Inr g2 \<Rightarrow> add_others pf cfg as g2)"

text \<open>
  \<open>main\<close> from the parsed inventory on. It waits for the batch of models, then for the
  batch of images, then finishes; \<open>Aborted\<close> is \<open>main\<close> rejected, by an exception of the
  loop over \<open>otherAssets\<close> or by a rejected batch promise, which ends it in the \<open>catch\<close> at
  the end of the script while the runners that are under way go on.
\<close>

datatype phase = LoadingModels | LoadingImages | Ready | Aborted

record pipeline =
  phase :: phase
  assets_of :: "json list"
  batch :: "(asset_ref, viewer, await) pool"

definition viewer_at_start :: "render_state \<Rightarrow> viewer" where
  "viewer_at_start rs =
     \<lparr>totals_total = 0, totals_ok = 0, totals_fallback = 0, totals_loaded = 0, world = [],
      loaders = no_loads, render = rs, status = StatusInventory\<rparr>"

text \<open>\<open>Array.isArray(inventory.assets) ? inventory.assets : []\<close>, the list that \<open>main\<close>
  works on.\<close>

definition inventory_assets :: "json \<Rightarrow> json list" where
  "inventory_assets inventory =
     (case get_member inventory ''assets'' of Some (JArr xs) \<Rightarrow> xs | _ \<Rightarrow> [])"

text \<open>The \<open>catch\<close> at the end of the script.\<close>

definition main_rejected :: "viewer \<Rightarrow> viewer" where
  "main_rejected g = g\<lparr>status := StatusError, render := requestRender (render g)\<rparr>"

definition main_begin ::
  "platform \<Rightarrow> viewer_config \<Rightarrow> network \<Rightarrow> json list \<Rightarrow> viewer \<Rightarrow> pipeline"
where
  "main_begin pf cfg net assets g =
     (let g1 = g\<lparr>totals_total := length assets, totals_ok := 0, totals_fallback := 0,
                 totals_loaded := 0, status := StatusLoading (length assets)\<rparr>
      in case add_others pf cfg (otherAssets assets) g1 of
           (Some e, g2) \<Rightarrow>
             \<lparr>phase = Aborted, assets_of = assets,
              batch = \<lparr>items = [], index = 0, runners = [], calls = [],
                       shared = main_rejected g2\<rparr>\<rparr>
         | (None, g2) \<Rightarrow>
             \<lparr>phase = LoadingModels, assets_of = assets,
              batch = runWithConcurrency (handleAsset pf cfg net) (modelAssets assets)
                        MODEL_CONCURRENCY g2\<rparr>)"

datatype event = Continue nat | BatchSettled

text \<open>
  One stretch of the pipeline: a runner of the current batch continues, or \<open>main\<close>
  continues after the batch it waits for has settled. At the end \<open>main\<close> fits ground and
  camera (which touch neither counters, \<open>world\<close> nor caches), asks for a frame and sets the
  status. Frame callbacks and the listeners of the controls and of the window run between
  these stretches and touch the render-loop state only.
\<close>

definition main_continue ::
  "platform \<Rightarrow> viewer_config \<Rightarrow> network \<Rightarrow> pipeline \<Rightarrow> pipeline option"
where
  "main_continue pf cfg net s =
     (if phase s = LoadingModels \<or> phase s = LoadingImages then
        (if Crashed \<in> set (runners (batch s)) then
           Some (s\<lparr>phase := Aborted,
                   batch := (batch s)\<lparr>shared := main_rejected (shared (batch s))\<rparr>\<rparr>)
         else if resolved (batch s) then
           (if phase s = LoadingModels
            then Some (s\<lparr>phase := LoadingImages,
                         batch := runWithConcurrency (handleAsset pf cfg net)
                                    (imageAssets (assets_of s)) IMAGE_CONCURRENCY
                                    (shared (batch s))\<rparr>)
            else let g = shared (batch s)
                 in Some (s\<lparr>phase := Ready,
                            batch := (batch s)\<lparr>shared := g
                               \<lparr>render := requestRender (render g),
                                 status := StatusReady (totals_total g) (totals_ok g)
                                             (totals_fallback g)\<rparr>\<rparr>\<rparr>))
         else None)
      else None)"

definition pipeline_step ::
  "platform \<Rightarrow> viewer_config \<Rightarrow> network \<Rightarrow> event \<Rightarrow> pipeline \<Rightarrow> pipeline option"
where
  "pipeline_step pf cfg net e s =
     (case e of
        Continue r \<Rightarrow>
          (case step (handleAsset pf cfg net) r (batch s) of
             Some b \<Rightarrow> Some (s\<lparr>batch := b\<rparr>)
           | None \<Rightarrow> None)
      | BatchSettled \<Rightarrow> main_continue pf cfg net s)"

fun pipeline_run ::
  "platform \<Rightarrow> viewer_config \<Rightarrow> network \<Rightarrow> event list \<Rightarrow> pipeline \<Rightarrow> pipeline"
where
  "pipeline_run pf cfg net [] s = s"
| "pipeline_run pf cfg net (e # es) s =
     pipeline_run pf cfg net es
       (case pipeline_step pf cfg net e s of Some s' \<Rightarrow> s' | None \<Rightarrow> s)"

definition totals_of :: "pipeline \<Rightarrow> viewer" where
  "totals_of s = shared (batch s)"


section \<open>Sculpture viewer: materials and planes (src/sculptures/main.js)\<close>

text \<open>
  A layer of the sculpture file, an object with the members \<open>id\<close>, \<open>role\<close>, \<open>position\<close>,
  \<open>rotation\<close> and \<open>scale\<close>. \<open>'k\<close> is the type of the ids as the \<open>Map\<close> compares them.
\<close>

record 'k layer =
  layer_id :: 'k
  layer_role :: "json option"
  layer_position :: "json option"
  layer_rotation :: "json option"
  layer_scale :: "json option"

text \<open>The members \<open>x\<close>, \<open>y\<close>, \<open>z\<close> of \<open>v ?? d\<close>, as they are passed on to the library.\<close>

definition xyz_or :: "json option \<Rightarrow> json \<Rightarrow> json option \<times> json option \<times> json option" where
  "xyz_or v d =
     (let ob = (case v of None \<Rightarrow> d | Some JNull \<Rightarrow> d | Some w \<Rightarrow> w)
      in (get_member ob ''x'', get_member ob ''y'', get_member ob ''z''))"

definition xyz_object :: "real \<Rightarrow> json" where
  "xyz_object c = JObj [(''x'', JNum c), (''y'', JNum c), (''z'', JNum c)]"

text \<open>
  A mesh of the group: its material (the number of the texture request the material was
  made with), whether it is the back plane, which \<open>rotateY(Math.PI)\<close> turns, the size of
  its plane geometry, and the values set as position, rotation and scale.
\<close>

record mesh =
  mesh_material :: nat
  mesh_is_back :: bool
  mesh_plane :: "real \<times> real"
  mesh_position :: "json option \<times> json option \<times> json option"
  mesh_rotation :: "json option \<times> json option \<times> json option"
  mesh_scale :: "json option \<times> json option \<times> json option"

text \<open>
  The variables of the sculpture viewer's \<open>main\<close> that materials and planes use. A
  callback waiting in \<open>textureReadyCallbacks\<close> is the closure of one \<open>makePlane\<close> call; it is
  identified by the place of that call's front mesh in the group, the back mesh following
  it. \<open>requests\<close> lists the ids passed to \<open>loader.load\<close>.
\<close>

record 'k sculpture =
  matCache :: "'k \<rightharpoonup> nat"
  textureReadyCallbacks :: "'k \<rightharpoonup> nat list"
  pendingTextures :: nat
  textureWarningShown :: bool
  requests :: "'k list"
  group :: "mesh list"

definition empty_sculpture :: "'k sculpture" where
  "empty_sculpture =
     \<lparr>matCache = Map.empty, textureReadyCallbacks = Map.empty, pendingTextures = 0,
      textureWarningShown = False, requests = [], group = []\<rparr>"

text \<open>
  \<open>getMaterial(id, onTextureReady)\<close> as \<open>makePlane\<close> calls it. On a cache hit with no
  callbacks waiting the callback is called at once; \<open>front\<close> and \<open>back\<close> are not yet
  assigned then, so it returns without effect.
\<close>

definition getMaterial :: "'k \<Rightarrow> nat \<Rightarrow> 'k sculpture \<Rightarrow> nat \<times> 'k sculpture" where
  "getMaterial ident onTextureReady s =
     (case matCache s ident of
        Some cached \<Rightarrow>
          (case textureReadyCallbacks s ident of
             Some callbacks \<Rightarrow>
               (cached, s\<lparr>textureReadyCallbacks :=
                            (textureReadyCallbacks s)(ident \<mapsto> callbacks @ [onTextureReady])\<rparr>)
           | None \<Rightarrow> (cached, s))
      | None \<Rightarrow>
          (let mat = length (requests s)
           in (mat, s\<lparr>textureReadyCallbacks := (textureReadyCallbacks s)(ident \<mapsto> [onTextureReady]),
                      pendingTextures := pendingTextures s + 1,
                      requests := requests s @ [ident],
                      matCache := (matCache s)(ident \<mapsto> mat)\<rparr>)))"

text \<open>\<open>getPlaneSizeFromTexture\<close> from the width and height of the texture's image
  (\<open>None\<close> when not a finite number).\<close>

definition getPlaneSizeFromTexture :: "real option \<times> real option \<Rightarrow> real \<times> real" where
  "getPlaneSizeFromTexture img =
     (case img of
        (Some width, Some height) \<Rightarrow>
          (if width \<le> 0 \<or> height \<le> 0 then (1, 1)
           else (width / max width height, height / max width height))
      | _ \<Rightarrow> (1, 1))"

text \<open>\<open>applyRealSize(front, back, texture)\<close> for the callback \<open>cb\<close>.\<close>

definition applyRealSize :: "real option \<times> real option \<Rightarrow> mesh list \<Rightarrow> nat \<Rightarrow> mesh list" where
  "applyRealSize img ms cb =
     (if Suc cb < length ms
      then ms[cb := (ms ! cb)\<lparr>mesh_plane := getPlaneSizeFromTexture img\<rparr>,
              Suc cb := (ms ! Suc cb)\<lparr>mesh_plane := getPlaneSizeFromTexture img\<rparr>]
      else ms)"

text \<open>The two callbacks given to \<open>loader.load\<close> for the request of \<open>ident\<close>: the texture
  has loaded with an image of the given size, or has failed. Recentering the group and
  fitting the camera change neither the meshes nor the maps.\<close>

definition texture_loaded :: "'k \<Rightarrow> real option \<times> real option \<Rightarrow> 'k sculpture \<Rightarrow> 'k sculpture" where
  "texture_loaded ident img s =
     (let callbacks = (case textureReadyCallbacks s ident of Some cs \<Rightarrow> cs | None \<Rightarrow> [])
      in s\<lparr>pendingTextures := pendingTextures s - 1,
           group := foldl (applyRealSize img) (group s) callbacks,
           textureReadyCallbacks := (textureReadyCallbacks s)(ident := None)\<rparr>)"

definition texture_failed :: "'k \<Rightarrow> 'k sculpture \<Rightarrow> 'k sculpture" where
  "texture_failed ident s =
     s\<lparr>pendingTextures := pendingTextures s - 1,
       textureWarningShown := True,
       textureReadyCallbacks := (textureReadyCallbacks s)(ident := None)\<rparr>"

definition is_sample :: "'k layer \<Rightarrow> bool" where
  "is_sample l = (layer_role l = Some (JStr ''sample''))"

definition makePlane :: "'k layer \<Rightarrow> 'k sculpture \<Rightarrow> 'k sculpture" where
  "makePlane l s =
     (if is_sample l then s
      else
        let (mat, s1) = getMaterial (layer_id l) (length (group s)) s;
            front = \<lparr>mesh_material = mat, mesh_is_back = False, mesh_plane = (1, 1),
                     mesh_position = xyz_or (layer_position l) (xyz_object 0),
                     mesh_rotation = xyz_or (layer_rotation l) (xyz_object 0),
                     mesh_scale = xyz_or (layer_scale l) (xyz_object 1)\<rparr>;
            back = front\<lparr>mesh_is_back := True\<rparr>
        in s1\<lparr>group := group s1 @ [front, back]\<rparr>)"

text \<open>\<open>for (const layer of layers) makePlane(layer)\<close>\<close>

definition make_planes :: "'k layer list \<Rightarrow> 'k sculpture \<Rightarrow> 'k sculpture" where
  "make_planes layers s = foldl (\<lambda>s l. makePlane l s) s layers"

text \<open>
  The page: whether it has the element \<open>#summary\<close>, the template \<open>#layer-card-template\<close>
  and the element \<open>#stat-layers\<close>. A card carries the layer id as text and the address of
  its thumbnail. \<open>renderSummary\<close> gives the children of \<open>#summary\<close> (\<open>None\<close> without the
  element), \<open>updateStats\<close> the number shown in \<open>#stat-layers\<close>. \<open>id_text\<close> is the engine's
  \<open>String(layer?.id ?? "")\<close>.
\<close>

record page =
  has_summary :: bool
  has_card_template :: bool
  has_stat_layers :: bool

record card =
  card_layer_id :: string
  card_thumb_src :: string

definition addCard :: "page \<Rightarrow> string \<Rightarrow> string \<Rightarrow> card option" where
  "addCard pg ident imgUrl =
     (if \<not> has_card_template pg then None
      else Some \<lparr>card_layer_id = ident, card_thumb_src = imgUrl\<rparr>)"

definition renderSummary ::
  "page \<Rightarrow> ('k \<Rightarrow> string) \<Rightarrow> 'k layer list \<Rightarrow> string \<Rightarrow> card list option"
where
  "renderSummary pg id_text layers baseUrl =
     (if \<not> has_summary pg then None
      else Some (List.map_filter
                   (\<lambda>l. addCard pg (id_text (layer_id l))
                          (baseUrl @ id_text (layer_id l) @ ''.png''))
                   layers))"

definition updateStats :: "page \<Rightarrow> 'k layer list \<Rightarrow> nat option" where
  "updateStats pg layers = (if has_stat_layers pg then Some (length layers) else None)"

text \<open>The operations on the sculpture viewer's maps, and a run of them.\<close>

datatype 'k sculpture_op =
    MakePlane "'k layer"
  | TextureLoaded 'k "real option \<times> real option"
  | TextureFailed 'k

fun sculpture_apply :: "'k sculpture \<Rightarrow> 'k sculpture_op \<Rightarrow> 'k sculpture" where
  "sculpture_apply s (MakePlane l) = makePlane l s"
| "sculpture_apply s (TextureLoaded ident img) = texture_loaded ident img s"
| "sculpture_apply s (TextureFailed ident) = texture_failed ident s"


section \<open>Bookkeeping for the pipeline\<close>

text \<open>
  What the proofs about the pipeline keep track of. A call of \<open>handleAsset\<close> that has not
  yet reached \<open>totals.loaded += 1\<close> is not yet counted, and \<open>pending\<close> is the number of
  such calls; the loader state is consistent when each cache maps a key to the one
  request made for it or to the promise made for it without a request; a fallback plane is
  a holder of that kind with a recorded reason; \<open>await_rank\<close> bounds the stretches a
  suspended call still has, from which the measures of a pool and of the pipeline are
  made; \<open>caches_kept\<close> says that the caches of a later state still hold the entries of an
  earlier one.
\<close>

fun uncounted :: "await runner \<Rightarrow> nat" where
  "uncounted (Awaiting (AwaitNextFrame failed)) = 0"
| "uncounted (Awaiting c) = 1"
| "uncounted r = 0"

definition pending :: "(asset_ref, viewer, await) pool \<Rightarrow> nat" where
  "pending p = sum_list (map uncounted (runners p))"

definition cache_matches :: "(map_key \<rightharpoonup> promise) \<Rightarrow> map_key list \<Rightarrow> bool" where
  "cache_matches cache reqs =
     (distinct reqs \<and>
      (\<forall>f n. cache f = Some (Requested n) \<longleftrightarrow> n < length reqs \<and> reqs ! n = f) \<and>
      (\<forall>f k. cache f = Some (Unrequested k) \<longrightarrow> k = f))"

definition loaders_consistent :: "loaders \<Rightarrow> bool" where
  "loaders_consistent l =
     (cache_matches (texturePromiseCache l) (texture_requests l) \<and>
      cache_matches (modelTemplateCache l) (model_requests l))"

definition is_fallback :: "holder \<Rightarrow> bool" where
  "is_fallback h = (holder_kind h = FallbackPlane \<and> userData_error h \<noteq> None)"

definition viewer_inv :: "nat \<Rightarrow> viewer \<Rightarrow> bool" where
  "viewer_inv n g =
     (totals_ok g + totals_fallback g = totals_loaded g \<and>
      totals_total g = n \<and>
      list_all (\<lambda>h. is_fallback h \<or> userData_error h = None) (world g) \<and>
      loaders_consistent (loaders g))"

definition balanced :: "nat \<Rightarrow> (asset_ref, viewer, await) pool \<Rightarrow> bool" where
  "balanced k p = (totals_loaded (shared p) + pending p = k + index p)"

definition pipeline_inv :: "pipeline \<Rightarrow> bool" where
  "pipeline_inv s =
     (viewer_inv (length (assets_of s)) (shared (batch s)) \<and>
      pool_inv (batch s) \<and>
      (phase s = LoadingModels \<longrightarrow>
         items (batch s) = modelAssets (assets_of s) \<and> runners (batch s) \<noteq> [] \<and>
         balanced (length (otherAssets (assets_of s))) (batch s)) \<and>
      (phase s = LoadingImages \<longrightarrow>
         items (batch s) = imageAssets (assets_of s) \<and> runners (batch s) \<noteq> [] \<and>
         balanced (length (otherAssets (assets_of s)) + length (modelAssets (assets_of s)))
           (batch s)) \<and>
      (phase s = Ready \<longrightarrow>
         totals_loaded (shared (batch s)) = length (assets_of s) \<and> resolved (batch s)))"

text \<open>
  An asset whose transform \<open>applyTransform\<close> applies without throwing, a suspended call
  and a runner that work on such an asset with no exception to pass on, a pool in which
  every item, call and runner is so and the fallback planes in \<open>world\<close> are as many as
  \<open>totals.fallback\<close>, and a state of the pipeline with such a manifest and such a pool in
  which \<open>main\<close> has not been rejected.
\<close>

definition plain_transform :: "json \<Rightarrow> bool" where
  "plain_transform asset = (\<not> applyTransform_throws (get_member asset ''transform''))"

fun calm :: "await \<Rightarrow> bool" where
  "calm (AwaitTexture a p) = plain_transform a"
| "calm (AwaitModel a p) = plain_transform a"
| "calm (AwaitRejection a e) = plain_transform a"
| "calm AwaitFulfilment = True"
| "calm (AwaitNextFrame failed) = (\<not> failed)"

fun calm_runner :: "await runner \<Rightarrow> bool" where
  "calm_runner (Awaiting c) = calm c"
| "calm_runner (Settled ok) = ok"
| "calm_runner Finished = True"
| "calm_runner Crashed = False"

definition calm_pool :: "(asset_ref, viewer, await) pool \<Rightarrow> bool" where
  "calm_pool p =
     (list_all (\<lambda>item. plain_transform (snd item)) (items p) \<and>
      list_all calm_runner (runners p) \<and>
      length (filter is_fallback (world (shared p))) = totals_fallback (shared p))"

definition steady :: "pipeline \<Rightarrow> bool" where
  "steady s =
     (list_all plain_transform (assets_of s) \<and> calm_pool (batch s) \<and> phase s \<noteq> Aborted)"

fun await_rank :: "await \<Rightarrow> nat" where
  "await_rank (AwaitTexture a p) = 3"
| "await_rank (AwaitModel a p) = 3"
| "await_rank (AwaitRejection a e) = 2"
| "await_rank AwaitFulfilment = 2"
| "await_rank (AwaitNextFrame failed) = 1"

fun weight :: "await runner \<Rightarrow> nat" where
  "weight (Awaiting c) = await_rank c + 1"
| "weight (Settled b) = 1"
| "weight r = 0"

definition pool_measure :: "(asset_ref, viewer, await) pool \<Rightarrow> nat" where
  "pool_measure p = sum_list (map weight (runners p)) + 4 * (length (items p) - index p)"

definition pipeline_measure :: "pipeline \<Rightarrow> nat" where
  "pipeline_measure s =
     pool_measure (batch s) +
     (case phase s of
        LoadingModels \<Rightarrow> 2 + 4 * length (imageAssets (assets_of s))
      | LoadingImages \<Rightarrow> 1
      | _ \<Rightarrow> 0)"

definition caches_kept :: "loaders \<Rightarrow> loaders \<Rightarrow> bool" where
  "caches_kept l0 l =
     (texturePromiseCache l0 \<subseteq>\<^sub>m texturePromiseCache l \<and>
      modelTemplateCache l0 \<subseteq>\<^sub>m modelTemplateCache l)"

section \<open>Sample data\<close>

text \<open>A sculpture with a sample layer and another layer, a page with all its elements,
  a manifest of six assets, a network on which every texture fails and the first model
  loads, a platform whose library calls leave quaternions as they are, and a schedule
  that runs the pipeline to its end.\<close>

definition demo_layers :: "string layer list" where
  "demo_layers =
     [\<lparr>layer_id = ''a'', layer_role = Some (JStr ''sample''), layer_position = None,
       layer_rotation = None, layer_scale = None\<rparr>,
      \<lparr>layer_id = ''b'', layer_role = None,
       layer_position = Some (JObj [(''x'', JNum 1), (''y'', JNum 2), (''z'', JNum 3)]),
       layer_rotation = None, layer_scale = None\<rparr>]"

definition full_page :: page where
  "full_page = \<lparr>has_summary = True, has_card_template = True, has_stat_layers = True\<rparr>"

definition demo_assets :: "json list" where
  "demo_assets =
     [JObj [(''assetType'', JStr ''image''), (''mapped_file'', JStr ''a.png''),
            (''transform'', JObj [(''position'', JObj [(''x'', JNum 1)])])],
      JObj [(''assetType'', JStr ''model''), (''mapped_file'', JStr ''m.glb'')],
      JNull,
      JObj [(''assetType'', JStr ''image''), (''mapped_file'', JStr ''a.png'')],
      JObj [(''assetType'', JStr ''image'')],
      JObj [(''assetType'', JStr ''video''), (''mapped_file'', JStr ''v.mp4'')]]"

definition demo_network :: network where
  "demo_network =
     \<lparr>texture_response = (\<lambda>n. LoadError None),
      model_response =
        (\<lambda>n. if n = 0 then Loaded \<lparr>has_scene = True, animation_clips = 2\<rparr>
             else LoadError (Some (Thrown None)))\<rparr>"

definition plain_platform :: platform where
  "plain_platform =
     \<lparr>toNumber = (\<lambda>v. None), toText = (\<lambda>v. case v of JStr s \<Rightarrow> s | _ \<Rightarrow> []),
      error_text = engine_error_text,
      quat_normalize = (\<lambda>q. q), quat_setFromEuler = (\<lambda>e. quat_identity)\<rparr>"

definition demo_schedule :: "event list" where
  "demo_schedule =
     [Continue 0, Continue 0, Continue 0, BatchSettled,
      Continue 0, Continue 1, Continue 2, Continue 0, Continue 1, Continue 2,
      Continue 0, Continue 1, BatchSettled]"

definition demo_run :: pipeline where
  "demo_run = pipeline_run plain_platform VIEWER_CONFIG demo_network demo_schedule
     (main_begin plain_platform VIEWER_CONFIG demo_network demo_assets
        (viewer_at_start (requestRender initial_render_state)))"

definition demo_start :: pipeline where
  "demo_start = main_begin plain_platform VIEWER_CONFIG demo_network demo_assets
                  (viewer_at_start (requestRender initial_render_state))"

definition demo_ops :: "string sculpture_op list" where
  "demo_ops = [TextureFailed ''b'', MakePlane (demo_layers ! 1), MakePlane (demo_layers ! 0)]"

text \<open>
  A manifest of two models, the first without a file name and with a position whose
  \<open>x\<close> is an object with a member \<open>toString\<close>, and the schedule that runs its only runner;
  a manifest of two images whose file names are two arrays with the same element, and
  the schedule that starts the batch of images.
\<close>

definition stubborn_assets :: "json list" where
  "stubborn_assets =
     [JObj [(''assetType'', JStr ''model''),
            (''transform'',
               JObj [(''position'', JObj [(''x'', JObj [(''toString'', JNum 0)])])])],
      JObj [(''assetType'', JStr ''model''), (''mapped_file'', JStr ''m.glb'')]]"

definition stubborn_run :: pipeline where
  "stubborn_run = pipeline_run plain_platform VIEWER_CONFIG demo_network
     [Continue 0, Continue 0, BatchSettled]
     (main_begin plain_platform VIEWER_CONFIG demo_network stubborn_assets
        (viewer_at_start (requestRender initial_render_state)))"

definition array_named_assets :: "json list" where
  "array_named_assets =
     [JObj [(''assetType'', JStr ''image''), (''mapped_file'', JArr [JStr ''a.png''])],
      JObj [(''assetType'', JStr ''image''), (''mapped_file'', JArr [JStr ''a.png''])]]"

definition array_named_run :: pipeline where
  "array_named_run = pipeline_run plain_platform VIEWER_CONFIG demo_network [BatchSettled]
     (main_begin plain_platform VIEWER_CONFIG demo_network array_named_assets
        (viewer_at_start (requestRender initial_render_state)))"


section \<open>Properties of the render-loop scheduler\<close>

lemma requestRender_establishes: "loop_matches_need (requestRender s)"
  by (simp add: loop_matches_need_def requestRender_def ensureRenderLoopState_def Let_def)

lemma registerModelAnimations_preserves:
  "loop_matches_need s \<Longrightarrow> loop_matches_need (registerModelAnimations clips s)"
  by (auto simp: loop_matches_need_def registerModelAnimations_def
        ensureRenderLoopState_def Let_def)

lemma renderFrame_preserves:
  "loop_matches_need s \<Longrightarrow> loop_matches_need (renderFrame r s)"
  by (auto simp: loop_matches_need_def renderFrame_def ensureRenderLoopState_def Let_def)

lemma apply_render_op_preserves:
  "loop_matches_need s \<Longrightarrow> loop_matches_need (apply_render_op s x)"
  by (cases x)
     (simp_all add: requestRender_establishes registerModelAnimations_preserves
        renderFrame_preserves)

lemma run_render_ops_preserves:
  "loop_matches_need s \<Longrightarrow> loop_matches_need (run_render_ops s ops)"
  unfolding run_render_ops_def
  by (induction ops arbitrary: s) (simp_all add: apply_render_op_preserves)

lemma renderFrame_clears_flag: "frameRequested (renderFrame r s) = False"
  by (auto simp: renderFrame_def ensureRenderLoopState_def Let_def)

lemma renderFrame_keeps_animated:
  "hasAnimatedModels (renderFrame r s) = hasAnimatedModels s"
  by (auto simp: renderFrame_def ensureRenderLoopState_def Let_def)

lemma renderFrame_draws:
  "framesDrawn (renderFrame r s) =
     framesDrawn s + (if hasAnimatedModels s \<or> frameRequested s \<or> r then 1 else 0)"
  by (auto simp: renderFrame_def ensureRenderLoopState_def Let_def)

text \<open>
  C6. The script's last statement is \<open>requestRender()\<close>, the first operation that
  touches the render-loop state; whatever operations follow, after each of them
  \<open>renderLoopActive\<close> equals \<open>hasAnimatedModels || frameRequested\<close>. A frame callback
  run in such a state draws a frame exactly when there are animated models, a frame was
  requested or the canvas was resized; it leaves \<open>frameRequested\<close> cleared (the source
  clears it just before the draw call, also with animated models, where the callback
  sets it anew on every frame), and it leaves the loop active exactly when there are
  animated models.
\<close>

theorem render_loop_active_iff_needed:
  "loop_matches_need (run_render_ops (requestRender s0) ops) \<and>
   frameRequested (renderFrame r (run_render_ops (requestRender s0) ops)) = False \<and>
   renderLoopActive (renderFrame r (run_render_ops (requestRender s0) ops))
     = hasAnimatedModels (run_render_ops (requestRender s0) ops) \<and>
   framesDrawn (renderFrame r (run_render_ops (requestRender s0) ops))
     = framesDrawn (run_render_ops (requestRender s0) ops)
       + (if hasAnimatedModels (run_render_ops (requestRender s0) ops) \<or>
             frameRequested (run_render_ops (requestRender s0) ops) \<or> r
          then 1 else 0)"
proof -
  let ?s = "run_render_ops (requestRender s0) ops"
  have inv: "loop_matches_need ?s"
    by (rule run_render_ops_preserves) (rule requestRender_establishes)
  have post: "loop_matches_need (renderFrame r ?s)"
    using inv by (rule renderFrame_preserves)
  have "renderLoopActive (renderFrame r ?s) = hasAnimatedModels ?s"
    using post by (simp add: loop_matches_need_def renderFrame_clears_flag
        renderFrame_keeps_animated)
  with inv show ?thesis by (simp add: renderFrame_clears_flag renderFrame_draws)
qed


section \<open>Properties of the transform applier\<close>

lemma getVector3_absent: "absent src \<Longrightarrow> getVector3 pf src fb = fb"
  by (auto simp: absent_def getVector3_def asNumber_def)

lemma getQuaternion_absent: "absent r \<Longrightarrow> getQuaternion pf r = quat_identity"
  by (auto simp: absent_def)

lemma get_member_absent: "absent t \<Longrightarrow> get_member (or_empty_object t) k = None"
  by (auto simp: absent_def)

lemma three_normalize_identity: "three_normalize quat_identity = quat_identity"
  by (simp add: three_normalize_def quat_identity_def)

lemma three_setFromEuler_zero: "three_setFromEuler (Vec3 0 0 0) = quat_identity"
  by (simp add: three_setFromEuler_def quat_identity_def)

lemma scaled_squares:
  fixes a b c d l :: real
  shows "(a * (1 / l))\<^sup>2 + (b * (1 / l))\<^sup>2 + (c * (1 / l))\<^sup>2 + (d * (1 / l))\<^sup>2
         = (a * a + b * b + c * c + d * d) / l\<^sup>2"
  by (simp add: power2_eq_square add_divide_distrib)

text \<open>The library's \<open>normalize\<close> returns a quaternion of length 1.\<close>

lemma three_normalize_unit:
  "(qx (three_normalize q))\<^sup>2 + (qy (three_normalize q))\<^sup>2 +
   (qz (three_normalize q))\<^sup>2 + (qw (three_normalize q))\<^sup>2 = 1"
proof -
  let ?n = "qx q * qx q + qy q * qy q + qz q * qz q + qw q * qw q"
  have nn: "0 \<le> ?n" by simp
  have sq: "(sqrt ?n)\<^sup>2 = ?n" using nn by simp
  show ?thesis
  proof (cases "sqrt ?n = 0")
    case True
    then show ?thesis by (simp add: three_normalize_def)
  next
    case False
    then have pos: "?n \<noteq> 0" by auto
    have "(qx q * (1 / sqrt ?n))\<^sup>2 + (qy q * (1 / sqrt ?n))\<^sup>2 +
          (qz q * (1 / sqrt ?n))\<^sup>2 + (qw q * (1 / sqrt ?n))\<^sup>2 = 1"
      unfolding scaled_squares sq using pos by simp
    then show ?thesis using False by (simp add: three_normalize_def Let_def)
  qed
qed

text \<open>
  C4. With \<open>mirrorXAxisOnImport\<close> set, \<open>applyTransform\<close> gives the node the position of
  the unmirrored application with the x component negated and y, z kept; the quaternion
  of the unmirrored application with the y and z components negated and x, w kept, passed
  through the library's \<open>normalize\<close>; and the same scale as the unmirrored application.
\<close>

theorem applyTransform_mirror:
  assumes "mirrorXAxisOnImport cfg"
  shows "position (applyTransform pf cfg obj t) =
           Vec3 (- vx (position (applyTransform pf (cfg\<lparr>mirrorXAxisOnImport := False\<rparr>) obj t)))
                (vy (position (applyTransform pf (cfg\<lparr>mirrorXAxisOnImport := False\<rparr>) obj t)))
                (vz (position (applyTransform pf (cfg\<lparr>mirrorXAxisOnImport := False\<rparr>) obj t)))
       \<and> quaternion (applyTransform pf cfg obj t) =
           quat_normalize pf
             (Quat (qx (quaternion (applyTransform pf (cfg\<lparr>mirrorXAxisOnImport := False\<rparr>) obj t)))
                   (- qy (quaternion (applyTransform pf (cfg\<lparr>mirrorXAxisOnImport := False\<rparr>) obj t)))
                   (- qz (quaternion (applyTransform pf (cfg\<lparr>mirrorXAxisOnImport := False\<rparr>) obj t)))
                   (qw (quaternion (applyTransform pf (cfg\<lparr>mirrorXAxisOnImport := False\<rparr>) obj t))))
       \<and> scale (applyTransform pf cfg obj t) =
           scale (applyTransform pf (cfg\<lparr>mirrorXAxisOnImport := False\<rparr>) obj t)
       \<and> scale (applyTransform pf cfg obj t) =
           getVector3 pf (get_member (or_empty_object t) ''scale'') (Vec3 1 1 1)"
  using assms by (simp add: applyTransform_def Let_def)

theorem applyTransform_mirror_witness:
  "mirrorXAxisOnImport VIEWER_CONFIG \<and>
   position (applyTransform three_platform VIEWER_CONFIG blank_object3D
      (Some (JObj [(''position'', JObj [(''x'', JNum 1), (''y'', JNum 2), (''z'', JNum 3)]),
                   (''rotation'', JArr [JNum 0, JNum 1, JNum 0, JNum 0]),
                   (''scale'', JObj [(''x'', JNum 2)])]))) = Vec3 (- 1) 2 3 \<and>
   quaternion (applyTransform three_platform VIEWER_CONFIG blank_object3D
      (Some (JObj [(''position'', JObj [(''x'', JNum 1), (''y'', JNum 2), (''z'', JNum 3)]),
                   (''rotation'', JArr [JNum 0, JNum 1, JNum 0, JNum 0]),
                   (''scale'', JObj [(''x'', JNum 2)])]))) = Quat 0 (- 1) 0 0 \<and>
   scale (applyTransform three_platform VIEWER_CONFIG blank_object3D
      (Some (JObj [(''position'', JObj [(''x'', JNum 1), (''y'', JNum 2), (''z'', JNum 3)]),
                   (''rotation'', JArr [JNum 0, JNum 1, JNum 0, JNum 0]),
                   (''scale'', JObj [(''x'', JNum 2)])]))) = Vec3 2 1 1"
proof -
  have m: "mirrorXAxisOnImport VIEWER_CONFIG" by (simp add: VIEWER_CONFIG_def)
  show ?thesis
    using m applyTransform_mirror [OF m, of three_platform blank_object3D
      "Some (JObj [(''position'', JObj [(''x'', JNum 1), (''y'', JNum 2), (''z'', JNum 3)]),
                   (''rotation'', JArr [JNum 0, JNum 1, JNum 0, JNum 0]),
                   (''scale'', JObj [(''x'', JNum 2)])])"]
    by (simp add: applyTransform_def getVector3_def asNumber_def three_platform_def
          three_normalize_def Let_def)
qed

text \<open>
  C5. Absent fields default to identity: a coordinate missing from a vector takes the
  fallback's coordinate, an absent (undefined or null) vector is the fallback, an absent
  rotation is the identity quaternion, and with an absent transform, or one whose
  position, rotation and scale are absent, the node gets position (0,0,0), the identity
  quaternion and scale (1,1,1), in either mirror mode, given that the library's
  \<open>normalize\<close> leaves the identity quaternion as it is. The rotation format is detected by
  shape: an array of four elements and an object with the keys x, y, z and w are read as
  quaternion components (defaults 0, 0, 0 and 1 for a component that is not a finite
  number) and normalized, any other object is read as Euler angles (default 0); an array
  of another length is such an object and has none of the members x, y, z, so it gives
  the Euler angles (0,0,0); a value that is no object gives the identity quaternion.
\<close>

theorem applyTransform_defaults_and_rotation_shapes:
  assumes "quat_normalize pf quat_identity = quat_identity"
  shows "(absent t \<or>
            (t = Some (JObj kvs) \<and> absent (map_of kvs ''position'') \<and>
             absent (map_of kvs ''rotation'') \<and> absent (map_of kvs ''scale''))
          \<longrightarrow> applyTransform pf cfg obj t =
                obj\<lparr>position := Vec3 0 0 0, quaternion := quat_identity, scale := Vec3 1 1 1\<rparr>)
       \<and> (absent src \<longrightarrow> getVector3 pf src fb = fb)
       \<and> (map_of vkvs ''x'' = None \<longrightarrow> vx (getVector3 pf (Some (JObj vkvs)) fb) = vx fb)
       \<and> (map_of vkvs ''y'' = None \<longrightarrow> vy (getVector3 pf (Some (JObj vkvs)) fb) = vy fb)
       \<and> (map_of vkvs ''z'' = None \<longrightarrow> vz (getVector3 pf (Some (JObj vkvs)) fb) = vz fb)
       \<and> (absent r \<longrightarrow> getQuaternion pf r = quat_identity)
       \<and> getQuaternion pf (Some (JArr [a, b, c, d])) =
           quat_normalize pf
             (Quat (asNumber pf (Some a) 0) (asNumber pf (Some b) 0)
                   (asNumber pf (Some c) 0) (asNumber pf (Some d) 1))
       \<and> (has_xyzw qkvs \<longrightarrow>
            getQuaternion pf (Some (JObj qkvs)) =
              quat_normalize pf
                (Quat (asNumber pf (map_of qkvs ''x'') 0) (asNumber pf (map_of qkvs ''y'') 0)
                      (asNumber pf (map_of qkvs ''z'') 0) (asNumber pf (map_of qkvs ''w'') 1)))
       \<and> (\<not> has_xyzw ekvs \<longrightarrow>
            getQuaternion pf (Some (JObj ekvs)) =
              quat_setFromEuler pf
                (Vec3 (asNumber pf (map_of ekvs ''x'') 0) (asNumber pf (map_of ekvs ''y'') 0)
                      (asNumber pf (map_of ekvs ''z'') 0)))
       \<and> (length vs \<noteq> 4 \<longrightarrow>
            getQuaternion pf (Some (JArr vs)) = quat_setFromEuler pf (Vec3 0 0 0))
       \<and> ((\<forall>ws. other \<noteq> JArr ws) \<and> (\<forall>okvs. other \<noteq> JObj okvs) \<longrightarrow>
            getQuaternion pf (Some other) = quat_identity)"
proof -
  have arr: "getQuaternion pf (Some (JArr vs)) = quat_setFromEuler pf (Vec3 0 0 0)"
    if "length vs \<noteq> 4"
    using that
    by (cases "(pf, Some (JArr vs))" rule: getQuaternion.cases) (auto simp: asNumber_def)
  have oth: "getQuaternion pf (Some other) = quat_identity"
    if "(\<forall>ws. other \<noteq> JArr ws) \<and> (\<forall>okvs. other \<noteq> JObj okvs)"
    using that by (cases other) auto
  have id_neg: "Quat (qx quat_identity) (- qy quat_identity) (- qz quat_identity)
                  (qw quat_identity) = quat_identity"
    by (simp add: quat_identity_def)
  have whole: "applyTransform pf cfg obj t =
      obj\<lparr>position := Vec3 0 0 0, quaternion := quat_identity, scale := Vec3 1 1 1\<rparr>"
    if "absent t \<or> (t = Some (JObj kvs) \<and> absent (map_of kvs ''position'') \<and>
         absent (map_of kvs ''rotation'') \<and> absent (map_of kvs ''scale''))"
  proof -
    have p: "absent (get_member (or_empty_object t) ''position'')"
      and q: "absent (get_member (or_empty_object t) ''rotation'')"
      and s: "absent (get_member (or_empty_object t) ''scale'')"
      using that by (auto simp: get_member_absent absent_def)
    show ?thesis
      using assms
      by (simp add: applyTransform_def Let_def getVector3_absent [OF p]
            getVector3_absent [OF s] getQuaternion_absent [OF q] id_neg)
  qed
  have coords: "map_of vkvs ''x'' = None \<longrightarrow> vx (getVector3 pf (Some (JObj vkvs)) fb) = vx fb"
    "map_of vkvs ''y'' = None \<longrightarrow> vy (getVector3 pf (Some (JObj vkvs)) fb) = vy fb"
    "map_of vkvs ''z'' = None \<longrightarrow> vz (getVector3 pf (Some (JObj vkvs)) fb) = vz fb"
    by (simp_all add: getVector3_def asNumber_def)
  show ?thesis
    using whole coords arr oth by (simp add: getVector3_absent getQuaternion_absent)
qed

theorem applyTransform_defaults_and_rotation_shapes_witness:
  "quat_normalize three_platform quat_identity = quat_identity \<and>
   (Some (JObj [(''position'', JNull)]) = Some (JObj [(''position'', JNull)]) \<and>
    absent (map_of [(''position'', JNull)] ''position'') \<and>
    absent (map_of [(''position'', JNull)] ''rotation'') \<and>
    absent (map_of [(''position'', JNull)] ''scale'')) \<and>
   applyTransform three_platform VIEWER_CONFIG
     \<lparr>position = Vec3 5 6 7, quaternion = Quat 1 0 0 0, scale = Vec3 2 2 2\<rparr>
     (Some (JObj [(''position'', JNull)]))
     = \<lparr>position = Vec3 0 0 0, quaternion = Quat 0 0 0 1, scale = Vec3 1 1 1\<rparr> \<and>
   absent (Some JNull) \<and> getVector3 three_platform (Some JNull) (Vec3 1 1 1) = Vec3 1 1 1 \<and>
   map_of [(''y'', JNum 4)] ''x'' = None \<and> map_of [(''y'', JNum 4)] ''z'' = None \<and>
   getVector3 three_platform (Some (JObj [(''y'', JNum 4)])) (Vec3 1 1 1) = Vec3 1 4 1 \<and>
   absent None \<and> getQuaternion three_platform None = Quat 0 0 0 1 \<and>
   getQuaternion three_platform (Some (JArr [JNum 0, JNum 0, JNum 0, JNum 2])) = Quat 0 0 0 1 \<and>
   has_xyzw [(''x'', JNum 3), (''y'', JNum 0), (''z'', JNum 0), (''w'', JNum 0)] \<and>
   getQuaternion three_platform
     (Some (JObj [(''x'', JNum 3), (''y'', JNum 0), (''z'', JNum 0), (''w'', JNum 0)]))
     = Quat 1 0 0 0 \<and>
   \<not> has_xyzw [(''x'', JNum 0), (''y'', JNum 0), (''z'', JNum 0)] \<and>
   getQuaternion three_platform (Some (JObj [(''x'', JNum 0), (''y'', JNum 0), (''z'', JNum 0)]))
     = Quat 0 0 0 1 \<and>
   length [JNum 1, JNum 2, JNum 3] \<noteq> 4 \<and>
   getQuaternion three_platform (Some (JArr [JNum 1, JNum 2, JNum 3])) = Quat 0 0 0 1 \<and>
   ((\<forall>ws. JStr ''up'' \<noteq> JArr ws) \<and> (\<forall>okvs. JStr ''up'' \<noteq> JObj okvs)) \<and>
   getQuaternion three_platform (Some (JStr ''up'')) = Quat 0 0 0 1"
proof -
  have n: "quat_normalize three_platform quat_identity = quat_identity"
    by (simp add: three_platform_def three_normalize_identity)
  have vec: "getVector3 three_platform (Some (JObj [(''y'', JNum 4)])) (Vec3 1 1 1) = Vec3 1 4 1"
    by (simp add: getVector3_def asNumber_def)
  show ?thesis
    using n vec
      applyTransform_defaults_and_rotation_shapes [OF n,
        of "Some (JObj [(''position'', JNull)])" "[(''position'', JNull)]" VIEWER_CONFIG
           "\<lparr>position = Vec3 5 6 7, quaternion = Quat 1 0 0 0, scale = Vec3 2 2 2\<rparr>"
           "Some JNull" "Vec3 1 1 1" "[(''y'', JNum 4)]" None
           "JNum 0" "JNum 0" "JNum 0" "JNum 2"
           "[(''x'', JNum 3), (''y'', JNum 0), (''z'', JNum 0), (''w'', JNum 0)]"
           "[(''x'', JNum 0), (''y'', JNum 0), (''z'', JNum 0)]"
           "[JNum 1, JNum 2, JNum 3]" "JStr ''up''"]
    by (simp add: absent_def has_xyzw_def quat_identity_def asNumber_def three_platform_def
          three_normalize_def three_setFromEuler_def)
qed


section \<open>Properties of camera fitting\<close>

lemma overflow_bound_large: "2 ^ 1000 < overflow_bound"
proof -
  have "(2::real) ^ 1024 = 2 ^ 54 * 2 ^ 970" by (simp add: power_add [symmetric])
  moreover have "(2::real) ^ 1000 = 2 ^ 30 * 2 ^ 970" by (simp add: power_add [symmetric])
  ultimately have "overflow_bound - 2 ^ 1000 = (2 ^ 54 - 1 - 2 ^ 30) * (2::real) ^ 970"
    by (simp add: overflow_bound_def algebra_simps)
  moreover have "0 < (2 ^ 54 - 1 - 2 ^ 30) * (2::real) ^ 970"
    by (intro mult_pos_pos) simp_all
  ultimately show ?thesis by linarith
qed

lemma overflow_bound_reached: "overflow_bound \<le> 2 ^ 1023 + 2 ^ 1023"
  by (simp add: overflow_bound_def)

lemma js_fin_small: "\<bar>r\<bar> \<le> 2 ^ 1000 \<Longrightarrow> js_fin r = Fin r"
  using overflow_bound_large by (auto simp: js_fin_def)

lemma js_fin_cases:
  "js_fin r = Fin r \<or> (js_fin r = PosInf \<and> 0 < r) \<or> (js_fin r = NegInf \<and> r < 0)"
  using overflow_bound_large by (auto simp: js_fin_def)

lemma js_fin_not_NaN [simp]: "js_fin r \<noteq> NaN"
  by (simp add: js_fin_def)

lemma js_abs_NaN [simp]: "js_abs v = NaN \<longleftrightarrow> v = NaN"
  by (cases v) auto

lemma js_mul_NaN: "v \<noteq> NaN \<Longrightarrow> c \<noteq> 0 \<Longrightarrow> js_mul v (Fin c) \<noteq> NaN"
  by (cases v) auto

lemma js_mul_is_NaN:
  "js_mul v (Fin c) = NaN \<longleftrightarrow> v = NaN \<or> (c = 0 \<and> (v = PosInf \<or> v = NegInf))"
  by (cases v) auto

lemma clamp_in_range: "v \<noteq> NaN \<Longrightarrow> in_range 10 280 (clamp v 10 280)"
  by (cases v) (auto simp: clamp_def in_range_def)

lemma clamp_NaN: "clamp NaN lo hi = NaN"
  by (simp add: clamp_def)

lemma js_max_finite:
  "is_finite a \<Longrightarrow> is_finite b \<Longrightarrow> is_finite (js_max a b)"
  by (cases a; cases b) auto

lemma js_max_one: "is_finite a \<Longrightarrow> \<exists>s. js_max a (Fin 1) = Fin s \<and> 1 \<le> s"
  by (cases a) auto

lemma half_of_positive:
  assumes "1 \<le> s"
  shows "(\<exists>a. js_div (Fin s) (Fin 2) = Fin a \<and> 0 < a) \<or> js_div (Fin s) (Fin 2) = PosInf"
  using assms js_fin_cases [of "s / 2"] by auto

lemma quotient_not_NaN:
  assumes "(\<exists>a. h = Fin a \<and> 0 < a) \<or> h = PosInf"
  shows "js_div h (Fin t) \<noteq> NaN"
  using assms by (auto split: if_splits)

text \<open>The distance before the offset is applied is never \<open>NaN\<close> in the inventory
  viewer, whose largest dimension is at least 1.\<close>

lemma safe_distance_not_NaN:
  assumes "is_finite m"
  shows "js_abs (js_div (js_div (js_max m (Fin 1)) (Fin 2)) (Fin t)) \<noteq> NaN"
proof -
  obtain s where s: "js_max m (Fin 1) = Fin s" "1 \<le> s" using js_max_one [OF assms] by auto
  from half_of_positive [OF s(2)] quotient_not_NaN [of "js_div (Fin s) (Fin 2)" t] s(1)
  show ?thesis by simp
qed

lemma tan_fov_50: "0 < tan (50 * (pi / 180) / 2) \<and> tan (50 * (pi / 180) / 2) < 1"
proof -
  have e: "50 * (pi / 180) / 2 = 5 * pi / 36" by simp
  have p: "0 < 5 * pi / 36" by simp
  have q: "5 * pi / 36 < pi / 4" using pi_gt_zero by simp
  have q2: "5 * pi / 36 < pi / 2" using pi_gt_zero by simp
  have "0 < tan (5 * pi / 36)" using p q2 by (rule tan_gt_zero)
  moreover have "tan (5 * pi / 36) < tan (pi / 4)"
    using q by (intro tan_monotone) (use pi_gt_zero in auto)
  ultimately show ?thesis unfolding e by (simp add: tan_45)
qed

lemma quotient_over_small_tan:
  fixes a t :: real
  assumes "0 < t" "t < 1" "0 < a"
  shows "a < a / t"
proof -
  have "a * t < a * 1" using assms by (intro mult_strict_left_mono) auto
  then show "a < a / t" using assms by (simp add: pos_less_divide_eq)
qed

lemma far_distance_out_of_range:
  assumes "280 < q"
  shows "\<not> in_range 10 280 (js_mul (js_abs (js_fin q)) (Fin 1.35))"
proof -
  have q: "280 < q * 1.35" using assms by simp
  from js_fin_cases [of q] show ?thesis
  proof (elim disjE conjE)
    assume "js_fin q = Fin q"
    then have "js_mul (js_abs (js_fin q)) (Fin 1.35) = js_fin (q * 1.35)"
      using assms by simp
    with js_fin_cases [of "q * 1.35"] q show ?thesis by (auto simp: in_range_def)
  next
    assume "js_fin q = PosInf"
    then show ?thesis by (simp add: in_range_def)
  next
    assume "js_fin q = NegInf"
    then show ?thesis by (simp add: in_range_def)
  qed
qed

lemma wide_box_size:
  "\<not> box_isEmpty wide_box" "isFiniteBox wide_box"
  "box_getSize wide_box = JVec3 (Fin 1000) (Fin 1) (Fin 0)"
  "box_getCenter wide_box = JVec3 (Fin 500) (Fin 0.5) (Fin 0)"
  by (simp_all add: wide_box_def box_isEmpty_def isFiniteBox_def isFiniteVec3_def
        box_getSize_def box_getCenter_def js_sub_def js_fin_small)

text \<open>
  C2 as stated fails for the sculpture viewer: with the program's field of view of 50
  degrees and its offset 1.35, a group 1000 units wide gets a camera distance outside
  [10, 280], the only range the program clamps to.
\<close>

theorem sculpture_distance_not_clamped:
  "\<not> in_range 10 280
      (s_cameraZ (sculpture_fitCameraToObject exact_math 50 wide_box (Some (Fin 1.35))))"
proof -
  let ?t = "tan (50 * (pi / 180) / 2)"
  have t: "0 < ?t" "?t < 1" using tan_fov_50 by auto
  have "500 < 500 / ?t" using t by (intro quotient_over_small_tan) auto
  then have "280 < 500 / ?t" by simp
  then have "\<not> in_range 10 280 (js_mul (js_abs (js_fin (500 / ?t))) (Fin 1.35))"
    by (rule far_distance_out_of_range)
  then show ?thesis using t
    by (simp add: sculpture_fitCameraToObject_def wide_box_size exact_math_def js_fin_small
          Let_def)
qed

text \<open>
  C2, as the code has it. The inventory viewer's \<open>fitCameraToObject\<close> leaves the camera
  alone for a bounding box that is empty or not finite or whose size or center is not
  finite, as it is when the extent of a finite box is beyond the largest double.
  Otherwise, unless the conversion of the offset throws, which ends the call before the
  camera is touched, it derives the camera distance
  from the box's largest dimension (at least 1) and the field of view, times the offset,
  and clamps it to [10, 280]: the distance lies there or is \<open>NaN\<close>, and it lies there
  whenever the offset is not 0. The sculpture viewer's \<open>fitCameraToObject\<close> derives the
  distance from the largest dimension, the field of view and the offset in the same way
  and does not clamp it.
\<close>

theorem camera_distance_derivation:
  "(box_isEmpty box \<or> \<not> isFiniteBox box \<or> \<not> isFiniteVec3 (box_getSize box) \<or>
      \<not> isFiniteVec3 (box_getCenter box)
      \<longrightarrow> fitCameraToObject pf em fov box offset = FitSkipped)
   \<and> (\<not> box_isEmpty box \<and> isFiniteBox box \<and> isFiniteVec3 (box_getSize box) \<and>
        isFiniteVec3 (box_getCenter box) \<and> \<not> number_throws offset \<longrightarrow>
        (\<exists>fit. fitCameraToObject pf em fov box offset = FitDone fit \<and>
           cameraZ fit =
             clamp (js_mul
                      (js_abs (js_div
                         (js_div (js_max (js_max (jx (box_getSize box))
                                            (js_max (jy (box_getSize box)) (jz (box_getSize box))))
                                         (Fin 1))
                                 (Fin 2))
                         (Fin (Math_tan em (fov * (Math_PI em / 180) / 2)))))
                      (Fin (asNumber pf offset 1.3))) 10 280 \<and>
           (in_range 10 280 (cameraZ fit) \<or> cameraZ fit = NaN) \<and>
           (asNumber pf offset 1.3 \<noteq> 0 \<longrightarrow> in_range 10 280 (cameraZ fit))))
   \<and> (\<not> box_isEmpty box \<and> isFiniteBox box \<and> isFiniteVec3 (box_getSize box) \<and>
        isFiniteVec3 (box_getCenter box) \<and> number_throws offset \<longrightarrow>
        fitCameraToObject pf em fov box offset = FitThrown NoPrimitive)
   \<and> s_cameraZ (sculpture_fitCameraToObject em sfov sbox soffset) =
         js_mul (js_abs (js_div
                   (js_div (js_max (jx (box_getSize sbox))
                              (js_max (jy (box_getSize sbox)) (jz (box_getSize sbox))))
                           (Fin 2))
                   (Fin (Math_tan em (sfov * (Math_PI em / 180) / 2)))))
                (case soffset of None \<Rightarrow> Fin 1.2 | Some v \<Rightarrow> v)"
proof -
  let ?m = "js_max (jx (box_getSize box)) (js_max (jy (box_getSize box)) (jz (box_getSize box)))"
  let ?z0 = "js_abs (js_div (js_div (js_max ?m (Fin 1)) (Fin 2))
                      (Fin (Math_tan em (fov * (Math_PI em / 180) / 2))))"
  let ?z1 = "js_mul ?z0 (Fin (asNumber pf offset 1.3))"
  have r: "in_range 10 280 (clamp ?z1 10 280) \<or> clamp ?z1 10 280 = NaN"
    using clamp_in_range [of ?z1] by (cases "?z1 = NaN") (simp_all add: clamp_NaN)
  have n: "in_range 10 280 (clamp ?z1 10 280)"
    if "isFiniteVec3 (box_getSize box)" "asNumber pf offset 1.3 \<noteq> 0"
  proof -
    have "is_finite ?m" using that(1) by (simp add: isFiniteVec3_def js_max_finite)
    then have "?z0 \<noteq> NaN" by (rule safe_distance_not_NaN)
    then have "?z1 \<noteq> NaN" using that(2) by (rule js_mul_NaN)
    then show ?thesis by (rule clamp_in_range)
  qed
  have a: "fitCameraToObject pf em fov box offset = FitSkipped"
    if "box_isEmpty box \<or> \<not> isFiniteBox box \<or> \<not> isFiniteVec3 (box_getSize box) \<or>
        \<not> isFiniteVec3 (box_getCenter box)"
    using that by (auto simp: fitCameraToObject_def Let_def)
  have b: "\<exists>fit. fitCameraToObject pf em fov box offset = FitDone fit \<and>
           cameraZ fit = clamp ?z1 10 280 \<and>
           (in_range 10 280 (cameraZ fit) \<or> cameraZ fit = NaN) \<and>
           (asNumber pf offset 1.3 \<noteq> 0 \<longrightarrow> in_range 10 280 (cameraZ fit))"
    if "\<not> box_isEmpty box \<and> isFiniteBox box \<and> isFiniteVec3 (box_getSize box) \<and>
        isFiniteVec3 (box_getCenter box) \<and> \<not> number_throws offset"
    using that r n by (simp add: fitCameraToObject_def Let_def)
  have c: "s_cameraZ (sculpture_fitCameraToObject em sfov sbox soffset) =
         js_mul (js_abs (js_div
                   (js_div (js_max (jx (box_getSize sbox))
                              (js_max (jy (box_getSize sbox)) (jz (box_getSize sbox))))
                           (Fin 2))
                   (Fin (Math_tan em (sfov * (Math_PI em / 180) / 2)))))
                (case soffset of None \<Rightarrow> Fin 1.2 | Some v \<Rightarrow> v)"
    by (simp add: sculpture_fitCameraToObject_def Let_def)
  have d: "fitCameraToObject pf em fov box offset = FitThrown NoPrimitive"
    if "\<not> box_isEmpty box \<and> isFiniteBox box \<and> isFiniteVec3 (box_getSize box) \<and>
        isFiniteVec3 (box_getCenter box) \<and> number_throws offset"
    using that by (simp add: fitCameraToObject_def Let_def)
  from a b c d show ?thesis by blast
qed

theorem camera_distance_derivation_witness:
  "\<not> box_isEmpty wide_box \<and> isFiniteBox wide_box \<and> isFiniteVec3 (box_getSize wide_box) \<and>
   isFiniteVec3 (box_getCenter wide_box) \<and> \<not> number_throws (Some (JNum 1.4)) \<and>
   asNumber three_platform (Some (JNum 1.4)) 1.3 \<noteq> 0 \<and>
   (\<exists>fit. fitCameraToObject three_platform exact_math 50 wide_box (Some (JNum 1.4)) = FitDone fit \<and>
      in_range 10 280 (cameraZ fit)) \<and>
   box_isEmpty empty_box \<and>
   fitCameraToObject three_platform exact_math 50 empty_box (Some (JNum 1.4)) = FitSkipped \<and>
   \<not> box_isEmpty huge_box \<and> isFiniteBox huge_box \<and> \<not> isFiniteVec3 (box_getSize huge_box) \<and>
   fitCameraToObject three_platform exact_math 50 huge_box (Some (JNum 1.4)) = FitSkipped"
proof -
  have h: "\<not> box_isEmpty wide_box" "isFiniteBox wide_box" "isFiniteVec3 (box_getSize wide_box)"
    "isFiniteVec3 (box_getCenter wide_box)" "\<not> number_throws (Some (JNum 1.4))"
    "asNumber three_platform (Some (JNum 1.4)) 1.3 \<noteq> 0"
    by (simp_all add: wide_box_size isFiniteVec3_def asNumber_def)
  have e: "box_isEmpty empty_box"
    by (simp add: box_isEmpty_def empty_box_def)
  have u: "\<not> box_isEmpty huge_box" "isFiniteBox huge_box"
    by (simp_all add: huge_box_def box_isEmpty_def isFiniteBox_def isFiniteVec3_def)
  have "js_sub (Fin (2 ^ 1023)) (Fin (- (2 ^ 1023))) = PosInf"
    using overflow_bound_reached by (simp add: js_sub_def js_fin_def)
  with u(1) have v: "\<not> isFiniteVec3 (box_getSize huge_box)"
    by (simp add: box_getSize_def isFiniteVec3_def huge_box_def)
  show ?thesis
    using h e u v
      camera_distance_derivation [of wide_box three_platform exact_math 50 "Some (JNum 1.4)"]
      camera_distance_derivation [of empty_box three_platform exact_math 50 "Some (JNum 1.4)"]
      camera_distance_derivation [of huge_box three_platform exact_math 50 "Some (JNum 1.4)"]
    by auto
qed


section \<open>Properties of the bounded concurrent runner\<close>

lemma after_call_not_Finished [simp]:
  "after_call t \<noteq> Finished" "Finished \<noteq> after_call t"
  by (cases t; simp)+

lemma runner_turn_facts:
  assumes "runner_turn worker p = (r, p')"
  shows "items p' = items p" "runners p' = runners p"
    "pool_inv p \<Longrightarrow> calls p' = [0..<index p'] \<and> index p' \<le> length (items p') \<and>
       (Finished \<in> set (runners p) \<or> r = Finished \<longrightarrow> index p' = length (items p'))"
  using assms
  by (auto simp: runner_turn_def pool_inv_def Let_def split: if_splits prod.splits task.splits)

lemma spawn_inv: "pool_inv p \<Longrightarrow> pool_inv (spawn worker p)"
  by (auto simp: spawn_def runner_turn_def pool_inv_def Let_def split: prod.splits)

lemma spawn_items [simp]: "items (spawn worker p) = items p"
  by (auto simp: spawn_def runner_turn_def Let_def split: prod.splits)

lemma spawn_length [simp]: "length (runners (spawn worker p)) = Suc (length (runners p))"
  by (auto simp: spawn_def runner_turn_def Let_def split: prod.splits)

lemma spawn_pow:
  "pool_inv p \<Longrightarrow> pool_inv ((spawn worker ^^ n) p) \<and> items ((spawn worker ^^ n) p) = items p
     \<and> length (runners ((spawn worker ^^ n) p)) = length (runners p) + n"
  by (induction n) (auto simp: spawn_inv)

lemma init_inv: "pool_inv (runWithConcurrency worker its c g)"
  unfolding runWithConcurrency_def
  by (rule spawn_pow [THEN conjunct1]) (simp add: pool_inv_def)

lemma init_items [simp]: "items (runWithConcurrency worker its c g) = its"
  unfolding runWithConcurrency_def
  using spawn_pow [where p = "\<lparr>items = its, index = 0, runners = [], calls = [], shared = g\<rparr>"
      and worker = worker]
  by (simp add: pool_inv_def)

lemma init_pool_size:
  "length (runners (runWithConcurrency worker its c g)) = safeConcurrency c (length its)"
  unfolding runWithConcurrency_def
  using spawn_pow [where p = "\<lparr>items = its, index = 0, runners = [], calls = [], shared = g\<rparr>"
      and worker = worker]
  by (simp add: pool_inv_def)

lemma set_update_Finished:
  "Finished \<in> set (xs[r := x]) \<Longrightarrow> x = Finished \<or> Finished \<in> set xs"
  using set_update_subset_insert [of xs r x] by auto

lemma step_elims:
  assumes "step worker r p = Some p'"
  obtains
    (work) c t g where "r < length (runners p)" "runners p ! r = Awaiting c"
      "continue_call worker c (shared p) = (t, g)"
      "p' = p\<lparr>shared := g, runners := (runners p)[r := after_call t]\<rparr>"
  | (turn) r' q where "r < length (runners p)" "runners p ! r = Settled True"
      "runner_turn worker p = (r', q)" "p' = q\<lparr>runners := (runners q)[r := r']\<rparr>"
  | (crash) "r < length (runners p)" "runners p ! r = Settled False"
      "p' = p\<lparr>runners := (runners p)[r := Crashed]\<rparr>"
proof -
  from assms have len: "r < length (runners p)"
    by (simp add: step_def split: if_splits)
  show ?thesis
  proof (cases "runners p ! r")
    case (Awaiting c)
    obtain t g where tg: "continue_call worker c (shared p) = (t, g)" by force
    with assms len Awaiting have "p' = p\<lparr>shared := g, runners := (runners p)[r := after_call t]\<rparr>"
      by (simp add: step_def)
    with len Awaiting tg show ?thesis by (rule work)
  next
    case (Settled b)
    show ?thesis
    proof (cases b)
      case True
      obtain r' q where rq: "runner_turn worker p = (r', q)" by force
      with assms len Settled True have "p' = q\<lparr>runners := (runners q)[r := r']\<rparr>"
        by (simp add: step_def)
      with len Settled True rq show ?thesis by (auto intro: turn)
    next
      case False
      with assms len Settled have "p' = p\<lparr>runners := (runners p)[r := Crashed]\<rparr>"
        by (simp add: step_def)
      with len Settled False show ?thesis by (auto intro: crash)
    qed
  next
    case Finished
    with assms len show ?thesis by (simp add: step_def)
  next
    case Crashed
    with assms len show ?thesis by (simp add: step_def)
  qed
qed

lemma step_inv:
  assumes "pool_inv p" "step worker r p = Some p'"
  shows "pool_inv p'"
  using assms(2)
proof (cases rule: step_elims)
  case (work c t g)
  then show ?thesis using assms(1)
    by (auto simp: pool_inv_def dest!: set_update_Finished)
next
  case (turn r' q)
  from runner_turn_facts [OF turn(3)] assms(1) turn(4) show ?thesis
    by (auto simp: pool_inv_def dest!: set_update_Finished)
next
  case crash
  then show ?thesis using assms(1)
    by (auto simp: pool_inv_def dest!: set_update_Finished)
qed

lemma step_items: "step worker r p = Some p' \<Longrightarrow> items p' = items p"
  by (erule step_elims) (auto dest: runner_turn_facts(1))

lemma step_length:
  "step worker r p = Some p' \<Longrightarrow> length (runners p') = length (runners p)"
  by (erule step_elims) (auto dest: runner_turn_facts(2))

lemma run_inv:
  "pool_inv p \<Longrightarrow> pool_inv (run worker rs p) \<and> items (run worker rs p) = items p
     \<and> length (runners (run worker rs p)) = length (runners p)"
proof (induction rs arbitrary: p)
  case Nil
  then show ?case by simp
next
  case (Cons r rs)
  show ?case
  proof (cases "step worker r p")
    case None
    then show ?thesis using Cons by simp
  next
    case (Some p')
    then show ?thesis
      using Cons.IH [of p'] Cons.prems step_inv [OF Cons.prems Some] step_items [OF Some]
        step_length [OF Some]
      by simp
  qed
qed

lemma safeConcurrency_pos: "0 < safeConcurrency c n"
  by (simp add: safeConcurrency_def)

lemma quiescent_iff_no_step: "quiescent p \<longleftrightarrow> (\<forall>r. step worker r p = None)"
proof
  assume q: "quiescent p"
  show "\<forall>r. step worker r p = None"
  proof
    fix r
    show "step worker r p = None"
    proof (cases "r < length (runners p)")
      case True
      with q have "runners p ! r = Finished \<or> runners p ! r = Crashed"
        by (simp add: quiescent_def list_all_length)
      with True show ?thesis by (auto simp: step_def)
    next
      case False
      then show ?thesis by (simp add: step_def)
    qed
  qed
next
  assume n: "\<forall>r. step worker r p = None"
  have "runners p ! r = Finished \<or> runners p ! r = Crashed" if "r < length (runners p)" for r
    using n [rule_format, of r] that
    by (auto simp: step_def Let_def split: runner.splits bool.splits prod.splits)
  then show "quiescent p" by (simp add: quiescent_def list_all_length)
qed

lemma after_call_ok:
  "t \<noteq> Rejected \<Longrightarrow> after_call t \<noteq> Crashed \<and> after_call t \<noteq> Settled False"
  by (cases t) auto

lemma runner_turn_ok:
  assumes "never_rejects worker" "runner_turn worker p = (r, q)"
  shows "r \<noteq> Crashed \<and> r \<noteq> Settled False"
proof (cases "index p < length (items p)")
  case True
  obtain t g where tg: "begin_call worker (items p ! index p) (shared p) = (t, g)" by force
  have "t \<noteq> Rejected"
    using assms(1) tg unfolding never_rejects_def by (metis fst_conv)
  with assms(2) True tg show ?thesis
    by (auto simp: runner_turn_def Let_def dest: after_call_ok)
next
  case False
  with assms(2) show ?thesis by (auto simp: runner_turn_def)
qed

lemma list_all_update: "list_all P xs \<Longrightarrow> P x \<Longrightarrow> list_all P (xs[r := x])"
  using set_update_subset_insert [of xs r x] by (auto simp: list_all_iff)

lemma spawn_no_failure:
  assumes "never_rejects worker" "no_failure p"
  shows "no_failure (spawn worker p)"
proof -
  obtain r q where rq: "runner_turn worker p = (r, q)" by force
  have "runners q = runners p" using runner_turn_facts(2) [OF rq] .
  with runner_turn_ok [OF assms(1) rq] assms(2) rq show ?thesis
    by (simp add: spawn_def no_failure_def)
qed

lemma spawn_pow_no_failure:
  "never_rejects worker \<Longrightarrow> no_failure p \<Longrightarrow> no_failure ((spawn worker ^^ n) p)"
  by (induction n) (auto simp: spawn_no_failure)

lemma init_no_failure:
  "never_rejects worker \<Longrightarrow> no_failure (runWithConcurrency worker its c g)"
  unfolding runWithConcurrency_def
  by (rule spawn_pow_no_failure) (simp_all add: no_failure_def)

lemma step_no_failure:
  assumes "never_rejects worker" "no_failure p" "step worker r p = Some p'"
  shows "no_failure p'"
  using assms(3)
proof (cases rule: step_elims)
  case (work c t g)
  have "t \<noteq> Rejected"
    using assms(1) work(3) unfolding never_rejects_def by (metis fst_conv)
  then have "after_call t \<noteq> Crashed \<and> after_call t \<noteq> Settled False"
    by (rule after_call_ok)
  with assms(2) have "list_all (\<lambda>r. r \<noteq> Crashed \<and> r \<noteq> Settled False)
                        ((runners p)[r := after_call t])"
    unfolding no_failure_def by (rule list_all_update)
  with work(4) show ?thesis by (simp add: no_failure_def)
next
  case (turn r' q)
  have same: "runners q = runners p" using runner_turn_facts(2) [OF turn(3)] .
  have "list_all (\<lambda>r. r \<noteq> Crashed \<and> r \<noteq> Settled False) ((runners p)[r := r'])"
    using assms(2) runner_turn_ok [OF assms(1) turn(3)]
    unfolding no_failure_def by (rule list_all_update)
  with turn(4) same show ?thesis by (simp add: no_failure_def)
next
  case crash
  with assms(2) show ?thesis
    by (auto simp: no_failure_def list_all_length)
qed

lemma run_no_failure:
  "never_rejects worker \<Longrightarrow> no_failure p \<Longrightarrow> no_failure (run worker rs p)"
proof (induction rs arbitrary: p)
  case Nil
  then show ?case by simp
next
  case (Cons r rs)
  then show ?case
    by (cases "step worker r p") (auto dest: step_no_failure)
qed

lemma quiescent_no_failure_resolved: "quiescent p \<Longrightarrow> no_failure p \<Longrightarrow> resolved p"
  by (auto simp: quiescent_def no_failure_def resolved_def list_all_iff)

lemma resolved_all_called:
  assumes "pool_inv p" "resolved p" "runners p \<noteq> []"
  shows "calls p = [0..<length (items p)]"
proof -
  from assms(2,3) have "Finished \<in> set (runners p)"
    by (cases "runners p") (auto simp: resolved_def)
  with assms(1) show ?thesis by (simp add: pool_inv_def)
qed

lemma run_runners_nonempty: "runners (run worker rs (runWithConcurrency worker its c g)) \<noteq> []"
proof -
  have "length (runners (run worker rs (runWithConcurrency worker its c g)))
        = safeConcurrency c (length its)"
    using run_inv [OF init_inv, of worker rs worker its c g] by (simp add: init_pool_size)
  then show ?thesis using safeConcurrency_pos [of c "length its"] by auto
qed

text \<open>
  C1, as the code has it. Whatever the worker, the limit and the order in which the
  runners continue: the calls of the worker made so far are the calls on the items
  0, 1, ..., \<open>index - 1\<close>, one each and in this order; once every runner has finished (the
  promise of \<open>runWithConcurrency\<close> is fulfilled) the worker has been called exactly once
  on each item of the list; a worker that never rejects never ends a runner, so that a run
  that has come to rest is fulfilled; and for an empty list the promise is fulfilled with
  no call of the worker.
\<close>

theorem runWithConcurrency_each_item_once:
  "calls (run worker rs (runWithConcurrency worker its c g))
     = [0..<index (run worker rs (runWithConcurrency worker its c g))]
   \<and> index (run worker rs (runWithConcurrency worker its c g)) \<le> length its
   \<and> (resolved (run worker rs (runWithConcurrency worker its c g)) \<longrightarrow>
        calls (run worker rs (runWithConcurrency worker its c g)) = [0..<length its] \<and>
        map ((!) its) (calls (run worker rs (runWithConcurrency worker its c g))) = its)
   \<and> (never_rejects worker \<longrightarrow>
        no_failure (run worker rs (runWithConcurrency worker its c g)) \<and>
        (quiescent (run worker rs (runWithConcurrency worker its c g)) \<longrightarrow>
           resolved (run worker rs (runWithConcurrency worker its c g))))
   \<and> (its = [] \<longrightarrow>
        resolved (runWithConcurrency worker its c g) \<and>
        calls (runWithConcurrency worker its c g) = [])"
proof -
  let ?p = "run worker rs (runWithConcurrency worker its c g)"
  have inv: "pool_inv ?p" and it: "items ?p = its"
    using run_inv [OF init_inv, of worker rs worker its c g] by simp_all
  have a: "calls ?p = [0..<index ?p]" "index ?p \<le> length its"
    using inv it by (simp_all add: pool_inv_def)
  have b: "calls ?p = [0..<length its] \<and> map ((!) its) (calls ?p) = its" if "resolved ?p"
    using resolved_all_called [OF inv that run_runners_nonempty] it by (simp add: map_nth)
  have c: "no_failure ?p \<and> (quiescent ?p \<longrightarrow> resolved ?p)" if "never_rejects worker"
    using run_no_failure [OF that init_no_failure [OF that]]
    by (auto intro: quiescent_no_failure_resolved)
  have d: "resolved (runWithConcurrency worker its c g) \<and>
           calls (runWithConcurrency worker its c g) = []" if "its = []"
  proof -
    have "safeConcurrency c 0 = Suc 0" by (simp add: safeConcurrency_def)
    then show ?thesis using that
      by (simp add: runWithConcurrency_def spawn_def runner_turn_def resolved_def)
  qed
  from a b c d show ?thesis by blast
qed

lemma in_flight_le: "in_flight p \<le> length (runners p)"
  by (simp add: in_flight_def)

lemma safeConcurrency_eq: "safeConcurrency c n = nat (max 1 (min c (int n)))"
  by (auto simp: safeConcurrency_def max_def min_def)

theorem runWithConcurrency_each_item_once_witness:
  "never_rejects pausing_worker
   \<and> resolved (run pausing_worker [0, 0, 1, 1, 0, 0]
                 (runWithConcurrency pausing_worker [10, 20, 30] 2 []))
   \<and> quiescent (run pausing_worker [0, 0, 1, 1, 0, 0]
                 (runWithConcurrency pausing_worker [10, 20, 30] 2 []))
   \<and> calls (run pausing_worker [0, 0, 1, 1, 0, 0]
                 (runWithConcurrency pausing_worker [10, 20, 30] 2 [])) = [0..<length [10, 20, 30 :: nat]]
   \<and> map ((!) [10, 20, 30 :: nat])
         (calls (run pausing_worker [0, 0, 1, 1, 0, 0]
                 (runWithConcurrency pausing_worker [10, 20, 30] 2 []))) = [10, 20, 30]
   \<and> shared (run pausing_worker [0, 0, 1, 1, 0, 0]
                 (runWithConcurrency pausing_worker [10, 20, 30] 2 [])) = [10, 20, 30]
   \<and> resolved (runWithConcurrency pausing_worker [] 2 [])
   \<and> calls (runWithConcurrency pausing_worker [] 2 []) = []"
proof -
  have n: "never_rejects pausing_worker"
    by (simp add: never_rejects_def pausing_worker_def)
  have r: "resolved (run pausing_worker [0, 0, 1, 1, 0, 0]
                 (runWithConcurrency pausing_worker [10, 20, 30] 2 []))"
    by code_simp
  have q: "quiescent (run pausing_worker [0, 0, 1, 1, 0, 0]
                 (runWithConcurrency pausing_worker [10, 20, 30] 2 []))"
    by code_simp
  have g: "shared (run pausing_worker [0, 0, 1, 1, 0, 0]
                 (runWithConcurrency pausing_worker [10, 20, 30] 2 [])) = [10, 20, 30]"
    by code_simp
  have e: "([] :: nat list) = []" by simp
  from runWithConcurrency_each_item_once [of pausing_worker "[0, 0, 1, 1, 0, 0]"
        "[10, 20, 30]" 2 "[]"] r
  have a: "calls (run pausing_worker [0, 0, 1, 1, 0, 0]
                 (runWithConcurrency pausing_worker [10, 20, 30] 2 [])) = [0..<length [10, 20, 30 :: nat]]
     \<and> map ((!) [10, 20, 30 :: nat])
         (calls (run pausing_worker [0, 0, 1, 1, 0, 0]
                 (runWithConcurrency pausing_worker [10, 20, 30] 2 []))) = [10, 20, 30]"
    by blast
  from runWithConcurrency_each_item_once [of pausing_worker "[]" "[]" 2 "[]"] e
  have b: "resolved (runWithConcurrency pausing_worker [] 2 [])
     \<and> calls (runWithConcurrency pausing_worker [] 2 []) = []"
    by blast
  from n r q g a b show ?thesis by blast
qed

text \<open>
  C8, as the code has it. The pool has \<open>max(1, min(concurrency, items.length))\<close> runners;
  at any moment at most that many calls of the worker are in flight, hence at most
  \<open>max(1, concurrency)\<close>; and a runner takes the next item only when the promise of its
  previous call has been fulfilled.
\<close>

theorem runWithConcurrency_in_flight_bound:
  "length (runners (run worker rs (runWithConcurrency worker its c g)))
     = nat (max 1 (min c (int (length its))))
   \<and> in_flight (run worker rs (runWithConcurrency worker its c g))
       \<le> nat (max 1 (min c (int (length its))))
   \<and> int (in_flight (run worker rs (runWithConcurrency worker its c g))) \<le> max 1 c
   \<and> (\<forall>r p'. step worker r (run worker rs (runWithConcurrency worker its c g)) = Some p' \<and>
               index p' \<noteq> index (run worker rs (runWithConcurrency worker its c g))
        \<longrightarrow> runners (run worker rs (runWithConcurrency worker its c g)) ! r = Settled True)"
proof -
  let ?p = "run worker rs (runWithConcurrency worker its c g)"
  have len: "length (runners ?p) = nat (max 1 (min c (int (length its))))"
    using run_inv [OF init_inv, of worker rs worker its c g]
    by (simp add: init_pool_size safeConcurrency_eq)
  have fl: "in_flight ?p \<le> nat (max 1 (min c (int (length its))))"
    using in_flight_le [of ?p] len by simp
  have st: "runners ?p ! r = Settled True"
    if "step worker r ?p = Some p'" "index p' \<noteq> index ?p" for r p'
    using that by (cases rule: step_elims) auto
  from len fl st show ?thesis by auto
qed

theorem runWithConcurrency_in_flight_bound_witness:
  "length (runners (run pausing_worker [0] (runWithConcurrency pausing_worker [10, 20, 30] 2 [])))
     = nat (max 1 (min 2 (int (length [10, 20, 30 :: nat]))))
   \<and> map_option index
        (step pausing_worker 0
           (run pausing_worker [0] (runWithConcurrency pausing_worker [10, 20, 30] 2 [])))
       = Some 3
   \<and> index (run pausing_worker [0] (runWithConcurrency pausing_worker [10, 20, 30] 2 [])) = 2
   \<and> runners (run pausing_worker [0] (runWithConcurrency pausing_worker [10, 20, 30] 2 [])) ! 0
       = Settled True
   \<and> in_flight (run pausing_worker [0] (runWithConcurrency pausing_worker [10, 20, 30] 2 []))
       = 1"
proof -
  let ?p = "run pausing_worker [0] (runWithConcurrency pausing_worker [10, 20, 30] 2 [])"
  have s: "map_option index (step pausing_worker 0 ?p) = Some 3"
    by code_simp
  have i: "index ?p = 2" by code_simp
  have f: "in_flight ?p = 1" by code_simp
  from s obtain p' where p': "step pausing_worker 0 ?p = Some p'" "index p' = 3"
    by auto
  with i have h: "step pausing_worker 0 ?p = Some p' \<and> index p' \<noteq> index ?p" by simp
  from runWithConcurrency_in_flight_bound [of pausing_worker "[0]" "[10, 20, 30]" 2 "[]"] h
  have "length (runners ?p) = nat (max 1 (min 2 (int (length [10, 20, 30 :: nat]))))
        \<and> runners ?p ! 0 = Settled True"
    by blast
  with s i f show ?thesis by blast
qed

text \<open>
  C8 as stated fails for a limit below 1: with \<open>concurrency = 0\<close> and one item, one call
  of the worker is in flight.
\<close>

theorem in_flight_exceeds_zero_limit:
  "\<not> int (in_flight (runWithConcurrency pausing_worker [10] 0 [])) \<le> 0"
  by (simp add: runWithConcurrency_def safeConcurrency_def spawn_def runner_turn_def
        pausing_worker_def in_flight_def)

text \<open>
  C1 as stated fails for a worker that rejects: with limit 1 and two items, the only
  runner is ended by the rejection of the first call and the second item is never passed
  to the worker.
\<close>

theorem rejecting_worker_skips_items:
  "runners (run rejecting_worker [0] (runWithConcurrency rejecting_worker [10, 20] 1 ()))
     = [Crashed]
   \<and> quiescent (run rejecting_worker [0] (runWithConcurrency rejecting_worker [10, 20] 1 ()))
   \<and> calls (run rejecting_worker [0] (runWithConcurrency rejecting_worker [10, 20] 1 ())) = [0]
   \<and> map ((!) [10, 20])
        (calls (run rejecting_worker [0] (runWithConcurrency rejecting_worker [10, 20] 1 ())))
      \<noteq> [10, 20]"
  by (simp add: runWithConcurrency_def safeConcurrency_def spawn_def runner_turn_def
        rejecting_worker_def step_def quiescent_def)


section \<open>Properties of the sculpture viewer\<close>

lemma getMaterial_group [simp]: "group (snd (getMaterial i cb s)) = group s"
  by (simp add: getMaterial_def Let_def split: option.splits)

lemma makePlane_sample: "is_sample l \<Longrightarrow> makePlane l s = s"
  by (simp add: makePlane_def)

lemma makePlane_other:
  assumes "\<not> is_sample l"
  shows "group (makePlane l s) =
           group s @
             [\<lparr>mesh_material = fst (getMaterial (layer_id l) (length (group s)) s),
               mesh_is_back = False, mesh_plane = (1, 1),
               mesh_position = xyz_or (layer_position l) (xyz_object 0),
               mesh_rotation = xyz_or (layer_rotation l) (xyz_object 0),
               mesh_scale = xyz_or (layer_scale l) (xyz_object 1)\<rparr>,
              \<lparr>mesh_material = fst (getMaterial (layer_id l) (length (group s)) s),
               mesh_is_back = True, mesh_plane = (1, 1),
               mesh_position = xyz_or (layer_position l) (xyz_object 0),
               mesh_rotation = xyz_or (layer_rotation l) (xyz_object 0),
               mesh_scale = xyz_or (layer_scale l) (xyz_object 1)\<rparr>]"
proof -
  obtain m s1 where g: "getMaterial (layer_id l) (length (group s)) s = (m, s1)" by force
  have "group s1 = group s" using getMaterial_group [of "layer_id l" "length (group s)" s] g by simp
  with assms g show ?thesis by (simp add: makePlane_def)
qed

lemma make_planes_length:
  "length (group (make_planes layers s)) =
     length (group s) + 2 * length (filter (\<lambda>l. \<not> is_sample l) layers)"
  unfolding make_planes_def
proof (induction layers arbitrary: s)
  case Nil
  then show ?case by simp
next
  case (Cons l ls)
  show ?case
  proof (cases "is_sample l")
    case True
    then show ?thesis using Cons [of s] by (simp add: makePlane_sample)
  next
    case False
    then show ?thesis using Cons [of "makePlane l s"] makePlane_other [OF False, of s] by simp
  qed
qed

lemma renderSummary_all:
  assumes "has_summary pg" "has_card_template pg"
  shows "renderSummary pg id_text layers base =
           Some (map (\<lambda>l. \<lparr>card_layer_id = id_text (layer_id l),
                            card_thumb_src = base @ id_text (layer_id l) @ ''.png''\<rparr>) layers)"
  using assms by (simp add: renderSummary_def addCard_def List.map_filter_def comp_def)

text \<open>
  C10. A layer whose role is \<open>"sample"\<close> leaves the sculpture viewer's state as it is:
  \<open>makePlane\<close> returns before it asks for a material or adds a mesh. Every other layer
  adds exactly two meshes to the group, a front plane and its back plane, so that the
  group grows by twice the number of layers that are not samples. Where the page has
  the summary element and the card template, every layer, sample or not, has its card,
  in the order of the layers; where it has the statistics element, the number shown is
  the number of all layers.
\<close>

theorem sample_layers_have_cards_but_no_meshes:
  "(is_sample l \<longrightarrow> makePlane l s = s)
   \<and> (\<not> is_sample l' \<longrightarrow>
        (\<exists>front. group (makePlane l' s) = group s @ [front, front\<lparr>mesh_is_back := True\<rparr>] \<and>
                 \<not> mesh_is_back front))
   \<and> length (group (make_planes layers s)) =
        length (group s) + 2 * length (filter (\<lambda>l. \<not> is_sample l) layers)
   \<and> (has_summary pg \<and> has_card_template pg \<longrightarrow>
        renderSummary pg id_text layers base =
          Some (map (\<lambda>l. \<lparr>card_layer_id = id_text (layer_id l),
                           card_thumb_src = base @ id_text (layer_id l) @ ''.png''\<rparr>) layers))
   \<and> (has_stat_layers pg \<longrightarrow> updateStats pg layers = Some (length layers))"
proof -
  have two: "\<exists>front. group (makePlane l' s) = group s @ [front, front\<lparr>mesh_is_back := True\<rparr>] \<and>
                 \<not> mesh_is_back front" if "\<not> is_sample l'"
    using makePlane_other [OF that, of s]
    by (intro exI [where x = "\<lparr>mesh_material = fst (getMaterial (layer_id l') (length (group s)) s),
               mesh_is_back = False, mesh_plane = (1, 1),
               mesh_position = xyz_or (layer_position l') (xyz_object 0),
               mesh_rotation = xyz_or (layer_rotation l') (xyz_object 0),
               mesh_scale = xyz_or (layer_scale l') (xyz_object 1)\<rparr>"]) simp
  show ?thesis
    using two by (simp add: makePlane_sample make_planes_length renderSummary_all updateStats_def)
qed

theorem sample_layers_have_cards_but_no_meshes_witness:
  "is_sample (demo_layers ! 0) \<and> \<not> is_sample (demo_layers ! 1)
   \<and> makePlane (demo_layers ! 0) (empty_sculpture :: string sculpture) = empty_sculpture
   \<and> length (group (makePlane (demo_layers ! 1) (empty_sculpture :: string sculpture))) = 2
   \<and> length (group (make_planes demo_layers (empty_sculpture :: string sculpture))) = 2
   \<and> has_summary full_page \<and> has_card_template full_page \<and> has_stat_layers full_page
   \<and> renderSummary full_page id demo_layers ''art/'' =
        Some [\<lparr>card_layer_id = ''a'', card_thumb_src = ''art/a.png''\<rparr>,
              \<lparr>card_layer_id = ''b'', card_thumb_src = ''art/b.png''\<rparr>]
   \<and> updateStats full_page demo_layers = Some 2"
proof -
  have h: "is_sample (demo_layers ! 0)" "\<not> is_sample (demo_layers ! 1)"
    "has_summary full_page" "has_card_template full_page" "has_stat_layers full_page"
    by (simp_all add: demo_layers_def is_sample_def full_page_def)
  have n: "length (filter (\<lambda>l. \<not> is_sample l) demo_layers) = 1"
    by (simp add: demo_layers_def is_sample_def)
  have g: "group (empty_sculpture :: string sculpture) = []" by (simp add: empty_sculpture_def)
  have k: "length demo_layers = 2" by (simp add: demo_layers_def)
  have m: "map (\<lambda>l. \<lparr>card_layer_id = id (layer_id l),
                      card_thumb_src = ''art/'' @ id (layer_id l) @ ''.png''\<rparr>) demo_layers
           = [\<lparr>card_layer_id = ''a'', card_thumb_src = ''art/a.png''\<rparr>,
              \<lparr>card_layer_id = ''b'', card_thumb_src = ''art/b.png''\<rparr>]"
    by (simp add: demo_layers_def)
  from sample_layers_have_cards_but_no_meshes
         [of "demo_layers ! 0" "empty_sculpture :: string sculpture" "demo_layers ! 1"
             demo_layers full_page id "''art/''"] h n g m k
  show ?thesis by auto
qed

lemma getMaterial_cache:
  assumes "getMaterial i cb s = (m, s1)"
  shows "matCache s \<subseteq>\<^sub>m matCache s1" "matCache s1 i = Some m"
  using assms
  by (auto simp: getMaterial_def Let_def map_le_def split: option.splits)

lemma getMaterial_hit:
  assumes "matCache s i = Some m"
  shows "fst (getMaterial i cb s) = m" "matCache (snd (getMaterial i cb s)) = matCache s"
    "requests (snd (getMaterial i cb s)) = requests s"
  using assms by (auto simp: getMaterial_def split: option.splits)

lemma makePlane_cache: "matCache s \<subseteq>\<^sub>m matCache (makePlane l s)"
proof (cases "is_sample l")
  case True
  then show ?thesis by (simp add: makePlane_def)
next
  case False
  obtain m s1 where g: "getMaterial (layer_id l) (length (group s)) s = (m, s1)" by force
  with False getMaterial_cache(1) [OF g] show ?thesis by (simp add: makePlane_def)
qed

lemma sculpture_apply_cache: "matCache s \<subseteq>\<^sub>m matCache (sculpture_apply s x)"
  by (cases x) (simp_all add: makePlane_cache texture_loaded_def texture_failed_def Let_def)

lemma sculpture_run_cache: "matCache s \<subseteq>\<^sub>m matCache (foldl sculpture_apply s ops)"
proof (induction ops arbitrary: s)
  case Nil
  then show ?case by simp
next
  case (Cons x xs)
  show ?case using sculpture_apply_cache [of s x] Cons [of "sculpture_apply s x"]
    by (auto intro: map_le_trans)
qed


section \<open>Properties of the loaders and of \<open>handleAsset\<close>\<close>

lemma loadTextureByFile_cache:
  assumes "loadTextureByFile f l = (p, l1)"
  shows "texturePromiseCache l \<subseteq>\<^sub>m texturePromiseCache l1"
    "texturePromiseCache l1 (key_of f) = Some p"
    "modelTemplateCache l1 = modelTemplateCache l"
  using assms
  by (auto simp: loadTextureByFile_def Let_def map_le_def split: option.splits if_splits)

lemma loadModelTemplate_cache:
  assumes "loadModelTemplate f l = (p, l1)"
  shows "modelTemplateCache l \<subseteq>\<^sub>m modelTemplateCache l1"
    "modelTemplateCache l1 (key_of f) = Some p"
    "texturePromiseCache l1 = texturePromiseCache l"
  using assms
  by (auto simp: loadModelTemplate_def Let_def map_le_def split: option.splits if_splits)

lemma loadTextureByFile_hit:
  "texturePromiseCache l (key_of f) = Some p \<Longrightarrow> loadTextureByFile f l = (p, l)"
  by (simp add: loadTextureByFile_def)

lemma loadModelTemplate_hit:
  "modelTemplateCache l (key_of f) = Some p \<Longrightarrow> loadModelTemplate f l = (p, l)"
  by (simp add: loadModelTemplate_def)

lemma cache_matches_miss:
  assumes "cache_matches cache reqs" "cache f = None"
  shows "cache_matches (cache(f \<mapsto> Requested (length reqs))) (reqs @ [f])"
proof -
  from assms have d: "distinct reqs"
    and c: "\<And>g n. cache g = Some (Requested n) \<longleftrightarrow> n < length reqs \<and> reqs ! n = g"
    and u: "\<And>g k. cache g = Some (Unrequested k) \<Longrightarrow> k = g"
    by (auto simp: cache_matches_def)
  have notin: "f \<notin> set reqs"
  proof
    assume "f \<in> set reqs"
    then obtain n where "n < length reqs" "reqs ! n = f" by (auto simp: in_set_conv_nth)
    then have "cache f = Some (Requested n)" using c by simp
    with assms(2) show False by simp
  qed
  have r: "(cache(f \<mapsto> Requested (length reqs))) g = Some (Requested n) \<longleftrightarrow>
          n < length (reqs @ [f]) \<and> (reqs @ [f]) ! n = g" for g n
  proof (cases "n < length reqs")
    case True
    then show ?thesis using c [of g n] notin by (auto simp: nth_append)
  next
    case False
    then show ?thesis using c [of g n] by (auto simp: nth_append)
  qed
  have k: "k = g" if "(cache(f \<mapsto> Requested (length reqs))) g = Some (Unrequested k)"
    for g k using that u [of g k] by (auto split: if_splits)
  have "distinct (reqs @ [f])" using d notin by simp
  then show ?thesis unfolding cache_matches_def using r k by blast
qed

lemma cache_matches_unrequested:
  assumes "cache_matches cache reqs" "cache f = None"
  shows "cache_matches (cache(f \<mapsto> Unrequested f)) reqs"
proof -
  from assms have d: "distinct reqs"
    and c: "\<And>g n. cache g = Some (Requested n) \<longleftrightarrow> n < length reqs \<and> reqs ! n = g"
    and u: "\<And>g k. cache g = Some (Unrequested k) \<Longrightarrow> k = g"
    by (auto simp: cache_matches_def)
  have r: "(cache(f \<mapsto> Unrequested f)) g = Some (Requested n) \<longleftrightarrow>
          n < length reqs \<and> reqs ! n = g" for g n
    using c [of g n] assms(2) by auto
  have k: "k = g" if "(cache(f \<mapsto> Unrequested f)) g = Some (Unrequested k)"
    for g k using that u [of g k] by (auto split: if_splits)
  show ?thesis unfolding cache_matches_def using d r k by blast
qed

lemma loadTextureByFile_consistent:
  assumes "loaders_consistent l" "loadTextureByFile f l = (p, l1)"
  shows "loaders_consistent l1"
proof (cases "texturePromiseCache l (key_of f)")
  case None
  show ?thesis
  proof (cases "conversion_throws (snd f)")
    case True
    with None assms(2) have "l1 = l\<lparr>texturePromiseCache :=
        (texturePromiseCache l)(key_of f \<mapsto> Unrequested (key_of f))\<rparr>"
      by (auto simp: loadTextureByFile_def)
    with assms(1) cache_matches_unrequested [of "texturePromiseCache l" "texture_requests l" "key_of f"]
      None
    show ?thesis by (simp add: loaders_consistent_def)
  next
    case False
    with None assms(2) have "l1 = l\<lparr>texture_requests := texture_requests l @ [key_of f],
        texturePromiseCache :=
          (texturePromiseCache l)(key_of f \<mapsto> Requested (length (texture_requests l)))\<rparr>"
      by (auto simp: loadTextureByFile_def Let_def)
    with assms(1) cache_matches_miss [of "texturePromiseCache l" "texture_requests l" "key_of f"]
      None
    show ?thesis by (simp add: loaders_consistent_def)
  qed
next
  case (Some q)
  with assms show ?thesis by (simp add: loadTextureByFile_def)
qed

lemma loadModelTemplate_consistent:
  assumes "loaders_consistent l" "loadModelTemplate f l = (p, l1)"
  shows "loaders_consistent l1"
proof (cases "modelTemplateCache l (key_of f)")
  case None
  show ?thesis
  proof (cases "conversion_throws (snd f)")
    case True
    with None assms(2) have "l1 = l\<lparr>modelTemplateCache :=
        (modelTemplateCache l)(key_of f \<mapsto> Unrequested (key_of f))\<rparr>"
      by (auto simp: loadModelTemplate_def)
    with assms(1) cache_matches_unrequested [of "modelTemplateCache l" "model_requests l" "key_of f"]
      None
    show ?thesis by (simp add: loaders_consistent_def)
  next
    case False
    with None assms(2) have "l1 = l\<lparr>model_requests := model_requests l @ [key_of f],
        modelTemplateCache :=
          (modelTemplateCache l)(key_of f \<mapsto> Requested (length (model_requests l)))\<rparr>"
      by (auto simp: loadModelTemplate_def Let_def)
    with assms(1) cache_matches_miss [of "modelTemplateCache l" "model_requests l" "key_of f"]
      None
    show ?thesis by (simp add: loaders_consistent_def)
  qed
next
  case (Some q)
  with assms show ?thesis by (simp add: loadModelTemplate_def)
qed

lemma applyTransform_holder [simp]:
  "holder_kind (applyTransform pf cfg h t) = holder_kind h"
  "userData_asset (applyTransform pf cfg h t) = userData_asset h"
  "userData_error (applyTransform pf cfg h t) = userData_error h"
  by (simp_all add: applyTransform_def Let_def)

lemma applyTransform_call_cases:
  "(applyTransform_throws t \<and> applyTransform_call pf cfg h t = Inl NoPrimitive) \<or>
   (\<not> applyTransform_throws t \<and>
      applyTransform_call pf cfg h t = Inr (applyTransform pf cfg h t))"
  by (simp add: applyTransform_call_def)

lemma null_transform_plain [simp]: "\<not> applyTransform_throws (Some JNull)"
  by (simp add: applyTransform_throws_def getVector3_throws_def)

lemma transform_or_null_plain:
  "plain_transform a \<Longrightarrow> \<not> applyTransform_throws (transform_or_null a)"
  by (simp add: plain_transform_def transform_or_null_def)

lemma addFallbackPlane_cases:
  "(applyTransform_throws (transform_or_null a) \<and>
      addFallbackPlane pf cfg a reason g = Inl NoPrimitive) \<or>
   (\<not> applyTransform_throws (transform_or_null a) \<and>
      addFallbackPlane pf cfg a reason g =
        Inr (g\<lparr>world := world g @ [fallback_holder pf cfg a reason]\<rparr>))"
  by (simp add: addFallbackPlane_def applyTransform_call_def fallback_holder_def)

lemma fallback_holder_facts:
  "is_fallback (fallback_holder pf cfg a reason)"
  "holder_kind (fallback_holder pf cfg a reason) = FallbackPlane"
  "userData_error (fallback_holder pf cfg a reason) =
     Some (if reason = [] then ''load_error'' else reason)"
  "userData_asset (fallback_holder pf cfg a reason) = (if truthy a then a else JNull)"
  by (simp_all add: fallback_holder_def is_fallback_def new_holder_def)

lemma handleAsset_finally_facts:
  assumes "handleAsset_finally failed g = (t, g')"
  shows "t = (if failed then Rejected else Returned) \<or> t = Suspended (AwaitNextFrame failed)"
    "totals_loaded g' = totals_loaded g + 1" "totals_ok g' = totals_ok g"
    "totals_fallback g' = totals_fallback g" "totals_total g' = totals_total g"
    "world g' = world g" "loaders g' = loaders g"
  using assms by (auto simp: handleAsset_finally_def Let_def split: if_splits)

lemma addAsset_begin_facts:
  assumes "addAsset_begin pf a g = (c, g')"
  shows "\<forall>b. c \<noteq> AwaitNextFrame b" "c \<noteq> AwaitFulfilment"
    "totals_loaded g' = totals_loaded g" "totals_ok g' = totals_ok g"
    "totals_fallback g' = totals_fallback g" "totals_total g' = totals_total g"
    "world g' = world g"
    "loaders_consistent (loaders g) \<Longrightarrow> loaders_consistent (loaders g')"
    "plain_transform (snd a) \<Longrightarrow> calm c"
  using assms
  by (auto simp: addAsset_begin_def Let_def split: if_splits prod.splits option.splits
      dest: loadTextureByFile_consistent loadModelTemplate_consistent)

lemma handleAsset_begin_facts:
  assumes "handleAsset_begin pf a g = (t, g')"
  shows "\<exists>c. t = Suspended c \<and> (\<forall>b. c \<noteq> AwaitNextFrame b) \<and> c \<noteq> AwaitFulfilment \<and>
              (plain_transform (snd a) \<longrightarrow> calm c)"
    "totals_loaded g' = totals_loaded g" "viewer_inv n g \<Longrightarrow> viewer_inv n g'"
    "world g' = world g" "totals_fallback g' = totals_fallback g"
proof -
  obtain c where c: "addAsset_begin pf a g = (c, g')" "t = Suspended c"
    using assms by (auto simp: handleAsset_begin_def split: prod.splits)
  show "\<exists>c. t = Suspended c \<and> (\<forall>b. c \<noteq> AwaitNextFrame b) \<and> c \<noteq> AwaitFulfilment \<and>
              (plain_transform (snd a) \<longrightarrow> calm c)"
    using c addAsset_begin_facts(1,2,9) [OF c(1)] by simp
  show "totals_loaded g' = totals_loaded g" using addAsset_begin_facts(3) [OF c(1)] .
  show "viewer_inv n g'" if "viewer_inv n g"
    using that addAsset_begin_facts [OF c(1)] by (simp add: viewer_inv_def)
  show "world g' = world g" using addAsset_begin_facts(7) [OF c(1)] .
  show "totals_fallback g' = totals_fallback g" using addAsset_begin_facts(5) [OF c(1)] .
qed

lemma viewer_inv_finally:
  assumes "handleAsset_finally failed g = (t, g')"
    "totals_ok g + totals_fallback g = totals_loaded g + 1" "totals_total g = n"
    "list_all (\<lambda>h. is_fallback h \<or> userData_error h = None) (world g)"
    "loaders_consistent (loaders g)"
  shows "viewer_inv n g'"
  using handleAsset_finally_facts [OF assms(1)] assms(2-) by (simp add: viewer_inv_def)

lemma handleAsset_continue_inv:
  assumes "handleAsset_continue pf cfg net c g = (t, g')" "viewer_inv n g"
  shows "viewer_inv n g'"
proof (cases c)
  case (AwaitTexture a p)
  with assms applyTransform_call_cases [of "get_member a ''transform''" pf cfg
      "new_holder (ImageLayer p) a None"]
  show ?thesis
    by (auto simp: viewer_inv_def is_fallback_def new_holder_def split: sum.splits)
next
  case (AwaitModel a p)
  with assms applyTransform_call_cases [of "get_member a ''transform''" pf cfg
      "new_holder (ModelInstance p) a None"]
  show ?thesis
    by (auto simp: viewer_inv_def is_fallback_def new_holder_def Let_def split: sum.splits)
next
  case (AwaitRejection a err)
  let ?g1 = "g\<lparr>totals_fallback := totals_fallback g + 1\<rparr>"
  from addFallbackPlane_cases [of a pf cfg "failure_reason err" ?g1] show ?thesis
  proof (elim disjE conjE)
    assume "addFallbackPlane pf cfg a (failure_reason err) ?g1 = Inl NoPrimitive"
    with AwaitRejection assms(1) have f: "handleAsset_finally True ?g1 = (t, g')"
      by (simp add: Let_def)
    show ?thesis using assms(2)
      by (intro viewer_inv_finally [OF f]) (simp_all add: viewer_inv_def)
  next
    let ?g2 = "?g1\<lparr>world := world ?g1 @ [fallback_holder pf cfg a (failure_reason err)]\<rparr>"
    assume "addFallbackPlane pf cfg a (failure_reason err) ?g1 = Inr ?g2"
    with AwaitRejection assms(1) have f: "handleAsset_finally False ?g2 = (t, g')"
      by (simp add: Let_def)
    show ?thesis using assms(2)
      by (intro viewer_inv_finally [OF f]) (simp_all add: viewer_inv_def fallback_holder_facts)
  qed
next
  case AwaitFulfilment
  with assms(1) have f: "handleAsset_finally False (g\<lparr>totals_ok := totals_ok g + 1\<rparr>) = (t, g')"
    by simp
  show ?thesis using assms(2) by (intro viewer_inv_finally [OF f]) (simp_all add: viewer_inv_def)
next
  case (AwaitNextFrame b)
  with assms show ?thesis by simp
qed

lemma rejection_stretch_cases:
  assumes "handleAsset_continue pf cfg net (AwaitRejection a err) g = (t, g')"
  shows "(applyTransform_throws (transform_or_null a) \<and>
            handleAsset_finally True (g\<lparr>totals_fallback := totals_fallback g + 1\<rparr>) = (t, g')) \<or>
         (\<not> applyTransform_throws (transform_or_null a) \<and>
            handleAsset_finally False
              (g\<lparr>totals_fallback := totals_fallback g + 1,
                 world := world g @ [fallback_holder pf cfg a (failure_reason err)]\<rparr>) = (t, g'))"
  using assms addFallbackPlane_cases [of a pf cfg "failure_reason err"
      "g\<lparr>totals_fallback := totals_fallback g + 1\<rparr>"]
  by (auto simp: Let_def)

lemma handleAsset_continue_count:
  assumes "handleAsset_continue pf cfg net c g = (t, g')"
  shows "totals_loaded g' + uncounted (after_call t) = totals_loaded g + uncounted (Awaiting c)"
proof (cases c)
  case (AwaitTexture a p)
  with assms show ?thesis by (auto split: sum.splits)
next
  case (AwaitModel a p)
  with assms show ?thesis by (auto simp: Let_def split: sum.splits)
next
  case (AwaitRejection a err)
  from rejection_stretch_cases [of pf cfg net a err g t g'] AwaitRejection assms
  obtain b g1 where f: "handleAsset_finally b g1 = (t, g')" "totals_loaded g1 = totals_loaded g"
    by auto
  from handleAsset_finally_facts(1,2) [OF f(1)] f(2) AwaitRejection show ?thesis by auto
next
  case AwaitFulfilment
  with assms handleAsset_finally_facts(1,2) [of False "g\<lparr>totals_ok := totals_ok g + 1\<rparr>" t g']
  show ?thesis by auto
next
  case (AwaitNextFrame b)
  with assms show ?thesis by (auto split: if_splits)
qed

text \<open>A call that works on an asset with a plain transform is never rejected, and its
  \<open>catch\<close> branch adds the one fallback plane that it counts.\<close>

lemma handleAsset_continue_calm:
  assumes "handleAsset_continue pf cfg net c g = (t, g')" "calm c"
  shows "calm_runner (after_call t)"
    "length (filter is_fallback (world g)) = totals_fallback g \<Longrightarrow>
       length (filter is_fallback (world g')) = totals_fallback g'"
proof -
  have "calm_runner (after_call t) \<and>
        (length (filter is_fallback (world g)) = totals_fallback g \<longrightarrow>
         length (filter is_fallback (world g')) = totals_fallback g')"
  proof (cases c)
    case (AwaitTexture a p)
    with assms applyTransform_call_cases [of "get_member a ''transform''" pf cfg
        "new_holder (ImageLayer p) a None"]
    show ?thesis
      by (auto simp: plain_transform_def is_fallback_def new_holder_def split: sum.splits)
  next
    case (AwaitModel a p)
    with assms applyTransform_call_cases [of "get_member a ''transform''" pf cfg
        "new_holder (ModelInstance p) a None"]
    show ?thesis
      by (auto simp: plain_transform_def is_fallback_def new_holder_def Let_def
          split: sum.splits)
  next
    case (AwaitRejection a err)
    with assms(2) have "\<not> applyTransform_throws (transform_or_null a)"
      by (simp add: transform_or_null_plain)
    with AwaitRejection assms(1) rejection_stretch_cases [of pf cfg net a err g t g']
    have f: "handleAsset_finally False
              (g\<lparr>totals_fallback := totals_fallback g + 1,
                 world := world g @ [fallback_holder pf cfg a (failure_reason err)]\<rparr>) = (t, g')"
      by simp
    from handleAsset_finally_facts(1,4,6) [OF f] show ?thesis
      by (auto simp: fallback_holder_facts)
  next
    case AwaitFulfilment
    with assms handleAsset_finally_facts(1,4,6) [of False "g\<lparr>totals_ok := totals_ok g + 1\<rparr>" t g']
    show ?thesis by auto
  next
    case (AwaitNextFrame b)
    with assms show ?thesis by auto
  qed
  then show "calm_runner (after_call t)"
    "length (filter is_fallback (world g)) = totals_fallback g \<Longrightarrow>
       length (filter is_fallback (world g')) = totals_fallback g'" by simp_all
qed


section \<open>Invariants and progress of the loading pipeline\<close>

lemma runner_turn_shared:
  assumes "\<And>a g. P g \<Longrightarrow> P (snd (begin_call worker a g))"
    "P (shared p)" "runner_turn worker p = (r, q)"
  shows "P (shared q)"
proof (cases "index p < length (items p)")
  case True
  obtain t g where tg: "begin_call worker (items p ! index p) (shared p) = (t, g)" by force
  have "P g" using assms(1) [OF assms(2), of "items p ! index p"] tg by simp
  with assms(3) True tg show ?thesis by (auto simp: runner_turn_def Let_def)
next
  case False
  with assms(2,3) show ?thesis by (auto simp: runner_turn_def)
qed

lemma spawn_shared:
  assumes "\<And>a g. P g \<Longrightarrow> P (snd (begin_call worker a g))" "P (shared p)"
  shows "P (shared (spawn worker p))"
proof -
  obtain r q where rq: "runner_turn worker p = (r, q)" by force
  from runner_turn_shared [of P worker p r q, OF assms(1) assms(2) rq] rq
  show ?thesis by (simp add: spawn_def)
qed

lemma spawn_pow_shared:
  assumes "\<And>a g. P g \<Longrightarrow> P (snd (begin_call worker a g))" "P (shared p)"
  shows "P (shared ((spawn worker ^^ n) p))"
  by (induction n) (auto intro: spawn_shared assms)

lemma init_shared:
  assumes "\<And>a g. P g \<Longrightarrow> P (snd (begin_call worker a g))" "P g0"
  shows "P (shared (runWithConcurrency worker its c g0))"
  unfolding runWithConcurrency_def
  by (rule spawn_pow_shared [of P worker, OF assms(1)]) (simp_all add: assms(2))

lemma step_shared:
  assumes "\<And>a g. P g \<Longrightarrow> P (snd (begin_call worker a g))"
    "\<And>c g. P g \<Longrightarrow> P (snd (continue_call worker c g))"
    "P (shared p)" "step worker r p = Some p'"
  shows "P (shared p')"
  using assms(4)
proof (cases rule: step_elims)
  case (work c t g)
  have "P g" using assms(2) [OF assms(3), of c] work(3) by simp
  with work(4) show ?thesis by simp
next
  case (turn r' q)
  from runner_turn_shared [of P worker p r' q, OF assms(1) assms(3) turn(3)] turn(4)
  show ?thesis by simp
next
  case crash
  with assms(3) show ?thesis by simp
qed

lemma sum_list_map_update:
  fixes f :: "'a \<Rightarrow> nat"
  shows "r < length xs \<Longrightarrow>
           sum_list (map f (xs[r := x])) + f (xs ! r) = sum_list (map f xs) + f x"
proof (induction xs arbitrary: r)
  case Nil
  then show ?case by simp
next
  case (Cons y ys)
  show ?case
  proof (cases r)
    case 0
    then show ?thesis by simp
  next
    case (Suc r')
    with Cons.prems have "r' < length ys" by simp
    from Cons.IH [OF this] Suc show ?thesis by simp
  qed
qed

lemma uncounted_begun:
  assumes "\<forall>b. c \<noteq> AwaitNextFrame b"
  shows "uncounted (Awaiting c) = 1"
  using assms by (cases c) auto

lemma handleAsset_turn_count:
  assumes "runner_turn (handleAsset pf cfg net) p = (r, q)"
  shows "totals_loaded (shared q) + uncounted r + index p = totals_loaded (shared p) + index q"
proof (cases "index p < length (items p)")
  case True
  obtain t g where tg: "handleAsset_begin pf (items p ! index p) (shared p) = (t, g)" by force
  from handleAsset_begin_facts(1,2) [OF tg]
  have "uncounted (after_call t) = 1" "totals_loaded g = totals_loaded (shared p)"
    by (auto simp: uncounted_begun)
  with assms True tg show ?thesis by (auto simp: runner_turn_def handleAsset_def Let_def)
next
  case False
  with assms show ?thesis by (auto simp: runner_turn_def)
qed

lemma spawn_balanced:
  assumes "balanced k p"
  shows "balanced k (spawn (handleAsset pf cfg net) p)"
proof -
  obtain r q where rq: "runner_turn (handleAsset pf cfg net) p = (r, q)" by force
  have "runners q = runners p" using runner_turn_facts(2) [OF rq] .
  with handleAsset_turn_count [OF rq] assms rq show ?thesis
    by (simp add: spawn_def balanced_def pending_def)
qed

lemma spawn_pow_balanced:
  "balanced k p \<Longrightarrow> balanced k ((spawn (handleAsset pf cfg net) ^^ n) p)"
  by (induction n) (auto intro: spawn_balanced)

lemma init_balanced:
  "balanced (totals_loaded g) (runWithConcurrency (handleAsset pf cfg net) its c g)"
  unfolding runWithConcurrency_def
  by (rule spawn_pow_balanced) (simp add: balanced_def pending_def)

lemma step_balanced:
  assumes "balanced k p" "step (handleAsset pf cfg net) r p = Some p'"
  shows "balanced k p'"
  using assms(2)
proof (cases rule: step_elims)
  case (work c t g)
  have "handleAsset_continue pf cfg net c (shared p) = (t, g)"
    using work(3) by (simp add: handleAsset_def)
  from handleAsset_continue_count [OF this] work(2)
  have "totals_loaded g + uncounted (after_call t) = totals_loaded (shared p) + uncounted (runners p ! r)"
    by simp
  moreover have "sum_list (map uncounted ((runners p)[r := after_call t])) + uncounted (runners p ! r)
      = sum_list (map uncounted (runners p)) + uncounted (after_call t)"
    using work(1) by (rule sum_list_map_update)
  ultimately show ?thesis using assms(1) work(4) by (simp add: balanced_def pending_def)
next
  case (turn r' q)
  have same: "runners q = runners p" using runner_turn_facts(2) [OF turn(3)] .
  have "sum_list (map uncounted ((runners p)[r := r'])) + uncounted (runners p ! r)
      = sum_list (map uncounted (runners p)) + uncounted r'"
    using turn(1) by (rule sum_list_map_update)
  with handleAsset_turn_count [OF turn(3)] assms(1) turn(2,4) same show ?thesis
    by (simp add: balanced_def pending_def)
next
  case crash
  have "sum_list (map uncounted ((runners p)[r := Crashed])) + uncounted (runners p ! r)
      = sum_list (map uncounted (runners p)) + uncounted Crashed"
    using crash(1) by (rule sum_list_map_update)
  with assms(1) crash show ?thesis by (simp add: balanced_def pending_def)
qed

lemma resolved_pending: "resolved p \<Longrightarrow> pending p = 0"
  by (auto simp: resolved_def pending_def list_all_iff)

lemma filter_enumerate_length:
  "length (filter (\<lambda>item. P (snd item)) (enumerate n xs)) = length (filter P xs)"
  by (induction xs arbitrary: n) auto

lemma enumerate_snd: "item \<in> set (enumerate n xs) \<Longrightarrow> snd item \<in> set xs"
  by (cases item) (auto simp: in_set_enumerate_eq)

lemma assets_partition:
  "length (otherAssets as) + length (modelAssets as) + length (imageAssets as) = length as"
proof -
  have "length (otherAssets as) + length (filter (is_type ''model'') as)
          + length (filter (is_type ''image'') as) = length as"
    by (induction as) (auto simp: otherAssets_def is_type_def)
  then show ?thesis by (simp add: modelAssets_def imageAssets_def filter_enumerate_length)
qed

lemma viewer_inv_display:
  "viewer_inv n (g\<lparr>render := r, status := st\<rparr>) = viewer_inv n g"
  "viewer_inv n (main_rejected g) = viewer_inv n g"
  by (simp_all add: viewer_inv_def main_rejected_def)

lemma add_others_inv:
  assumes "add_others pf cfg xs g = (e, g')" "viewer_inv n g"
  shows "viewer_inv n g'"
  using assms
proof (induction xs arbitrary: g)
  case Nil
  then show ?case by simp
next
  case (Cons a as)
  let ?g1 = "g\<lparr>totals_fallback := totals_fallback g + 1, totals_loaded := totals_loaded g + 1\<rparr>"
  have v1: "viewer_inv n ?g1" using Cons.prems(2) by (simp add: viewer_inv_def)
  from addFallbackPlane_cases [of a pf cfg "''unsupported type''" ?g1] show ?case
  proof (elim disjE conjE)
    assume "addFallbackPlane pf cfg a ''unsupported type'' ?g1 = Inl NoPrimitive"
    with Cons.prems(1) have "g' = ?g1" by (simp add: Let_def)
    with v1 show ?thesis by simp
  next
    let ?g2 = "?g1\<lparr>world := world ?g1 @ [fallback_holder pf cfg a ''unsupported type'']\<rparr>"
    assume "addFallbackPlane pf cfg a ''unsupported type'' ?g1 = Inr ?g2"
    with Cons.prems(1) have r: "add_others pf cfg as ?g2 = (e, g')" by (simp add: Let_def)
    have "viewer_inv n ?g2" using v1 by (simp add: viewer_inv_def fallback_holder_facts)
    with r show ?thesis by (rule Cons.IH)
  qed
qed

lemma add_others_done:
  assumes "add_others pf cfg xs g = (None, g')"
  shows "totals_loaded g' = totals_loaded g + length xs"
  using assms
proof (induction xs arbitrary: g)
  case Nil
  then show ?case by simp
next
  case (Cons a as)
  let ?g1 = "g\<lparr>totals_fallback := totals_fallback g + 1, totals_loaded := totals_loaded g + 1\<rparr>"
  from addFallbackPlane_cases [of a pf cfg "''unsupported type''" ?g1] show ?case
  proof (elim disjE conjE)
    assume "addFallbackPlane pf cfg a ''unsupported type'' ?g1 = Inl NoPrimitive"
    with Cons.prems show ?thesis by (simp add: Let_def)
  next
    let ?g2 = "?g1\<lparr>world := world ?g1 @ [fallback_holder pf cfg a ''unsupported type'']\<rparr>"
    assume "addFallbackPlane pf cfg a ''unsupported type'' ?g1 = Inr ?g2"
    with Cons.prems have r: "add_others pf cfg as ?g2 = (None, g')" by (simp add: Let_def)
    from Cons.IH [OF r] show ?thesis by simp
  qed
qed

lemma add_others_plain:
  assumes "list_all plain_transform xs"
  shows "\<exists>g'. add_others pf cfg xs g = (None, g') \<and>
           world g' = world g @ map (\<lambda>a. fallback_holder pf cfg a ''unsupported type'') xs \<and>
           totals_fallback g' = totals_fallback g + length xs"
  using assms
proof (induction xs arbitrary: g)
  case Nil
  then show ?case by simp
next
  case (Cons a as)
  let ?g1 = "g\<lparr>totals_fallback := totals_fallback g + 1, totals_loaded := totals_loaded g + 1\<rparr>"
  let ?g2 = "?g1\<lparr>world := world ?g1 @ [fallback_holder pf cfg a ''unsupported type'']\<rparr>"
  from Cons.prems have "\<not> applyTransform_throws (transform_or_null a)"
    by (simp add: transform_or_null_plain)
  with addFallbackPlane_cases [of a pf cfg "''unsupported type''" ?g1]
  have "addFallbackPlane pf cfg a ''unsupported type'' ?g1 = Inr ?g2" by simp
  then have e: "add_others pf cfg (a # as) g = add_others pf cfg as ?g2" by (simp add: Let_def)
  from Cons.prems have "list_all plain_transform as" by simp
  from Cons.IH [OF this, of ?g2] e show ?case by auto
qed

lemma handleAsset_keeps_viewer_inv:
  "viewer_inv n g \<Longrightarrow> viewer_inv n (snd (begin_call (handleAsset pf cfg net) a g))"
  "viewer_inv n g \<Longrightarrow> viewer_inv n (snd (continue_call (handleAsset pf cfg net) c g))"
proof -
  assume v: "viewer_inv n g"
  show "viewer_inv n (snd (begin_call (handleAsset pf cfg net) a g))"
    using handleAsset_begin_facts(3) [of pf a g _ _ n] v
    by (cases "handleAsset_begin pf a g") (simp add: handleAsset_def)
  show "viewer_inv n (snd (continue_call (handleAsset pf cfg net) c g))"
    using handleAsset_continue_inv [of pf cfg net c g _ _ n] v
    by (cases "handleAsset_continue pf cfg net c g") (simp add: handleAsset_def)
qed

lemma batch_start_inv:
  assumes "viewer_inv n g"
  shows "viewer_inv n (shared (runWithConcurrency (handleAsset pf cfg net) its c g))"
    "pool_inv (runWithConcurrency (handleAsset pf cfg net) its c g)"
    "runners (runWithConcurrency (handleAsset pf cfg net) its c g) \<noteq> []"
    "items (runWithConcurrency (handleAsset pf cfg net) its c g) = its"
    "balanced (totals_loaded g) (runWithConcurrency (handleAsset pf cfg net) its c g)"
proof -
  show "viewer_inv n (shared (runWithConcurrency (handleAsset pf cfg net) its c g))"
    by (rule init_shared [of "viewer_inv n"]) (auto intro: handleAsset_keeps_viewer_inv assms)
  show "pool_inv (runWithConcurrency (handleAsset pf cfg net) its c g)" by (rule init_inv)
  show "runners (runWithConcurrency (handleAsset pf cfg net) its c g) \<noteq> []"
    using run_runners_nonempty [of "handleAsset pf cfg net" "[]" its c g] by simp
  show "items (runWithConcurrency (handleAsset pf cfg net) its c g) = its" by simp
  show "balanced (totals_loaded g) (runWithConcurrency (handleAsset pf cfg net) its c g)"
    by (rule init_balanced)
qed

lemma viewer_at_start_inv:
  "viewer_inv n ((viewer_at_start rs)\<lparr>totals_total := n, totals_ok := 0, totals_fallback := 0,
       totals_loaded := 0, status := st\<rparr>)"
  by (simp add: viewer_inv_def viewer_at_start_def loaders_consistent_def cache_matches_def
        no_loads_def)

lemma main_begin_inv: "pipeline_inv (main_begin pf cfg net assets (viewer_at_start rs))"
proof -
  let ?g1 = "(viewer_at_start rs)\<lparr>totals_total := length assets, totals_ok := 0,
       totals_fallback := 0, totals_loaded := 0, status := StatusLoading (length assets)\<rparr>"
  obtain e g2 where a: "add_others pf cfg (otherAssets assets) ?g1 = (e, g2)" by force
  have v: "viewer_inv (length assets) g2"
    using a by (rule add_others_inv) (rule viewer_at_start_inv)
  show ?thesis
  proof (cases e)
    case None
    with a have l: "totals_loaded g2 = length (otherAssets assets)"
      using add_others_done [of pf cfg "otherAssets assets" ?g1 g2] by simp
    from batch_start_inv [OF v, of pf cfg net "modelAssets assets" MODEL_CONCURRENCY] l a None
    show ?thesis by (simp add: pipeline_inv_def main_begin_def Let_def)
  next
    case (Some err)
    with a v show ?thesis
      by (simp add: pipeline_inv_def main_begin_def Let_def viewer_inv_display pool_inv_def)
  qed
qed

lemma resolved_index:
  assumes "pool_inv p" "resolved p" "runners p \<noteq> []"
  shows "index p = length (items p)"
proof -
  from assms(2,3) have "Finished \<in> set (runners p)"
    by (cases "runners p") (auto simp: resolved_def)
  with assms(1) show ?thesis by (simp add: pool_inv_def)
qed

lemma resolved_not_crashed: "resolved p \<Longrightarrow> Crashed \<notin> set (runners p)"
  by (auto simp: resolved_def list_all_iff)

lemma main_continue_cases:
  assumes "main_continue pf cfg net s = Some s'"
  obtains
    (abort) "phase s = LoadingModels \<or> phase s = LoadingImages" "Crashed \<in> set (runners (batch s))"
      "s' = s\<lparr>phase := Aborted, batch := (batch s)\<lparr>shared := main_rejected (shared (batch s))\<rparr>\<rparr>"
  | (images) "phase s = LoadingModels" "Crashed \<notin> set (runners (batch s))" "resolved (batch s)"
      "s' = s\<lparr>phase := LoadingImages,
              batch := runWithConcurrency (handleAsset pf cfg net) (imageAssets (assets_of s))
                         IMAGE_CONCURRENCY (shared (batch s))\<rparr>"
  | (ready) "phase s = LoadingImages" "Crashed \<notin> set (runners (batch s))" "resolved (batch s)"
      "s' = s\<lparr>phase := Ready,
              batch := (batch s)\<lparr>shared := (shared (batch s))
                 \<lparr>render := requestRender (render (shared (batch s))),
                   status := StatusReady (totals_total (shared (batch s)))
                     (totals_ok (shared (batch s))) (totals_fallback (shared (batch s)))\<rparr>\<rparr>\<rparr>"
  using assms by (auto simp: main_continue_def Let_def split: if_splits)

lemma main_continue_inv:
  assumes "pipeline_inv s" "main_continue pf cfg net s = Some s'"
  shows "pipeline_inv s'"
  using assms(2)
proof (cases rule: main_continue_cases)
  case abort
  have "pool_inv ((batch s)\<lparr>shared := g\<rparr>)" for g
    using assms(1) by (simp add: pipeline_inv_def pool_inv_def)
  with abort(3) assms(1) show ?thesis by (simp add: pipeline_inv_def viewer_inv_display)
next
  case images
  have v: "viewer_inv (length (assets_of s)) (shared (batch s))"
    using assms(1) by (simp add: pipeline_inv_def)
  have idx: "index (batch s) = length (items (batch s))"
    using assms(1) images(1,3) by (intro resolved_index) (simp_all add: pipeline_inv_def)
  have pend: "pending (batch s) = 0" using images(3) by (rule resolved_pending)
  have "totals_loaded (shared (batch s))
          = length (otherAssets (assets_of s)) + length (modelAssets (assets_of s))"
    using assms(1) images(1) idx pend by (simp add: pipeline_inv_def balanced_def)
  with batch_start_inv [OF v, of pf cfg net "imageAssets (assets_of s)" IMAGE_CONCURRENCY] images(4)
  show ?thesis by (simp add: pipeline_inv_def)
next
  case ready
  have v: "viewer_inv (length (assets_of s)) (shared (batch s))"
    using assms(1) by (simp add: pipeline_inv_def)
  have idx: "index (batch s) = length (items (batch s))"
    using assms(1) ready(1,3) by (intro resolved_index) (simp_all add: pipeline_inv_def)
  have pend: "pending (batch s) = 0" using ready(3) by (rule resolved_pending)
  have "totals_loaded (shared (batch s)) = length (assets_of s)"
    using assms(1) ready(1) idx pend assets_partition [of "assets_of s"]
    by (simp add: pipeline_inv_def balanced_def)
  moreover have "pool_inv ((batch s)\<lparr>shared := g\<rparr>)" for g
    using assms(1) by (simp add: pipeline_inv_def pool_inv_def)
  moreover have "resolved ((batch s)\<lparr>shared := g\<rparr>)" for g
    using ready(3) by (simp add: resolved_def)
  ultimately show ?thesis using ready(4) v
    by (simp add: pipeline_inv_def viewer_inv_display)
qed

lemma continue_inv:
  assumes "pipeline_inv s" "step (handleAsset pf cfg net) r (batch s) = Some b"
  shows "pipeline_inv (s\<lparr>batch := b\<rparr>)"
proof -
  have v: "viewer_inv (length (assets_of s)) (shared b)"
    using assms(1)
    by (intro step_shared [of "viewer_inv (length (assets_of s))" _ "batch s" r b, OF _ _ _ assms(2)])
       (auto intro: handleAsset_keeps_viewer_inv simp: pipeline_inv_def)
  have p: "pool_inv b" using assms by (auto simp: pipeline_inv_def intro: step_inv)
  have l: "length (runners b) = length (runners (batch s))" using assms(2) by (rule step_length)
  have i: "items b = items (batch s)" using assms(2) by (rule step_items)
  have bal: "balanced k b" if "balanced k (batch s)" for k
    using that assms(2) by (rule step_balanced)
  have "\<not> resolved (batch s)"
  proof
    assume "resolved (batch s)"
    then have "quiescent (batch s)" by (auto simp: resolved_def quiescent_def list_all_iff)
    then have "step (handleAsset pf cfg net) r (batch s) = None"
      using quiescent_iff_no_step [of "batch s" "handleAsset pf cfg net"] by simp
    with assms(2) show False by simp
  qed
  with assms(1) have nr: "phase s \<noteq> Ready" by (auto simp: pipeline_inv_def)
  from assms(1) v p l i bal nr show ?thesis
    by (auto simp: pipeline_inv_def)
qed

lemma pipeline_step_inv:
  assumes "pipeline_inv s" "pipeline_step pf cfg net e s = Some s'"
  shows "pipeline_inv s'"
proof (cases e)
  case (Continue r)
  with assms(2) obtain b where "step (handleAsset pf cfg net) r (batch s) = Some b"
    "s' = s\<lparr>batch := b\<rparr>"
    by (auto simp: pipeline_step_def split: option.splits)
  with assms(1) show ?thesis by (auto intro: continue_inv)
next
  case BatchSettled
  with assms show ?thesis by (auto simp: pipeline_step_def intro: main_continue_inv)
qed

lemma pipeline_run_inv: "pipeline_inv s \<Longrightarrow> pipeline_inv (pipeline_run pf cfg net es s)"
proof (induction es arbitrary: s)
  case Nil
  then show ?case by simp
next
  case (Cons e es)
  then show ?case
    by (cases "pipeline_step pf cfg net e s") (auto dest: pipeline_step_inv)
qed


lemma runner_turn_calm:
  assumes "calm_pool p" "runner_turn (handleAsset pf cfg net) p = (r, q)"
  shows "calm_runner r"
    "length (filter is_fallback (world (shared q))) = totals_fallback (shared q)"
proof -
  have "calm_runner r \<and>
        length (filter is_fallback (world (shared q))) = totals_fallback (shared q)"
  proof (cases "index p < length (items p)")
    case True
    obtain t g where tg: "handleAsset_begin pf (items p ! index p) (shared p) = (t, g)" by force
    from assms(1) True have "plain_transform (snd (items p ! index p))"
      by (auto simp: calm_pool_def list_all_length)
    with handleAsset_begin_facts(1,4,5) [OF tg]
    have "calm_runner (after_call t)" "world g = world (shared p)"
      "totals_fallback g = totals_fallback (shared p)" by auto
    with assms True tg show ?thesis
      by (auto simp: runner_turn_def handleAsset_def Let_def calm_pool_def)
  next
    case False
    with assms show ?thesis by (auto simp: runner_turn_def calm_pool_def)
  qed
  then show "calm_runner r"
    "length (filter is_fallback (world (shared q))) = totals_fallback (shared q)" by simp_all
qed

lemma spawn_calm:
  assumes "calm_pool p"
  shows "calm_pool (spawn (handleAsset pf cfg net) p)"
proof -
  obtain r q where rq: "runner_turn (handleAsset pf cfg net) p = (r, q)" by force
  from runner_turn_calm [OF assms rq] runner_turn_facts(1,2) [OF rq] assms rq
  show ?thesis by (simp add: spawn_def calm_pool_def)
qed

lemma spawn_pow_calm:
  "calm_pool p \<Longrightarrow> calm_pool ((spawn (handleAsset pf cfg net) ^^ n) p)"
  by (induction n) (auto intro: spawn_calm)

lemma init_calm:
  assumes "list_all (\<lambda>item. plain_transform (snd item)) its"
    "length (filter is_fallback (world g)) = totals_fallback g"
  shows "calm_pool (runWithConcurrency (handleAsset pf cfg net) its c g)"
  unfolding runWithConcurrency_def
  by (rule spawn_pow_calm) (simp add: calm_pool_def assms)

lemma step_calm:
  assumes "calm_pool p" "step (handleAsset pf cfg net) r p = Some p'"
  shows "calm_pool p'"
  using assms(2)
proof (cases rule: step_elims)
  case (work c t g)
  have h: "handleAsset_continue pf cfg net c (shared p) = (t, g)"
    using work(3) by (simp add: handleAsset_def)
  have "calm c" using assms(1) work(1,2) by (auto simp: calm_pool_def list_all_length)
  from handleAsset_continue_calm [OF h this] assms(1) work(4) show ?thesis
    by (simp add: calm_pool_def list_all_update)
next
  case (turn r' q)
  from runner_turn_calm [OF assms(1) turn(3)] runner_turn_facts(1,2) [OF turn(3)] assms(1) turn(4)
  show ?thesis by (simp add: calm_pool_def list_all_update)
next
  case crash
  with assms(1) have "calm_runner (Settled False)"
    by (auto simp: calm_pool_def list_all_length)
  then show ?thesis by simp
qed

lemma calm_not_crashed: "calm_pool p \<Longrightarrow> Crashed \<notin> set (runners p)"
  by (auto simp: calm_pool_def list_all_iff)

lemma calm_no_failure: "calm_pool p \<Longrightarrow> no_failure p"
  by (auto simp: calm_pool_def no_failure_def list_all_iff)

lemma plain_items:
  assumes "list_all plain_transform assets"
  shows "list_all (\<lambda>item. plain_transform (snd item)) (modelAssets assets)"
    "list_all (\<lambda>item. plain_transform (snd item)) (imageAssets assets)"
    "list_all plain_transform (otherAssets assets)"
  using assms
  by (auto simp: modelAssets_def imageAssets_def otherAssets_def list_all_iff dest: enumerate_snd)

lemma fallback_planes_count:
  "length (filter is_fallback (map (\<lambda>a. fallback_holder pf cfg a reason) xs)) = length xs"
  by (induction xs) (simp_all add: fallback_holder_facts)

lemma main_begin_plain:
  assumes "list_all plain_transform assets"
  shows "\<exists>g2. main_begin pf cfg net assets (viewer_at_start rs) =
           \<lparr>phase = LoadingModels, assets_of = assets,
            batch = runWithConcurrency (handleAsset pf cfg net) (modelAssets assets)
                      MODEL_CONCURRENCY g2\<rparr> \<and>
           world g2 = map (\<lambda>a. fallback_holder pf cfg a ''unsupported type'') (otherAssets assets) \<and>
           totals_fallback g2 = length (otherAssets assets)"
proof -
  let ?g1 = "(viewer_at_start rs)\<lparr>totals_total := length assets, totals_ok := 0,
       totals_fallback := 0, totals_loaded := 0, status := StatusLoading (length assets)\<rparr>"
  from add_others_plain [OF plain_items(3) [OF assms], of pf cfg ?g1]
  obtain g2 where g2: "add_others pf cfg (otherAssets assets) ?g1 = (None, g2)"
    "world g2 = world ?g1 @ map (\<lambda>a. fallback_holder pf cfg a ''unsupported type'') (otherAssets assets)"
    "totals_fallback g2 = totals_fallback ?g1 + length (otherAssets assets)" by blast
  then show ?thesis
    by (intro exI [where x = g2]) (simp add: main_begin_def Let_def viewer_at_start_def)
qed

lemma main_begin_steady:
  assumes "list_all plain_transform assets"
  shows "steady (main_begin pf cfg net assets (viewer_at_start rs))"
proof -
  from main_begin_plain [OF assms, of pf cfg net rs] obtain g2 where
    m: "main_begin pf cfg net assets (viewer_at_start rs) =
           \<lparr>phase = LoadingModels, assets_of = assets,
            batch = runWithConcurrency (handleAsset pf cfg net) (modelAssets assets)
                      MODEL_CONCURRENCY g2\<rparr>"
    and w: "world g2 = map (\<lambda>a. fallback_holder pf cfg a ''unsupported type'') (otherAssets assets)"
    and f: "totals_fallback g2 = length (otherAssets assets)" by blast
  have "calm_pool (runWithConcurrency (handleAsset pf cfg net) (modelAssets assets)
                      MODEL_CONCURRENCY g2)"
    using plain_items(1) [OF assms] w f fallback_planes_count [of pf cfg "''unsupported type''" "otherAssets assets"]
    by (intro init_calm) simp_all
  with m assms show ?thesis by (simp add: steady_def)
qed

lemma main_continue_steady:
  assumes "steady s" "main_continue pf cfg net s = Some s'"
  shows "steady s'"
  using assms(2)
proof (cases rule: main_continue_cases)
  case abort
  with assms(1) calm_not_crashed [of "batch s"] show ?thesis by (simp add: steady_def)
next
  case images
  have "calm_pool (runWithConcurrency (handleAsset pf cfg net) (imageAssets (assets_of s))
                         IMAGE_CONCURRENCY (shared (batch s)))"
    using assms(1) by (intro init_calm plain_items(2)) (simp_all add: steady_def calm_pool_def)
  with assms(1) images(4) show ?thesis by (simp add: steady_def)
next
  case ready
  with assms(1) show ?thesis by (simp add: steady_def calm_pool_def)
qed

lemma pipeline_step_steady:
  assumes "steady s" "pipeline_step pf cfg net e s = Some s'"
  shows "steady s'"
proof (cases e)
  case (Continue r)
  with assms(2) obtain b where b: "step (handleAsset pf cfg net) r (batch s) = Some b"
    "s' = s\<lparr>batch := b\<rparr>"
    by (auto simp: pipeline_step_def split: option.splits)
  from assms(1) have "calm_pool (batch s)" by (simp add: steady_def)
  from step_calm [OF this b(1)] assms(1) b(2) show ?thesis by (simp add: steady_def)
next
  case BatchSettled
  with assms show ?thesis by (auto simp: pipeline_step_def intro: main_continue_steady)
qed

lemma pipeline_run_steady: "steady s \<Longrightarrow> steady (pipeline_run pf cfg net es s)"
proof (induction es arbitrary: s)
  case Nil
  then show ?case by simp
next
  case (Cons e es)
  then show ?case
    by (cases "pipeline_step pf cfg net e s") (auto dest: pipeline_step_steady)
qed

lemma await_rank_pos: "0 < await_rank c"
  by (cases c) auto

lemma handleAsset_continue_rank:
  assumes "handleAsset_continue pf cfg net c g = (t, g')"
  shows "weight (after_call t) < weight (Awaiting c)"
proof (cases c)
  case (AwaitTexture a p)
  with assms show ?thesis by (auto split: sum.splits)
next
  case (AwaitModel a p)
  with assms show ?thesis by (auto simp: Let_def split: sum.splits)
next
  case (AwaitRejection a err)
  from rejection_stretch_cases [of pf cfg net a err g t g'] AwaitRejection assms
  obtain b g1 where f: "handleAsset_finally b g1 = (t, g')" by auto
  from handleAsset_finally_facts(1) [OF f] AwaitRejection show ?thesis by auto
next
  case AwaitFulfilment
  with assms handleAsset_finally_facts(1) [of False "g\<lparr>totals_ok := totals_ok g + 1\<rparr>" t g']
  show ?thesis by auto
next
  case (AwaitNextFrame b)
  with assms show ?thesis by (auto split: if_splits)
qed

lemma handleAsset_begin_rank:
  assumes "handleAsset_begin pf a g = (t, g')"
  shows "weight (after_call t) \<le> 4"
proof -
  from handleAsset_begin_facts(1) [OF assms] obtain c where "t = Suspended c" by auto
  then show ?thesis by (cases c) auto
qed

lemma handleAsset_turn_measure:
  assumes "runner_turn (handleAsset pf cfg net) p = (r, q)"
  shows "weight r + 4 * (length (items q) - index q) < 1 + 4 * (length (items p) - index p)"
proof (cases "index p < length (items p)")
  case True
  obtain t g where tg: "handleAsset_begin pf (items p ! index p) (shared p) = (t, g)" by force
  from handleAsset_begin_rank [OF tg] assms True tg show ?thesis
    by (auto simp: runner_turn_def handleAsset_def Let_def)
next
  case False
  with assms show ?thesis by (auto simp: runner_turn_def)
qed

lemma handleAsset_turn_measure_le:
  assumes "runner_turn (handleAsset pf cfg net) p = (r, q)"
  shows "weight r + 4 * (length (items q) - index q) \<le> 4 * (length (items p) - index p)"
proof (cases "index p < length (items p)")
  case True
  obtain t g where tg: "handleAsset_begin pf (items p ! index p) (shared p) = (t, g)" by force
  from handleAsset_begin_rank [OF tg] assms True tg show ?thesis
    by (auto simp: runner_turn_def handleAsset_def Let_def)
next
  case False
  with assms show ?thesis by (auto simp: runner_turn_def)
qed

lemma spawn_measure: "pool_measure (spawn (handleAsset pf cfg net) p) \<le> pool_measure p"
proof -
  obtain r q where rq: "runner_turn (handleAsset pf cfg net) p = (r, q)" by force
  have "runners q = runners p" using runner_turn_facts(2) [OF rq] .
  with handleAsset_turn_measure_le [OF rq] rq show ?thesis
    by (simp add: spawn_def pool_measure_def)
qed

lemma spawn_pow_measure:
  "pool_measure ((spawn (handleAsset pf cfg net) ^^ n) p) \<le> pool_measure p"
proof (induction n)
  case 0
  then show ?case by simp
next
  case (Suc n)
  then show ?case
    using spawn_measure [of pf cfg net "(spawn (handleAsset pf cfg net) ^^ n) p"] by simp
qed

lemma init_measure:
  "pool_measure (runWithConcurrency (handleAsset pf cfg net) its c g) \<le> 4 * length its"
  unfolding runWithConcurrency_def
  using spawn_pow_measure [where pf = pf and cfg = cfg and net = net
      and p = "\<lparr>items = its, index = 0, runners = [], calls = [], shared = g\<rparr>"]
  by (simp add: pool_measure_def)

lemma step_measure:
  assumes "step (handleAsset pf cfg net) r p = Some p'"
  shows "pool_measure p' < pool_measure p"
  using assms
proof (cases rule: step_elims)
  case (work c t g)
  have "handleAsset_continue pf cfg net c (shared p) = (t, g)"
    using work(3) by (simp add: handleAsset_def)
  from handleAsset_continue_rank [OF this] work(2)
  have "weight (after_call t) < weight (runners p ! r)" by simp
  moreover have "sum_list (map weight ((runners p)[r := after_call t])) + weight (runners p ! r)
      = sum_list (map weight (runners p)) + weight (after_call t)"
    using work(1) by (rule sum_list_map_update)
  ultimately show ?thesis using work(4) by (simp add: pool_measure_def)
next
  case (turn r' q)
  have same: "runners q = runners p" using runner_turn_facts(2) [OF turn(3)] .
  have "sum_list (map weight ((runners p)[r := r'])) + weight (runners p ! r)
      = sum_list (map weight (runners p)) + weight r'"
    using turn(1) by (rule sum_list_map_update)
  with handleAsset_turn_measure [OF turn(3)] turn(2,4) same show ?thesis
    by (simp add: pool_measure_def)
next
  case crash
  have "sum_list (map weight ((runners p)[r := Crashed])) + weight (runners p ! r)
      = sum_list (map weight (runners p)) + weight Crashed"
    using crash(1) by (rule sum_list_map_update)
  with crash show ?thesis by (simp add: pool_measure_def)
qed

lemma pipeline_step_measure:
  assumes "pipeline_step pf cfg net e s = Some s'"
  shows "pipeline_measure s' < pipeline_measure s"
proof (cases e)
  case (Continue r)
  with assms obtain b where b: "step (handleAsset pf cfg net) r (batch s) = Some b"
    "s' = s\<lparr>batch := b\<rparr>"
    by (auto simp: pipeline_step_def split: option.splits)
  from step_measure [OF b(1)] b(2) show ?thesis
    by (cases "phase s") (simp_all add: pipeline_measure_def)
next
  case BatchSettled
  with assms have m: "main_continue pf cfg net s = Some s'" by (simp add: pipeline_step_def)
  from m show ?thesis
  proof (cases rule: main_continue_cases)
    case abort
    then show ?thesis by (auto simp: pipeline_measure_def pool_measure_def)
  next
    case images
    with init_measure [of pf cfg net "imageAssets (assets_of s)" IMAGE_CONCURRENCY
        "shared (batch s)"]
    show ?thesis by (simp add: pipeline_measure_def)
  next
    case ready
    then show ?thesis by (simp add: pipeline_measure_def pool_measure_def)
  qed
qed

lemma quiescent_calm_resolved: "quiescent p \<Longrightarrow> calm_pool p \<Longrightarrow> resolved p"
  by (fastforce simp: quiescent_def calm_pool_def resolved_def list_all_iff)

lemma stuck_is_ready:
  assumes "steady s" "\<forall>e. pipeline_step pf cfg net e s = None"
  shows "phase s = Ready"
proof -
  have "step (handleAsset pf cfg net) r (batch s) = None" for r
    using assms(2) [rule_format, of "Continue r"]
    by (simp add: pipeline_step_def split: option.splits)
  then have "quiescent (batch s)"
    using quiescent_iff_no_step [of "batch s" "handleAsset pf cfg net"] by simp
  with assms(1) have res: "resolved (batch s)"
    by (auto simp: steady_def intro: quiescent_calm_resolved)
  from assms(2) [rule_format, of BatchSettled] res assms(1)
    resolved_not_crashed [OF res]
  show ?thesis
    by (cases "phase s")
       (auto simp: pipeline_step_def main_continue_def steady_def Let_def split: if_splits)
qed

lemma can_finish:
  "steady s \<Longrightarrow> \<exists>es. phase (pipeline_run pf cfg net es s) = Ready"
proof (induction "pipeline_measure s" arbitrary: s rule: less_induct)
  case less
  show ?case
  proof (cases "\<forall>e. pipeline_step pf cfg net e s = None")
    case True
    with less.prems have "phase s = Ready" by (rule stuck_is_ready)
    then have "phase (pipeline_run pf cfg net [] s) = Ready" by simp
    then show ?thesis by blast
  next
    case False
    then obtain e s' where st: "pipeline_step pf cfg net e s = Some s'" by auto
    have "steady s'" using less.prems st by (rule pipeline_step_steady)
    from less.hyps [OF pipeline_step_measure [OF st] this]
    obtain es where "phase (pipeline_run pf cfg net es s') = Ready" by blast
    with st have "phase (pipeline_run pf cfg net (e # es) s) = Ready" by simp
    then show ?thesis by blast
  qed
qed


section \<open>Caches are kept\<close>

lemma caches_kept_refl: "caches_kept l l"
  by (simp add: caches_kept_def)

lemma caches_kept_trans: "caches_kept a b \<Longrightarrow> caches_kept b c \<Longrightarrow> caches_kept a c"
  by (auto simp: caches_kept_def intro: map_le_trans)

lemma addAsset_begin_caches:
  assumes "addAsset_begin pf a g = (c, g')"
  shows "caches_kept (loaders g) (loaders g')"
proof -
  have t: "caches_kept (loaders g) l" if "loadTextureByFile f (loaders g) = (p, l)" for f p l
    using loadTextureByFile_cache(1,3) [OF that] by (simp add: caches_kept_def)
  have m: "caches_kept (loaders g) l" if "loadModelTemplate f (loaders g) = (p, l)" for f p l
    using loadModelTemplate_cache(1,3) [OF that] by (simp add: caches_kept_def)
  from assms show ?thesis
    by (auto simp: addAsset_begin_def Let_def caches_kept_refl
        split: if_splits prod.splits option.splits dest: t m)
qed

lemma handleAsset_continue_loaders:
  assumes "handleAsset_continue pf cfg net c g = (t, g')"
  shows "loaders g' = loaders g"
proof (cases c)
  case (AwaitTexture a p)
  with assms show ?thesis by (auto split: sum.splits)
next
  case (AwaitModel a p)
  with assms show ?thesis by (auto simp: Let_def split: sum.splits)
next
  case (AwaitRejection a err)
  from rejection_stretch_cases [of pf cfg net a err g t g'] AwaitRejection assms
  obtain b g1 where f: "handleAsset_finally b g1 = (t, g')" "loaders g1 = loaders g" by auto
  from handleAsset_finally_facts(7) [OF f(1)] f(2) show ?thesis by simp
next
  case AwaitFulfilment
  with assms handleAsset_finally_facts(7) [of False "g\<lparr>totals_ok := totals_ok g + 1\<rparr>" t g']
  show ?thesis by simp
next
  case (AwaitNextFrame b)
  with assms show ?thesis by simp
qed

lemma handleAsset_keeps_caches:
  "caches_kept l0 (loaders g) \<Longrightarrow>
     caches_kept l0 (loaders (snd (begin_call (handleAsset pf cfg net) a g)))"
  "caches_kept l0 (loaders g) \<Longrightarrow>
     caches_kept l0 (loaders (snd (continue_call (handleAsset pf cfg net) c g)))"
proof -
  assume k: "caches_kept l0 (loaders g)"
  obtain c' g' where b: "addAsset_begin pf a g = (c', g')" by force
  with k addAsset_begin_caches [OF b]
  show "caches_kept l0 (loaders (snd (begin_call (handleAsset pf cfg net) a g)))"
    by (auto simp: handleAsset_def handleAsset_begin_def intro: caches_kept_trans)
  obtain t g'' where c: "handleAsset_continue pf cfg net c g = (t, g'')" by force
  with k handleAsset_continue_loaders [OF c]
  show "caches_kept l0 (loaders (snd (continue_call (handleAsset pf cfg net) c g)))"
    by (simp add: handleAsset_def)
qed

lemma pipeline_step_caches:
  assumes "caches_kept l0 (loaders (shared (batch s)))" "pipeline_step pf cfg net e s = Some s'"
  shows "caches_kept l0 (loaders (shared (batch s')))"
proof (cases e)
  case (Continue r)
  with assms(2) obtain b where b: "step (handleAsset pf cfg net) r (batch s) = Some b"
    "s' = s\<lparr>batch := b\<rparr>"
    by (auto simp: pipeline_step_def split: option.splits)
  have "caches_kept l0 (loaders (shared b))"
    by (rule step_shared [of "\<lambda>g. caches_kept l0 (loaders g)" _ "batch s" r b, OF _ _ assms(1) b(1)])
       (auto intro: handleAsset_keeps_caches)
  with b(2) show ?thesis by simp
next
  case BatchSettled
  with assms(2) have m: "main_continue pf cfg net s = Some s'" by (simp add: pipeline_step_def)
  have i: "caches_kept l0 (loaders (shared (runWithConcurrency (handleAsset pf cfg net) its c
          (shared (batch s)))))" for its c
    by (rule init_shared [of "\<lambda>g. caches_kept l0 (loaders g)"])
       (auto intro: handleAsset_keeps_caches assms(1))
  from m show ?thesis
    by (cases rule: main_continue_cases) (use assms(1) i in \<open>simp_all add: main_rejected_def\<close>)
qed

lemma pipeline_run_caches:
  "caches_kept l0 (loaders (shared (batch s))) \<Longrightarrow>
     caches_kept l0 (loaders (shared (batch (pipeline_run pf cfg net es s))))"
proof (induction es arbitrary: s)
  case Nil
  then show ?case by simp
next
  case (Cons e es)
  then show ?case
    by (cases "pipeline_step pf cfg net e s") (auto dest: pipeline_step_caches)
qed

text \<open>
  C7. A call of \<open>loadTextureByFile\<close> or \<open>loadModelTemplate\<close> leaves the promise it returns
  in the cache under the key of the file name, which is the name itself where it is a
  string or another primitive value and the very array or object otherwise; whatever
  stretches of the pipeline run afterwards, the caches keep every entry with its
  promise, and a call for a name with a cached key returns the cached promise and leaves
  the loader state as it is, so that no request is made again. A promise settles the
  same way whenever it is awaited, also when it is rejected. In the sculpture viewer a
  call of \<open>getMaterial\<close> after any run of \<open>makePlane\<close> calls and of loaded or failed
  textures returns the material of the first call for that id and makes no new request,
  and \<open>matCache\<close> keeps every entry.
\<close>

theorem cached_loads_are_kept:
  "(loadTextureByFile f l = (p, l1) \<longrightarrow> texturePromiseCache l1 (key_of f) = Some p)
   \<and> (texturePromiseCache (loaders (totals_of s)) (key_of f) = Some p \<longrightarrow>
        loadTextureByFile f (loaders (totals_of (pipeline_run pf cfg net es s)))
          = (p, loaders (totals_of (pipeline_run pf cfg net es s))))
   \<and> (loadModelTemplate fm lm = (pm, lm1) \<longrightarrow> modelTemplateCache lm1 (key_of fm) = Some pm)
   \<and> (modelTemplateCache (loaders (totals_of s)) (key_of fm) = Some pm \<longrightarrow>
        loadModelTemplate fm (loaders (totals_of (pipeline_run pf cfg net es s)))
          = (pm, loaders (totals_of (pipeline_run pf cfg net es s))))
   \<and> texturePromiseCache (loaders (totals_of s))
        \<subseteq>\<^sub>m texturePromiseCache (loaders (totals_of (pipeline_run pf cfg net es s)))
   \<and> modelTemplateCache (loaders (totals_of s))
        \<subseteq>\<^sub>m modelTemplateCache (loaders (totals_of (pipeline_run pf cfg net es s)))
   \<and> (getMaterial i cb sc = (m, sc1) \<longrightarrow>
        fst (getMaterial i cb' (foldl sculpture_apply sc1 ops)) = m \<and>
        requests (snd (getMaterial i cb' (foldl sculpture_apply sc1 ops)))
          = requests (foldl sculpture_apply sc1 ops))
   \<and> matCache sc \<subseteq>\<^sub>m matCache (foldl sculpture_apply sc ops)"
proof -
  have k: "caches_kept (loaders (totals_of s)) (loaders (totals_of (pipeline_run pf cfg net es s)))"
    unfolding totals_of_def by (rule pipeline_run_caches) (rule caches_kept_refl)
  have t: "loadTextureByFile f (loaders (totals_of (pipeline_run pf cfg net es s)))
          = (p, loaders (totals_of (pipeline_run pf cfg net es s)))"
    if "texturePromiseCache (loaders (totals_of s)) (key_of f) = Some p"
    using k that by (intro loadTextureByFile_hit) (auto simp: caches_kept_def map_le_def dom_def)
  have mo: "loadModelTemplate fm (loaders (totals_of (pipeline_run pf cfg net es s)))
          = (pm, loaders (totals_of (pipeline_run pf cfg net es s)))"
    if "modelTemplateCache (loaders (totals_of s)) (key_of fm) = Some pm"
    using k that by (intro loadModelTemplate_hit) (auto simp: caches_kept_def map_le_def dom_def)
  have g: "fst (getMaterial i cb' (foldl sculpture_apply sc1 ops)) = m \<and>
        requests (snd (getMaterial i cb' (foldl sculpture_apply sc1 ops)))
          = requests (foldl sculpture_apply sc1 ops)"
    if "getMaterial i cb sc = (m, sc1)"
  proof -
    have "matCache sc1 i = Some m" using that by (rule getMaterial_cache(2))
    with sculpture_run_cache [of sc1 ops] have "matCache (foldl sculpture_apply sc1 ops) i = Some m"
      by (auto simp: map_le_def dom_def)
    then show ?thesis by (simp add: getMaterial_hit)
  qed
  from k t mo g show ?thesis
    by (auto simp: caches_kept_def sculpture_run_cache
        dest: loadTextureByFile_cache(2) loadModelTemplate_cache(2))
qed

theorem cached_loads_are_kept_witness:
  "loadTextureByFile (0, JStr ''a.png'') no_loads =
     (Requested 0,
      \<lparr>texturePromiseCache = [KeyStr ''a.png'' \<mapsto> Requested 0], modelTemplateCache = Map.empty,
       texture_requests = [KeyStr ''a.png''], model_requests = []\<rparr>)
   \<and> loadModelTemplate (1, JStr ''m.glb'') no_loads =
     (Requested 0,
      \<lparr>texturePromiseCache = Map.empty, modelTemplateCache = [KeyStr ''m.glb'' \<mapsto> Requested 0],
       texture_requests = [], model_requests = [KeyStr ''m.glb'']\<rparr>)
   \<and> texturePromiseCache (loaders (totals_of
         (pipeline_run plain_platform VIEWER_CONFIG demo_network (take 5 demo_schedule)
            demo_start))) (key_of (0, JStr ''a.png'')) = Some (Requested 0)
   \<and> texture_promise plain_platform demo_network (Requested 0)
        = Inl (Thrown (Some ''Texture load failed''))
   \<and> modelTemplateCache (loaders (totals_of
         (pipeline_run plain_platform VIEWER_CONFIG demo_network (take 5 demo_schedule)
            demo_start))) (key_of (1, JStr ''m.glb'')) = Some (Requested 0)
   \<and> fst (loadTextureByFile (3, JStr ''a.png'')
        (loaders (totals_of
           (pipeline_run plain_platform VIEWER_CONFIG demo_network (drop 5 demo_schedule)
             (pipeline_run plain_platform VIEWER_CONFIG demo_network (take 5 demo_schedule)
                demo_start))))) = Requested 0
   \<and> fst (loadModelTemplate (1, JStr ''m.glb'')
        (loaders (totals_of
           (pipeline_run plain_platform VIEWER_CONFIG demo_network (drop 5 demo_schedule)
             (pipeline_run plain_platform VIEWER_CONFIG demo_network (take 5 demo_schedule)
                demo_start))))) = Requested 0
   \<and> texture_requests (loaders (totals_of array_named_run)) =
        [KeyObject 0 (JArr [JStr ''a.png'']), KeyObject 1 (JArr [JStr ''a.png''])]
   \<and> texturePromiseCache (loaders (totals_of array_named_run))
        (key_of (0, JArr [JStr ''a.png''])) = Some (Requested 0)
   \<and> fst (loadTextureByFile (0, JArr [JStr ''a.png''])
        (loaders (totals_of (pipeline_run plain_platform VIEWER_CONFIG demo_network
           [Continue 0, Continue 1] array_named_run)))) = Requested 0
   \<and> fst (getMaterial ''b'' 0 (empty_sculpture :: string sculpture)) = 0
   \<and> fst (getMaterial ''b'' 7
            (foldl sculpture_apply (snd (getMaterial ''b'' 0 empty_sculpture)) demo_ops)) = 0"
proof -
  let ?mid = "pipeline_run plain_platform VIEWER_CONFIG demo_network (take 5 demo_schedule)
                demo_start"
  let ?l1 = "\<lparr>texturePromiseCache = [KeyStr ''a.png'' \<mapsto> Requested 0],
          modelTemplateCache = Map.empty,
          texture_requests = [KeyStr ''a.png''], model_requests = []\<rparr>"
  let ?l2 = "\<lparr>texturePromiseCache = Map.empty,
          modelTemplateCache = [KeyStr ''m.glb'' \<mapsto> Requested 0],
          texture_requests = [], model_requests = [KeyStr ''m.glb'']\<rparr>"
  have a: "loadTextureByFile (0, JStr ''a.png'') no_loads = (Requested 0, ?l1)"
    by (simp add: loadTextureByFile_def no_loads_def Let_def)
  have b: "loadModelTemplate (1, JStr ''m.glb'') no_loads = (Requested 0, ?l2)"
    by (simp add: loadModelTemplate_def no_loads_def Let_def)
  have c: "texturePromiseCache (loaders (totals_of ?mid)) (key_of (0, JStr ''a.png''))
             = Some (Requested 0)"
    by code_simp
  have c': "key_of (3, JStr ''a.png'') = key_of (0, JStr ''a.png'')" by simp
  have d: "modelTemplateCache (loaders (totals_of ?mid)) (key_of (1, JStr ''m.glb''))
             = Some (Requested 0)"
    by code_simp
  have e: "texture_promise plain_platform demo_network (Requested 0)
             = Inl (Thrown (Some ''Texture load failed''))"
    by (simp add: texture_promise_def demo_network_def)
  have q: "texture_requests (loaders (totals_of array_named_run)) =
        [KeyObject 0 (JArr [JStr ''a.png'']), KeyObject 1 (JArr [JStr ''a.png''])]"
    by code_simp
  have q': "texturePromiseCache (loaders (totals_of array_named_run))
        (key_of (0, JArr [JStr ''a.png''])) = Some (Requested 0)"
    by code_simp
  obtain sc1 where g: "getMaterial ''b'' 0 (empty_sculpture :: string sculpture) = (0, sc1)"
    by (simp add: getMaterial_def empty_sculpture_def)
  have t1: "fst (loadTextureByFile (3, JStr ''a.png'')
        (loaders (totals_of
           (pipeline_run plain_platform VIEWER_CONFIG demo_network (drop 5 demo_schedule) ?mid)))) = Requested 0"
    and t2: "fst (loadModelTemplate (1, JStr ''m.glb'')
        (loaders (totals_of
           (pipeline_run plain_platform VIEWER_CONFIG demo_network (drop 5 demo_schedule) ?mid)))) = Requested 0"
    and t3: "fst (getMaterial ''b'' 7 (foldl sculpture_apply sc1 demo_ops)) = 0"
    using cached_loads_are_kept [where f = "(3, JStr ''a.png'')" and l = no_loads
        and p = "Requested 0" and ?l1.0 = "snd (loadTextureByFile (3, JStr ''a.png'') no_loads)"
        and s = ?mid and pf = plain_platform and cfg = VIEWER_CONFIG and net = demo_network
        and es = "drop 5 demo_schedule"
        and fm = "(1, JStr ''m.glb'')" and lm = no_loads and pm = "Requested 0"
        and ?lm1.0 = "snd (loadModelTemplate (1, JStr ''m.glb'') no_loads)"
        and i = "''b''" and cb = 0 and sc = empty_sculpture and m = 0 and ?sc1.0 = sc1
        and cb' = 7 and ops = demo_ops] c c' d g
    by simp_all
  have t4: "fst (loadTextureByFile (0, JArr [JStr ''a.png''])
        (loaders (totals_of (pipeline_run plain_platform VIEWER_CONFIG demo_network
           [Continue 0, Continue 1] array_named_run)))) = Requested 0"
    using cached_loads_are_kept [where f = "(0, JArr [JStr ''a.png''])" and l = no_loads
        and p = "Requested 0" and s = array_named_run and pf = plain_platform
        and cfg = VIEWER_CONFIG and net = demo_network and es = "[Continue 0, Continue 1]",
        THEN conjunct2, THEN conjunct1] q'
    by (simp del: pipeline_run.simps)
  from a b c d e g q q' t1 t2 t3 t4 show ?thesis by (simp del: pipeline_run.simps)
qed


section \<open>Failures and counters of the loading pipeline\<close>

lemma handleAsset_begin_world:
  "world (snd (begin_call (handleAsset pf cfg net) a g)) = world g"
proof -
  obtain c g' where b: "addAsset_begin pf a g = (c, g')" by force
  with addAsset_begin_facts(7) [OF b] show ?thesis
    by (simp add: handleAsset_def handleAsset_begin_def)
qed

lemma main_begin_world:
  assumes "list_all plain_transform assets"
  shows "world (totals_of (main_begin pf cfg net assets (viewer_at_start rs))) =
     map (\<lambda>a. fallback_holder pf cfg a ''unsupported type'') (otherAssets assets)"
proof -
  from main_begin_plain [OF assms, of pf cfg net rs] obtain g2 where
    m: "main_begin pf cfg net assets (viewer_at_start rs) =
           \<lparr>phase = LoadingModels, assets_of = assets,
            batch = runWithConcurrency (handleAsset pf cfg net) (modelAssets assets)
                      MODEL_CONCURRENCY g2\<rparr>"
    and w: "world g2 = map (\<lambda>a. fallback_holder pf cfg a ''unsupported type'') (otherAssets assets)"
    by blast
  have "world (shared (runWithConcurrency (handleAsset pf cfg net) (modelAssets assets)
          MODEL_CONCURRENCY g2)) = world g2"
    by (rule init_shared [of "\<lambda>g. world g = world g2"]) (simp_all add: handleAsset_begin_world)
  with m w show ?thesis by (simp add: totals_of_def)
qed

lemma failure_reason_nonempty: "failure_reason err \<noteq> []"
  by (auto simp: failure_reason_def split: option.splits)

lemma rejection_stretch:
  assumes "plain_transform a"
  shows "\<exists>t g' h. handleAsset_continue pf cfg net (AwaitRejection a err) g = (t, g') \<and>
      (t = Returned \<or> t = Suspended (AwaitNextFrame False)) \<and>
      totals_fallback g' = totals_fallback g + 1 \<and>
      totals_loaded g' = totals_loaded g + 1 \<and>
      totals_ok g' = totals_ok g \<and>
      world g' = world g @ [h] \<and> holder_kind h = FallbackPlane \<and>
      userData_error h = Some (failure_reason err) \<and>
      userData_asset h = (if truthy a then a else JNull) \<and>
      loaders g' = loaders g"
proof -
  obtain t g' where c: "handleAsset_continue pf cfg net (AwaitRejection a err) g = (t, g')"
    by force
  let ?h = "fallback_holder pf cfg a (failure_reason err)"
  from assms have "\<not> applyTransform_throws (transform_or_null a)"
    by (rule transform_or_null_plain)
  with rejection_stretch_cases [OF c]
  have f: "handleAsset_finally False
              (g\<lparr>totals_fallback := totals_fallback g + 1, world := world g @ [?h]\<rparr>) = (t, g')"
    by simp
  from handleAsset_finally_facts [OF f] c fallback_holder_facts(2-4) [of pf cfg a "failure_reason err"]
    failure_reason_nonempty [of err]
  show ?thesis by (intro exI [where x = t] exI [where x = g'] exI [where x = ?h]) simp
qed

lemma missing_file_begin:
  assumes "is_type ''image'' a \<or> is_type ''model'' a" "missing (get_member a ''mapped_file'')"
  shows "handleAsset_begin pf (i, a) g =
           (Suspended (AwaitRejection a (Thrown (Some ''missing mapped_file''))), g)"
  using assms
  by (cases "get_member a ''mapped_file''")
     (auto simp: handleAsset_begin_def addAsset_begin_def is_type_def)

lemma unsupported_begin:
  assumes "a \<noteq> JNull" "get_member a ''assetType'' \<noteq> Some (JStr ''model'')"
    "get_member a ''assetType'' \<noteq> Some (JStr ''image'')"
  shows "\<exists>e. handleAsset_begin pf (i, a) g = (Suspended (AwaitRejection a e), g) \<and>
           (\<not> number_throws (get_member a ''assetType'') \<longrightarrow>
              (\<exists>x. e = Thrown (Some (''unsupported type: '' @ x))))"
  using assms
  by (cases "get_member a ''assetType''")
     (auto simp: handleAsset_begin_def addAsset_begin_def)

lemma handleAsset_begin_suspends: "fst (handleAsset_begin pf item g) \<noteq> Rejected"
  using handleAsset_begin_facts(1) [of pf item g]
  by (cases "handleAsset_begin pf item g") auto

lemma handleAsset_calm_continues:
  assumes "calm c"
  shows "fst (handleAsset_continue pf cfg net c g) \<noteq> Rejected"
proof -
  obtain t g' where h: "handleAsset_continue pf cfg net c g = (t, g')" by force
  from handleAsset_continue_calm(1) [OF h assms] h show ?thesis by (cases t) auto
qed

text \<open>
  C3 as stated fails where the asset's transform holds an object with a member
  \<open>toString\<close> in the place of a number. The first model of this manifest has no file
  name; the \<open>catch\<close> branch counts the fallback and then \<open>addFallbackPlane\<close> throws in
  \<open>applyTransform\<close>, so that no plane is added, the call is rejected, the only runner of
  the batch ends with the second model never passed to the worker, and \<open>main\<close> is
  rejected.
\<close>

theorem stubborn_asset_aborts_the_batch:
  "is_type ''model'' (stubborn_assets ! 0) \<and>
   missing (get_member (stubborn_assets ! 0) ''mapped_file'') \<and>
   phase stubborn_run = Aborted \<and>
   runners (batch stubborn_run) = [Crashed] \<and>
   calls (batch stubborn_run) = [0] \<and>
   world (totals_of stubborn_run) = [] \<and>
   totals_fallback (totals_of stubborn_run) = 1 \<and>
   totals_loaded (totals_of stubborn_run) = 1 \<and>
   totals_total (totals_of stubborn_run) = 2"
  by code_simp

text \<open>
  C3, as the code has it. An image or model asset without a file name, an asset of
  another type, and a rejected texture or model promise bring the call of \<open>handleAsset\<close>
  to its \<open>catch\<close> branch without any change of the state. For an asset whose transform
  \<open>applyTransform\<close> applies without throwing, that branch adds one to \<open>totals.fallback\<close> and
  to \<open>totals.loaded\<close>, leaves \<open>totals.ok\<close>, adds to \<open>world\<close> one fallback plane that records
  the asset and a non-empty reason, makes no loader request, and the call is not
  rejected. Where every asset of the manifest has such a transform, the assets that are
  neither models nor images get their fallback plane with the reason \<open>unsupported type\<close>
  from \<open>main\<close> itself, and in every state of the pipeline no runner has been ended by a
  rejection, \<open>main\<close> has not been rejected, the fallback planes in \<open>world\<close> are as many as
  \<open>totals.fallback\<close>, and the pipeline can run on to its end. For every manifest, no key
  has been requested twice from a loader.
\<close>

theorem failed_assets_become_fallback_planes:
  "((is_type ''image'' a1 \<or> is_type ''model'' a1) \<and> missing (get_member a1 ''mapped_file'')
        \<longrightarrow> handleAsset_begin pf (i, a1) g =
              (Suspended (AwaitRejection a1 (Thrown (Some ''missing mapped_file''))), g))
   \<and> (a2 \<noteq> JNull \<and> get_member a2 ''assetType'' \<noteq> Some (JStr ''model'') \<and>
        get_member a2 ''assetType'' \<noteq> Some (JStr ''image'')
        \<longrightarrow> (\<exists>e2. handleAsset_begin pf (i, a2) g = (Suspended (AwaitRejection a2 e2), g) \<and>
               (\<not> number_throws (get_member a2 ''assetType'') \<longrightarrow>
                  (\<exists>x. e2 = Thrown (Some (''unsupported type: '' @ x))))))
   \<and> (texture_promise pf net p = Inl err
        \<longrightarrow> handleAsset_continue pf cfg net (AwaitTexture a p) g
              = (Suspended (AwaitRejection a err), g))
   \<and> (model_promise pf net p' = Inl err'
        \<longrightarrow> handleAsset_continue pf cfg net (AwaitModel a p') g
              = (Suspended (AwaitRejection a err'), g))
   \<and> (plain_transform a \<longrightarrow>
        (\<exists>t g' h. handleAsset_continue pf cfg net (AwaitRejection a e) g = (t, g') \<and>
           (t = Returned \<or> t = Suspended (AwaitNextFrame False)) \<and>
           totals_fallback g' = totals_fallback g + 1 \<and>
           totals_loaded g' = totals_loaded g + 1 \<and>
           totals_ok g' = totals_ok g \<and>
           world g' = world g @ [h] \<and> holder_kind h = FallbackPlane \<and>
           userData_error h = Some (failure_reason e) \<and>
           userData_asset h = (if truthy a then a else JNull) \<and>
           loaders g' = loaders g))
   \<and> failure_reason e \<noteq> []
   \<and> fst (handleAsset_begin pf item g) \<noteq> Rejected
   \<and> (calm c \<longrightarrow> fst (handleAsset_continue pf cfg net c g) \<noteq> Rejected)
   \<and> (list_all plain_transform assets \<longrightarrow>
        world (totals_of (main_begin pf cfg net assets (viewer_at_start rs))) =
          map (\<lambda>a. fallback_holder pf cfg a ''unsupported type'') (otherAssets assets)
        \<and> no_failure (batch (pipeline_run pf cfg net es
                               (main_begin pf cfg net assets (viewer_at_start rs))))
        \<and> phase (pipeline_run pf cfg net es (main_begin pf cfg net assets (viewer_at_start rs)))
            \<noteq> Aborted
        \<and> length (filter is_fallback (world (totals_of (pipeline_run pf cfg net es
                               (main_begin pf cfg net assets (viewer_at_start rs))))))
            = totals_fallback (totals_of (pipeline_run pf cfg net es
                               (main_begin pf cfg net assets (viewer_at_start rs))))
        \<and> (\<exists>es'. phase (pipeline_run pf cfg net es'
                     (pipeline_run pf cfg net es
                        (main_begin pf cfg net assets (viewer_at_start rs)))) = Ready))
   \<and> distinct (texture_requests (loaders (totals_of (pipeline_run pf cfg net es
                           (main_begin pf cfg net assets (viewer_at_start rs))))))
   \<and> distinct (model_requests (loaders (totals_of (pipeline_run pf cfg net es
                           (main_begin pf cfg net assets (viewer_at_start rs))))))"
proof -
  let ?S = "pipeline_run pf cfg net es (main_begin pf cfg net assets (viewer_at_start rs))"
  have inv: "pipeline_inv ?S" by (rule pipeline_run_inv) (rule main_begin_inv)
  then have v: "viewer_inv (length (assets_of ?S)) (totals_of ?S)"
    by (simp_all add: pipeline_inv_def totals_of_def)
  from v have d: "distinct (texture_requests (loaders (totals_of ?S)))"
    "distinct (model_requests (loaders (totals_of ?S)))"
    by (simp_all add: viewer_inv_def loaders_consistent_def cache_matches_def)
  have pl: "world (totals_of (main_begin pf cfg net assets (viewer_at_start rs))) =
          map (\<lambda>a. fallback_holder pf cfg a ''unsupported type'') (otherAssets assets)
        \<and> no_failure (batch ?S) \<and> phase ?S \<noteq> Aborted
        \<and> length (filter is_fallback (world (totals_of ?S))) = totals_fallback (totals_of ?S)
        \<and> (\<exists>es'. phase (pipeline_run pf cfg net es' ?S) = Ready)"
    if a: "list_all plain_transform assets"
  proof -
    have st: "steady ?S" by (rule pipeline_run_steady) (rule main_begin_steady [OF a])
    then have "no_failure (batch ?S)" "phase ?S \<noteq> Aborted"
      "length (filter is_fallback (world (totals_of ?S))) = totals_fallback (totals_of ?S)"
      by (simp_all add: steady_def calm_no_failure calm_pool_def totals_of_def)
    moreover have "\<exists>es'. phase (pipeline_run pf cfg net es' ?S) = Ready"
      using st by (rule can_finish)
    ultimately show ?thesis using main_begin_world [OF a, of pf cfg net rs] by blast
  qed
  have tx: "handleAsset_continue pf cfg net (AwaitTexture a p) g
              = (Suspended (AwaitRejection a err), g)" if "texture_promise pf net p = Inl err"
    using that by simp
  have mo: "handleAsset_continue pf cfg net (AwaitModel a p') g
              = (Suspended (AwaitRejection a err'), g)" if "model_promise pf net p' = Inl err'"
    using that by simp
  show ?thesis
    using missing_file_begin [of a1 pf i g] unsupported_begin [of a2 pf i g] tx mo
      rejection_stretch [of a pf cfg net e g] failure_reason_nonempty [of e]
      handleAsset_begin_suspends [of pf item g] handleAsset_calm_continues [of c pf cfg net g]
      pl d
    by (intro conjI impI) blast+
qed


theorem failed_assets_become_fallback_planes_witness:
  "is_type ''image'' (demo_assets ! 4) \<and> missing (get_member (demo_assets ! 4) ''mapped_file'')
   \<and> handleAsset_begin plain_platform (4, demo_assets ! 4) (viewer_at_start initial_render_state)
       = (Suspended (AwaitRejection (demo_assets ! 4) (Thrown (Some ''missing mapped_file''))),
          viewer_at_start initial_render_state)
   \<and> demo_assets ! 5 \<noteq> JNull
   \<and> get_member (demo_assets ! 5) ''assetType'' \<noteq> Some (JStr ''model'')
   \<and> get_member (demo_assets ! 5) ''assetType'' \<noteq> Some (JStr ''image'')
   \<and> \<not> number_throws (get_member (demo_assets ! 5) ''assetType'')
   \<and> (\<exists>x. handleAsset_begin plain_platform (4, demo_assets ! 5)
              (viewer_at_start initial_render_state)
            = (Suspended (AwaitRejection (demo_assets ! 5)
                 (Thrown (Some (''unsupported type: '' @ x)))),
               viewer_at_start initial_render_state))
   \<and> texture_promise plain_platform demo_network (Requested 0)
        = Inl (Thrown (Some ''Texture load failed''))
   \<and> handleAsset_continue plain_platform VIEWER_CONFIG demo_network
        (AwaitTexture (demo_assets ! 0) (Requested 0)) (viewer_at_start initial_render_state)
       = (Suspended (AwaitRejection (demo_assets ! 0) (Thrown (Some ''Texture load failed''))),
          viewer_at_start initial_render_state)
   \<and> model_promise plain_platform demo_network (Requested 1) = Inl (Thrown None)
   \<and> handleAsset_continue plain_platform VIEWER_CONFIG demo_network
        (AwaitModel (demo_assets ! 0) (Requested 1)) (viewer_at_start initial_render_state)
       = (Suspended (AwaitRejection (demo_assets ! 0) (Thrown None)),
          viewer_at_start initial_render_state)
   \<and> plain_transform (demo_assets ! 0)
   \<and> (\<exists>t g' h. handleAsset_continue plain_platform VIEWER_CONFIG demo_network
                   (AwaitRejection (demo_assets ! 0) (Thrown None))
                   (viewer_at_start initial_render_state) = (t, g') \<and>
          totals_fallback g' = 1 \<and> world g' = [h] \<and> userData_error h = Some ''load_error'')
   \<and> calm (AwaitRejection (demo_assets ! 0) (Thrown None))
   \<and> fst (handleAsset_continue plain_platform VIEWER_CONFIG demo_network
             (AwaitRejection (demo_assets ! 0) (Thrown None))
             (viewer_at_start initial_render_state)) \<noteq> Rejected
   \<and> list_all plain_transform demo_assets
   \<and> phase demo_run = Ready
   \<and> no_failure (batch demo_run)
   \<and> length (filter is_fallback (world (totals_of demo_run))) = 5
   \<and> map userData_error (world (totals_of demo_run)) =
        [Some ''unsupported type'', Some ''unsupported type'', None,
         Some ''missing mapped_file'', Some ''Texture load failed'',
         Some ''Texture load failed'']
   \<and> texture_requests (loaders (totals_of demo_run)) = [KeyStr ''a.png'']"
proof -
  let ?g = "viewer_at_start initial_render_state"
  have h1: "is_type ''image'' (demo_assets ! 4) \<and>
            missing (get_member (demo_assets ! 4) ''mapped_file'')"
    by (simp add: demo_assets_def is_type_def)
  have h2: "demo_assets ! 5 \<noteq> JNull \<and>
            get_member (demo_assets ! 5) ''assetType'' \<noteq> Some (JStr ''model'') \<and>
            get_member (demo_assets ! 5) ''assetType'' \<noteq> Some (JStr ''image'')"
    "\<not> number_throws (get_member (demo_assets ! 5) ''assetType'')"
    by (simp_all add: demo_assets_def)
  have h3: "texture_promise plain_platform demo_network (Requested 0)
              = Inl (Thrown (Some ''Texture load failed''))"
    by (simp add: texture_promise_def demo_network_def)
  have h4: "model_promise plain_platform demo_network (Requested 1) = Inl (Thrown None)"
    by (simp add: model_promise_def demo_network_def)
  have h5: "plain_transform (demo_assets ! 0)" "list_all plain_transform demo_assets"
    by code_simp+
  then have h6: "calm (AwaitRejection (demo_assets ! 0) (Thrown None))" by simp
  have fr: "failure_reason (Thrown None) = ''load_error''" by (simp add: failure_reason_def)
  have g0: "totals_fallback ?g = 0" "world ?g = []" by (simp_all add: viewer_at_start_def)
  have r: "phase demo_run = Ready" by code_simp
  have f: "totals_fallback (totals_of demo_run) = 5" by code_simp
  have w: "map userData_error (world (totals_of demo_run)) =
        [Some ''unsupported type'', Some ''unsupported type'', None,
         Some ''missing mapped_file'', Some ''Texture load failed'',
         Some ''Texture load failed'']" by code_simp
  have q: "texture_requests (loaders (totals_of demo_run)) = [KeyStr ''a.png'']" by code_simp
  from failed_assets_become_fallback_planes [where pf = plain_platform and cfg = VIEWER_CONFIG
         and net = demo_network and ?a1.0 = "demo_assets ! 4" and i = 4 and g = ?g
         and ?a2.0 = "demo_assets ! 5" and p = "Requested 0"
         and err = "Thrown (Some ''Texture load failed'')" and a = "demo_assets ! 0"
         and p' = "Requested 1" and err' = "Thrown None" and e = "Thrown None"
         and item = "(0, demo_assets ! 0)" and c = "AwaitRejection (demo_assets ! 0) (Thrown None)"
         and assets = demo_assets and rs = "requestRender initial_render_state"
         and es = demo_schedule, folded demo_run_def]
       h1 h2 h3 h4 h5 h6 fr g0 r f w q
  show ?thesis by (intro conjI) (blast | simp | force)+
qed

lemma both_batches_done:
  assumes "pipeline_inv s" "phase s = LoadingImages" "resolved (batch s)"
  shows "totals_loaded (shared (batch s)) = length (assets_of s)"
proof -
  have "index (batch s) = length (items (batch s))"
    using assms by (intro resolved_index) (simp_all add: pipeline_inv_def)
  moreover have "pending (batch s) = 0" using assms(3) by (rule resolved_pending)
  ultimately show ?thesis
    using assms(1,2) assets_partition [of "assets_of s"]
    by (simp add: pipeline_inv_def balanced_def)
qed

lemma pipeline_run_assets:
  "assets_of (pipeline_run pf cfg net es s) = assets_of s"
proof (induction es arbitrary: s)
  case Nil
  then show ?case by simp
next
  case (Cons e es)
  have "assets_of s' = assets_of s" if "pipeline_step pf cfg net e s = Some s'" for s'
    using that
    by (cases e) (auto simp: pipeline_step_def main_continue_def Let_def
        split: option.splits if_splits)
  with Cons show ?case by (cases "pipeline_step pf cfg net e s") auto
qed

lemma main_begin_assets: "assets_of (main_begin pf cfg net assets g) = assets"
  by (simp add: main_begin_def Let_def split: prod.splits option.splits)

text \<open>
  C9. In every state of the loading pipeline, that is between any two stretches of
  \<open>main\<close> and of the \<open>handleAsset\<close> calls under any schedule and any behaviour of the
  network, \<open>totals.ok + totals.fallback = totals.loaded\<close> and \<open>totals.total\<close> is the number
  of assets of the manifest; when the batch of images has finished after the batch of
  models, and from then on, \<open>totals.loaded = totals.total\<close>.
\<close>

theorem totals_consistent_throughout:
  "totals_ok (totals_of (pipeline_run pf cfg net es
       (main_begin pf cfg net assets (viewer_at_start rs))))
     + totals_fallback (totals_of (pipeline_run pf cfg net es
       (main_begin pf cfg net assets (viewer_at_start rs))))
     = totals_loaded (totals_of (pipeline_run pf cfg net es
       (main_begin pf cfg net assets (viewer_at_start rs))))
   \<and> totals_total (totals_of (pipeline_run pf cfg net es
       (main_begin pf cfg net assets (viewer_at_start rs)))) = length assets
   \<and> ((phase (pipeline_run pf cfg net es
           (main_begin pf cfg net assets (viewer_at_start rs))) = LoadingImages \<and>
        resolved (batch (pipeline_run pf cfg net es
           (main_begin pf cfg net assets (viewer_at_start rs)))))
       \<or> phase (pipeline_run pf cfg net es
           (main_begin pf cfg net assets (viewer_at_start rs))) = Ready
       \<longrightarrow> totals_loaded (totals_of (pipeline_run pf cfg net es
               (main_begin pf cfg net assets (viewer_at_start rs))))
           = totals_total (totals_of (pipeline_run pf cfg net es
               (main_begin pf cfg net assets (viewer_at_start rs)))))"
proof -
  let ?S = "pipeline_run pf cfg net es (main_begin pf cfg net assets (viewer_at_start rs))"
  have inv: "pipeline_inv ?S" by (rule pipeline_run_inv) (rule main_begin_inv)
  have as: "assets_of ?S = assets"
    by (simp add: pipeline_run_assets main_begin_assets)
  from inv as have v: "viewer_inv (length assets) (totals_of ?S)"
    by (simp add: pipeline_inv_def totals_of_def)
  have r: "totals_loaded (totals_of ?S) = length assets" if "phase ?S = Ready"
    using inv that as by (simp add: pipeline_inv_def totals_of_def)
  have i: "totals_loaded (totals_of ?S) = length assets"
    if "phase ?S = LoadingImages" "resolved (batch ?S)"
    using both_batches_done [OF inv that] as by (simp add: totals_of_def)
  from v r i show ?thesis by (auto simp: viewer_inv_def)
qed

theorem totals_consistent_throughout_witness:
  "phase demo_run = Ready
   \<and> totals_ok (totals_of demo_run) + totals_fallback (totals_of demo_run)
       = totals_loaded (totals_of demo_run)
   \<and> totals_total (totals_of demo_run) = length demo_assets
   \<and> totals_loaded (totals_of demo_run) = totals_total (totals_of demo_run)
   \<and> totals_loaded (totals_of demo_run) = 6"
proof -
  have r: "phase demo_run = Ready" by code_simp
  have n: "length demo_assets = 6" by (simp add: demo_assets_def)
  from totals_consistent_throughout [of plain_platform VIEWER_CONFIG demo_network
         demo_schedule demo_assets "requestRender initial_render_state",
         folded demo_run_def] r n
  show ?thesis by simp
qed

end
